(* ===== verification/Prelude.thy ===== *)
theory Prelude
  imports Complex_Main "HOL-Library.AList" "HOL-Library.Word" "HOL-Library.List_Lexorder"
    "HOL-Library.Char_ord"
begin

text \<open>
  Shared vocabulary of the development: how Go values are represented, the map
  interface the components are written against, and the generic lemmas on lists and
  maps that the component proofs share.

  A Go \<open>string\<close> is a sequence of bytes, as is a HOL \<open>string\<close>; its order is the
  bytewise lexicographic one. A Go \<open>map\<close> is an association list with distinct keys:
  lookups follow \<open>map_of\<close>, and the order of the list is the order in which one
  execution happens to range over the map. Go leaves that order open, so statements
  about a range loop are made for every enumeration of the same map.
\<close>

section \<open>Automation\<close>

named_theorems model_defs \<open>definitions of small operations, unfolded by default in proofs\<close>
named_theorems map_laws \<open>lookup laws of Go maps\<close>

section \<open>Results\<close>

text \<open>A Go function \<open>(T, error)\<close> returns \<open>Inl e\<close> on the error and \<open>Inr v\<close> else.\<close>

type_synonym ('e, 'a) result = "'e + 'a"

fun bind_result :: "('e, 'a) result \<Rightarrow> ('a \<Rightarrow> ('e, 'b) result) \<Rightarrow> ('e, 'b) result" where
  "bind_result (Inl e) f = Inl e"
| "bind_result (Inr v) f = f v"

lemma bind_result_eq_Inr [simp]:
  "bind_result r f = Inr y \<longleftrightarrow> (\<exists>v. r = Inr v \<and> f v = Inr y)"
  by (cases r) auto

lemma bind_result_eq_Inl:
  "bind_result r f = Inl e \<longleftrightarrow> r = Inl e \<or> (\<exists>v. r = Inr v \<and> f v = Inl e)"
  by (cases r) auto

text \<open>A loop that applies a fallible body to each element and stops at the first error.\<close>

fun map_result :: "('a \<Rightarrow> ('e, 'b) result) \<Rightarrow> 'a list \<Rightarrow> ('e, 'b list) result" where
  "map_result f [] = Inr []"
| "map_result f (x # xs) =
     bind_result (f x) (\<lambda>y. bind_result (map_result f xs) (\<lambda>ys. Inr (y # ys)))"

lemma map_result_Inr:
  "map_result f xs = Inr ys \<longleftrightarrow> list_all2 (\<lambda>x y. f x = Inr y) xs ys"
  by (induction xs arbitrary: ys) (auto simp: list_all2_Cons1)

lemma map_result_set:
  assumes "map_result f xs = Inr ys"
  shows "y \<in> set ys \<longleftrightarrow> (\<exists>x \<in> set xs. f x = Inr y)"
proof -
  from assms have all: "list_all2 (\<lambda>x y. f x = Inr y) xs ys" by (simp add: map_result_Inr)
  then have "map f xs = map Inr ys"
    by (induction rule: list_all2_induct) auto
  then have "f ` set xs = Inr ` set ys" by (metis list.set_map)
  then show ?thesis by (metis (no_types, lifting) image_iff sum.inject(2))
qed

lemma map_result_Nil [simp]: "map_result f xs = Inr [] \<longleftrightarrow> xs = []"
  by (cases xs) auto

lemma map_result_ok:
  "map_result f xs = Inr ys \<Longrightarrow> x \<in> set xs \<Longrightarrow> \<exists>y. f x = Inr y"
  by (induction xs arbitrary: ys) auto

lemma find_SomeD: "find P xs = Some x \<Longrightarrow> x \<in> set xs \<and> P x"
  by (induction xs) (auto split: if_splits)

lemma find_append:
  "find P (xs @ ys) = (case find P xs of None \<Rightarrow> find P ys | Some x \<Rightarrow> Some x)"
  by (induction xs) auto

section \<open>Maps\<close>

text \<open>
  What the code relies on a Go map for: lookup, assignment, \<open>delete\<close>, the keys a range
  loop visits, and that an assignment or a deletion touches one key only.
\<close>

locale go_map =
  fixes get :: "'m \<Rightarrow> 'k \<Rightarrow> 'v option"
    and put :: "'k \<Rightarrow> 'v \<Rightarrow> 'm \<Rightarrow> 'm"
    and del :: "'k \<Rightarrow> 'm \<Rightarrow> 'm"
    and keys :: "'m \<Rightarrow> 'k list"
    and wf :: "'m \<Rightarrow> bool"
  assumes get_put: "get (put k v m) k' = (if k' = k then Some v else get m k')"
    and get_del: "get (del k m) k' = (if k' = k then None else get m k')"
    and keys_get: "k \<in> set (keys m) \<longleftrightarrow> get m k \<noteq> None"
    and wf_put: "wf m \<Longrightarrow> wf (put k v m)"
    and wf_del: "wf m \<Longrightarrow> wf (del k m)"
    and wf_keys: "wf m \<Longrightarrow> distinct (keys m)"
begin

lemma get_put_same: "get (put k v m) k = Some v"
  by (simp add: get_put)

lemma get_fold_del: "get (fold del ks m) k = (if k \<in> set ks then None else get m k)"
  by (induction ks arbitrary: m) (auto simp: get_del)

lemma get_fold_put:
  "get (fold (\<lambda>k. put k v) ks m) k = (if k \<in> set ks then Some v else get m k)"
  by (induction ks arbitrary: m) (auto simp: get_put)

lemma wf_fold_del: "wf m \<Longrightarrow> wf (fold del ks m)"
  by (induction ks arbitrary: m) (auto simp: wf_del)

lemma wf_fold_put: "wf m \<Longrightarrow> wf (fold (\<lambda>k. put k v) ks m)"
  by (induction ks arbitrary: m) (auto simp: wf_put)

lemma length_keys:
  assumes "wf m" shows "length (keys m) = card {k. get m k \<noteq> None}"
proof -
  have "{k. get m k \<noteq> None} = set (keys m)" by (auto simp: keys_get)
  with assms show ?thesis by (simp add: distinct_card wf_keys)
qed

end

type_synonym ('k, 'v) gomap = "('k \<times> 'v) list"

abbreviation gm_get :: "('k, 'v) gomap \<Rightarrow> 'k \<Rightarrow> 'v option" where
  "gm_get m \<equiv> map_of m"

abbreviation gm_put :: "'k \<Rightarrow> 'v \<Rightarrow> ('k, 'v) gomap \<Rightarrow> ('k, 'v) gomap" where
  "gm_put \<equiv> AList.update"

abbreviation gm_del :: "'k \<Rightarrow> ('k, 'v) gomap \<Rightarrow> ('k, 'v) gomap" where
  "gm_del \<equiv> AList.delete"

definition gm_keys :: "('k, 'v) gomap \<Rightarrow> 'k list" where
  "gm_keys m = map fst m"

definition gm_wf :: "('k, 'v) gomap \<Rightarrow> bool" where
  "gm_wf m = distinct (map fst m)"

text \<open>\<open>m[k]\<close> read as a value: Go returns the element type's zero value for a missing key.\<close>

definition gm_get0 :: "'v \<Rightarrow> ('k, 'v) gomap \<Rightarrow> 'k \<Rightarrow> 'v" where
  "gm_get0 z m k = (case gm_get m k of None \<Rightarrow> z | Some v \<Rightarrow> v)"

lemma gm_keys_get: "k \<in> set (gm_keys m) \<longleftrightarrow> gm_get m k \<noteq> None"
  by (induction m) (auto simp: gm_keys_def)

lemma gm_wf_put_aux: "gm_wf m \<Longrightarrow> gm_wf (gm_put k v m)"
  by (simp add: gm_wf_def AList.distinct_update)

lemma gm_wf_del_aux: "gm_wf m \<Longrightarrow> gm_wf (gm_del k m)"
  by (simp add: gm_wf_def AList.distinct_delete)

interpretation gm: go_map "\<lambda>m. map_of m" AList.update AList.delete gm_keys gm_wf
proof
  show "map_of (AList.update k v m) k' = (if k' = k then Some v else map_of m k')"
    for k k' :: 'k and v :: 'v and m
    by (simp add: AList.update_conv')
  show "map_of (AList.delete k m) k' = (if k' = k then None else map_of m k')"
    for k k' :: 'k and m :: "('k \<times> 'v) list"
    by (simp add: AList.delete_conv')
qed (simp_all add: gm_keys_get gm_wf_put_aux gm_wf_del_aux, simp add: gm_wf_def gm_keys_def)

lemmas gm_laws [map_laws] = gm.get_put gm.get_del gm.get_fold_del gm.get_fold_put gm.keys_get

lemma gm_get_mem: "gm_wf m \<Longrightarrow> gm_get m k = Some v \<longleftrightarrow> (k, v) \<in> set m"
  unfolding gm_wf_def by (rule map_of_eq_Some_iff)

lemma gm_get_Some_mem: "gm_get m k = Some v \<Longrightarrow> (k, v) \<in> set m"
  by (rule map_of_SomeD)

lemma gm_wf_Nil [simp]: "gm_wf []"
  by (simp add: gm_wf_def)

lemma gm_wf_put [simp]: "gm_wf m \<Longrightarrow> gm_wf (gm_put k v m)"
  by (rule gm.wf_put)

lemma gm_wf_del [simp]: "gm_wf m \<Longrightarrow> gm_wf (gm_del k m)"
  by (rule gm.wf_del)

text \<open>Two association lists enumerate the same map; this is what comparing maps decides.\<close>

definition gm_equiv :: "('k, 'v) gomap \<Rightarrow> ('k, 'v) gomap \<Rightarrow> bool" where
  "gm_equiv m m' \<longleftrightarrow>
     list_all (\<lambda>k. gm_get m k = gm_get m' k) (gm_keys m) \<and>
     list_all (\<lambda>k. gm_get m k = gm_get m' k) (gm_keys m')"

lemma gm_equiv_iff: "gm_equiv m m' \<longleftrightarrow> gm_get m = gm_get m'"
proof
  assume eq: "gm_equiv m m'"
  show "gm_get m = gm_get m'"
  proof
    fix k
    show "gm_get m k = gm_get m' k"
    proof (cases "k \<in> set (gm_keys m) \<or> k \<in> set (gm_keys m')")
      case True
      with eq show ?thesis by (auto simp: gm_equiv_def list_all_iff)
    next
      case False
      then show ?thesis by (simp add: gm_keys_get)
    qed
  qed
qed (simp add: gm_equiv_def list_all_iff)

lemma gm_equiv_refl [simp]: "gm_equiv m m"
  by (simp add: gm_equiv_iff)

section \<open>Canonical enumerations\<close>

text \<open>Encoders visit map keys in sorted order, whatever the range order was.\<close>

definition gm_sorted :: "('k::linorder, 'v) gomap \<Rightarrow> ('k, 'v) gomap" where
  "gm_sorted m = sort_key fst m"

lemma gm_wf_sorted [simp]: "gm_wf (gm_sorted m) \<longleftrightarrow> gm_wf m"
  unfolding gm_wf_def gm_sorted_def
  by (metis distinct_map distinct_sort set_sort)

lemma set_gm_sorted [simp]: "set (gm_sorted m) = set m"
  by (simp add: gm_sorted_def)

lemma gm_get_sorted: "gm_wf m \<Longrightarrow> gm_get (gm_sorted m) = gm_get m"
  using map_of_inject_set [of "gm_sorted m" m]
  by (simp flip: gm_wf_def)

text \<open>The canonical enumeration depends on the map only, not on the order it came in.\<close>

lemma gm_sorted_cong:
  assumes "gm_wf m" "gm_wf m'" "gm_get m = gm_get m'"
  shows "gm_sorted m = gm_sorted m'"
proof (rule map_sorted_distinct_set_unique [where f = fst])
  have sets: "set m = set m'"
    using assms map_of_inject_set [of m m'] by (simp add: gm_wf_def)
  then show "set (gm_sorted m) = set (gm_sorted m')" by simp
  from assms(1) show "inj_on fst (set (gm_sorted m) \<union> set (gm_sorted m'))"
    by (simp add: sets [symmetric] gm_wf_def distinct_map)
  show "sorted (map fst (gm_sorted m))" "sorted (map fst (gm_sorted m'))"
    by (simp_all add: gm_sorted_def)
  show "distinct (map fst (gm_sorted m))" "distinct (map fst (gm_sorted m'))"
    using assms(1,2) gm_wf_sorted [of m] gm_wf_sorted [of m'] by (simp_all add: gm_wf_def)
qed

end
