(* ===== verification/GoStrings.thy ===== *)
theory GoStrings
  imports Prelude
begin

text \<open>
  The parts of Go's \<open>strings\<close>, \<open>strconv\<close>, \<open>sort\<close> and
  \<open>encoding/base64\<close> packages that the controller calls, on byte strings, with the
  facts its components use. They belong to the standard library, so the manifest maps
  none of them to a source line.
\<close>

section \<open>Trimming\<close>

definition starts_with :: "string \<Rightarrow> string \<Rightarrow> bool" where
  "starts_with p s \<longleftrightarrow> take (length p) s = p"

function lstrip :: "string list \<Rightarrow> string \<Rightarrow> string" where
  "lstrip ps s =
     (case find (\<lambda>p. p \<noteq> [] \<and> starts_with p s) ps of
        None \<Rightarrow> s
      | Some p \<Rightarrow> lstrip ps (drop (length p) s))"
  by pat_completeness auto
termination
proof (relation "measure (\<lambda>(ps, s). length s)")
  fix ps s p
  assume "find (\<lambda>p. p \<noteq> [] \<and> starts_with p s) ps = Some p"
  then have "p \<noteq> []" "take (length p) s = p"
    by (auto simp: find_Some_iff starts_with_def)
  then have "0 < length p" "s \<noteq> []" by auto
  then show "((ps, drop (length p) s), ps, s) \<in> measure (\<lambda>(ps, s). length s)"
    by (cases s) auto
qed simp

declare lstrip.simps [simp del]

text \<open>
  \<open>unicode.IsSpace\<close> in UTF-8: six ASCII bytes, U+0085, U+00A0, U+1680, U+2000 to
  U+200A, U+2028, U+2029, U+202F, U+205F and U+3000. No encoding of one is a proper
  prefix or suffix of another, and a first byte never occurs inside another encoding.
\<close>

definition space_encodings :: "string list" where
  "space_encodings =
     [[CHR 0x20], [CHR 0x09], [CHR 0x0A], [CHR 0x0B], [CHR 0x0C], [CHR 0x0D],
      [CHR 0xC2, CHR 0x85], [CHR 0xC2, CHR 0xA0], [CHR 0xE1, CHR 0x9A, CHR 0x80],
      [CHR 0xE2, CHR 0x80, CHR 0x80], [CHR 0xE2, CHR 0x80, CHR 0x81],
      [CHR 0xE2, CHR 0x80, CHR 0x82], [CHR 0xE2, CHR 0x80, CHR 0x83],
      [CHR 0xE2, CHR 0x80, CHR 0x84], [CHR 0xE2, CHR 0x80, CHR 0x85],
      [CHR 0xE2, CHR 0x80, CHR 0x86], [CHR 0xE2, CHR 0x80, CHR 0x87],
      [CHR 0xE2, CHR 0x80, CHR 0x88], [CHR 0xE2, CHR 0x80, CHR 0x89],
      [CHR 0xE2, CHR 0x80, CHR 0x8A], [CHR 0xE2, CHR 0x80, CHR 0xA8],
      [CHR 0xE2, CHR 0x80, CHR 0xA9], [CHR 0xE2, CHR 0x80, CHR 0xAF],
      [CHR 0xE2, CHR 0x81, CHR 0x9F], [CHR 0xE3, CHR 0x80, CHR 0x80]]"

definition trim_left :: "string \<Rightarrow> string" where
  "trim_left s = lstrip space_encodings s"

definition trim_right :: "string \<Rightarrow> string" where
  "trim_right s = rev (lstrip (map rev space_encodings) (rev s))"

text \<open>\<open>strings.TrimSpace\<close>.\<close>

definition trim_space :: "string \<Rightarrow> string" where
  "trim_space s = trim_right (trim_left s)"

definition unstrippable :: "string list \<Rightarrow> string \<Rightarrow> bool" where
  "unstrippable ps s \<longleftrightarrow> (\<forall>p \<in> set ps. p \<noteq> [] \<longrightarrow> \<not> starts_with p s)"

lemma unstrippable_find:
  "unstrippable ps s \<longleftrightarrow> find (\<lambda>p. p \<noteq> [] \<and> starts_with p s) ps = None"
  by (auto simp: unstrippable_def find_None_iff)

lemma lstrip_id: "unstrippable ps s \<Longrightarrow> lstrip ps s = s"
  by (subst lstrip.simps) (simp add: unstrippable_find)

lemma unstrippable_lstrip: "unstrippable ps (lstrip ps s)"
proof (induction ps s rule: lstrip.induct)
  case (1 ps s)
  show ?case
  proof (cases "find (\<lambda>p. p \<noteq> [] \<and> starts_with p s) ps")
    case None
    then show ?thesis by (simp add: lstrip_id unstrippable_find)
  next
    case (Some p)
    then show ?thesis using "1.IH" by (subst lstrip.simps) simp
  qed
qed

lemma lstrip_suffix: "\<exists>t. s = t @ lstrip ps s"
proof (induction ps s rule: lstrip.induct)
  case (1 ps s)
  show ?case
  proof (cases "find (\<lambda>p. p \<noteq> [] \<and> starts_with p s) ps")
    case None
    then show ?thesis by (simp add: lstrip_id unstrippable_find)
  next
    case (Some p)
    with "1.IH" obtain t where "drop (length p) s = t @ lstrip ps (drop (length p) s)" by blast
    moreover have "lstrip ps s = lstrip ps (drop (length p) s)"
      using Some by (subst lstrip.simps) simp
    ultimately have "s = (take (length p) s @ t) @ lstrip ps s"
      by (metis append.assoc append_take_drop_id)
    then show ?thesis by blast
  qed
qed

lemma unstrippable_prefix: "unstrippable ps (s @ t) \<Longrightarrow> unstrippable ps s"
  by (auto simp: unstrippable_def starts_with_def)

lemma trim_space_fixed:
  "trim_space s = s \<longleftrightarrow>
     unstrippable space_encodings s \<and> unstrippable (map rev space_encodings) (rev s)"
  (is "_ \<longleftrightarrow> ?clean")
proof
  assume fixed: "trim_space s = s"
  obtain t where t: "rev (trim_left s) = t @ rev (trim_space s)"
    using lstrip_suffix [of "rev (trim_left s)"] by (auto simp: trim_space_def trim_right_def)
  have "trim_left s = trim_space s @ rev t"
    using arg_cong [OF t, of rev] by simp
  moreover have "unstrippable space_encodings (trim_left s)"
    by (simp add: trim_left_def unstrippable_lstrip)
  ultimately have "unstrippable space_encodings s"
    using fixed by (metis unstrippable_prefix)
  moreover have "unstrippable (map rev space_encodings) (rev (trim_space s))"
    by (simp add: trim_space_def trim_right_def unstrippable_lstrip)
  ultimately show ?clean using fixed by simp
next
  assume ?clean
  then show "trim_space s = s"
    by (simp add: trim_space_def trim_left_def trim_right_def lstrip_id)
qed

lemma trim_space_idem [simp]: "trim_space (trim_space s) = trim_space s"
proof -
  obtain t where t: "rev (trim_left s) = t @ rev (trim_space s)"
    using lstrip_suffix [of "rev (trim_left s)"] by (auto simp: trim_space_def trim_right_def)
  have "trim_left s = trim_space s @ rev t"
    using arg_cong [OF t, of rev] by simp
  then have "unstrippable space_encodings (trim_space s)"
    by (metis trim_left_def unstrippable_lstrip unstrippable_prefix)
  moreover have "unstrippable (map rev space_encodings) (rev (trim_space s))"
    by (simp add: trim_space_def trim_right_def unstrippable_lstrip)
  ultimately show ?thesis using trim_space_fixed by blast
qed


section \<open>Case, splitting and searching\<close>

definition lower_ascii :: "char \<Rightarrow> char" where
  "lower_ascii c =
     (if CHR ''A'' \<le> c \<and> c \<le> CHR ''Z'' then char_of (of_char c + (32::nat)) else c)"

text \<open>
  \<open>strings.ToLower\<close>, up to the runes outside ASCII whose lower case is outside ASCII
  too: those are left as they are. Two runes do map into ASCII, U+212A (Kelvin sign) to
  \<open>k\<close> and U+0130 (dotted capital I) to \<open>i\<close>. The caller rejects every name that
  keeps a byte outside ASCII, so the difference is not observable beyond an error text.
\<close>

fun to_lower :: "string \<Rightarrow> string" where
  "to_lower [] = []"
| "to_lower (c # cs) =
     (if starts_with [CHR 0xE2, CHR 0x84, CHR 0xAA] (c # cs) then CHR ''k'' # to_lower (drop 2 cs)
      else if starts_with [CHR 0xC4, CHR 0xB0] (c # cs) then CHR ''i'' # to_lower (drop 1 cs)
      else lower_ascii c # to_lower cs)"

text \<open>\<open>strings.Split(s, string(c))\<close> for a one-byte separator: never empty.\<close>

fun split_on :: "char \<Rightarrow> string \<Rightarrow> string list" where
  "split_on sep [] = [[]]"
| "split_on sep (c # cs) =
     (if c = sep then [] # split_on sep cs
      else (case split_on sep cs of [] \<Rightarrow> [[c]] | w # ws \<Rightarrow> (c # w) # ws))"

lemma split_on_not_Nil [simp]: "split_on sep s \<noteq> []"
  by (induction s) (auto split: list.splits)

definition trim_suffix :: "string \<Rightarrow> string \<Rightarrow> string" where
  "trim_suffix s suf =
     (if starts_with (rev suf) (rev s) then take (length s - length suf) s else s)"

fun str_contains :: "string \<Rightarrow> string \<Rightarrow> bool" where
  "str_contains [] sub = (sub = [])"
| "str_contains (c # cs) sub = (starts_with sub (c # cs) \<or> str_contains cs sub)"

definition contains_any :: "string \<Rightarrow> string \<Rightarrow> bool" where
  "contains_any s chars = list_ex (\<lambda>c. c \<in> set chars) s"

text \<open>\<open>sort.SearchStrings\<close>: the least index whose element is not below \<open>x\<close>.\<close>

function search_between :: "string list \<Rightarrow> string \<Rightarrow> nat \<Rightarrow> nat \<Rightarrow> nat" where
  "search_between a x i j =
     (if i < j then
        (let h = (i + j) div 2
         in if a ! h < x then search_between a x (h + 1) j else search_between a x i h)
      else i)"
  by pat_completeness auto
termination
  by (relation "measure (\<lambda>(a, x, i, j). j - i)") auto

declare search_between.simps [simp del]

definition search_strings :: "string list \<Rightarrow> string \<Rightarrow> nat" where
  "search_strings a x = search_between a x 0 (length a)"

text \<open>\<open>r\<close> separates the elements below \<open>x\<close> from the others.\<close>

definition splits_at :: "string list \<Rightarrow> string \<Rightarrow> nat \<Rightarrow> bool" where
  "splits_at a x r \<longleftrightarrow> r \<le> length a \<and> (\<forall>k < r. a ! k < x) \<and>
     (\<forall>k. r \<le> k \<and> k < length a \<longrightarrow> x \<le> a ! k)"

lemma sorted_below:
  assumes "sorted a" "h < length a" "a ! h < (x :: string)" "k < h + 1"
  shows "a ! k < x"
proof -
  from assms have "a ! k \<le> a ! h" by (intro sorted_nth_mono) auto
  with assms(3) show ?thesis by simp
qed

lemma sorted_above:
  assumes "sorted a" "(x :: string) \<le> a ! h" "h \<le> k" "k < length a"
  shows "x \<le> a ! k"
  using assms by (meson order_trans sorted_nth_mono)

lemma search_between_split:
  assumes "sorted a" "i \<le> j" "j \<le> length a"
    and "\<And>k. k < i \<Longrightarrow> a ! k < x"
    and "\<And>k. j \<le> k \<Longrightarrow> k < length a \<Longrightarrow> x \<le> a ! k"
  shows "splits_at a x (search_between a x i j)"
  using assms
proof (induction a x i j rule: search_between.induct)
  case (1 a x i j)
  define h where "h = (i + j) div 2"
  consider (stop) "\<not> i < j" | (less) "i < j" "a ! h < x" | (ge) "i < j" "\<not> a ! h < x" by blast
  then show ?case
  proof cases
    case stop
    then have "search_between a x i j = i" by (subst search_between.simps) simp
    then show ?thesis using stop "1.prems" by (auto simp: splits_at_def)
  next
    case less
    then have h: "i \<le> h" "h < j" by (auto simp: h_def)
    have "search_between a x i j = search_between a x (h + 1) j"
      using less by (subst search_between.simps) (simp add: h_def)
    moreover have "splits_at a x (search_between a x (h + 1) j)"
      using less(1) h_def less(2)
    proof (rule "1.IH"(1))
      show "a ! k < x" if "k < h + 1" for k
        using sorted_below [of a h x k] "1.prems"(1,3) h less(2) that by simp
    qed (use "1.prems" h in auto)
    ultimately show ?thesis by simp
  next
    case ge
    then have h: "i \<le> h" "h < j" by (auto simp: h_def)
    have "search_between a x i j = search_between a x i h"
      using ge by (subst search_between.simps) (simp add: h_def)
    moreover have "splits_at a x (search_between a x i h)"
      using ge(1) h_def ge(2)
    proof (rule "1.IH"(2))
      show "x \<le> a ! k" if "h \<le> k" "k < length a" for k
        using sorted_above [of a x h k] "1.prems"(1) ge(2) that by (simp add: not_less)
    qed (use "1.prems" h in auto)
    ultimately show ?thesis by simp
  qed
qed

lemma search_strings_split: "sorted a \<Longrightarrow> splits_at a x (search_strings a x)"
  unfolding search_strings_def by (rule search_between_split) auto

section \<open>Integers\<close>

definition digit_value :: "char \<Rightarrow> int option" where
  "digit_value c =
     (if CHR ''0'' \<le> c \<and> c \<le> CHR ''9'' then Some (of_char c - 48) else None)"

fun digits_value :: "int \<Rightarrow> string \<Rightarrow> int option" where
  "digits_value acc [] = Some acc"
| "digits_value acc (c # cs) =
     (case digit_value c of None \<Rightarrow> None | Some d \<Rightarrow> digits_value (10 * acc + d) cs)"

definition max_int64 :: int where "max_int64 = 9223372036854775807"
definition min_int64 :: int where "min_int64 = -9223372036854775808"

text \<open>\<open>strconv.Atoi\<close> on a 64-bit platform: \<open>None\<close> is a syntax or range error.\<close>

definition atoi :: "string \<Rightarrow> int option" where
  "atoi s =
     (let neg = starts_with ''-'' s;
          ds = (if neg \<or> starts_with ''+'' s then tl s else s)
      in if ds = [] then None
         else (case digits_value 0 ds of
                 None \<Rightarrow> None
               | Some v \<Rightarrow>
                   (let w = (if neg then - v else v)
                    in if min_int64 \<le> w \<and> w \<le> max_int64 then Some w else None)))"

lemma atoi_range: "atoi s = Some v \<Longrightarrow> min_int64 \<le> v \<and> v \<le> max_int64"
  by (auto simp: atoi_def Let_def split: if_splits option.splits)

section \<open>Decimal output\<close>

text \<open>\<open>%d\<close> of a number that is not negative.\<close>

definition digit_char :: "nat \<Rightarrow> char" where
  "digit_char d = char_of (48 + d)"

fun show_nat :: "nat \<Rightarrow> string" where
  "show_nat n = (if n < 10 then [digit_char n] else show_nat (n div 10) @ [digit_char (n mod 10)])"

declare show_nat.simps [simp del]

lemma digit_value_char:
  assumes "d < 10"
  shows "digit_value (digit_char d) = Some (int d)"
proof -
  have "(of_char (digit_char d) :: int) = int (of_char (digit_char d))"
    by (cases "digit_char d") (simp add: of_char_def)
  also have "\<dots> = int ((48 + d) mod 256)" unfolding digit_char_def of_char_of ..
  also have "\<dots> = 48 + int d" using assms by simp
  finally show ?thesis
    using assms by (simp add: digit_value_def digit_char_def less_eq_char_def of_char_of)
qed

lemma digits_value_append:
  "digits_value acc (xs @ ys) =
     (case digits_value acc xs of None \<Rightarrow> None | Some v \<Rightarrow> digits_value v ys)"
  by (induction xs arbitrary: acc) (auto split: option.splits)

lemma digits_value_show: "digits_value 0 (show_nat n) = Some (int n)"
proof (induction n rule: show_nat.induct)
  case (1 n)
  show ?case
  proof (cases "n < 10")
    case True
    then show ?thesis by (simp add: show_nat.simps [of n] digit_value_char)
  next
    case False
    then have "digits_value 0 (show_nat n) = Some (10 * int (n div 10) + int (n mod 10))"
      using 1 by (simp add: show_nat.simps [of n] digits_value_append digit_value_char)
    also have "10 * int (n div 10) + int (n mod 10) = int n"
      by (metis mult.commute of_nat_add of_nat_mult of_nat_numeral div_mult_mod_eq)
    finally show ?thesis .
  qed
qed

lemma show_nat_inject: "show_nat m = show_nat n \<longleftrightarrow> m = n"
  by (metis digits_value_show of_nat_eq_iff option.inject)

section \<open>Base64\<close>

definition b64_alphabet :: string where
  "b64_alphabet = ''ABCDEFGHIJKLMNOPQRSTUVWXYZabcdefghijklmnopqrstuvwxyz0123456789+/''"

definition b64_char :: "nat \<Rightarrow> char" where
  "b64_char n = b64_alphabet ! n"

fun b64_groups :: "nat list \<Rightarrow> string" where
  "b64_groups [] = []"
| "b64_groups [a] = [b64_char (a div 4), b64_char (a mod 4 * 16), CHR ''='', CHR ''='']"
| "b64_groups [a, b] =
     [b64_char (a div 4), b64_char (a mod 4 * 16 + b div 16), b64_char (b mod 16 * 4), CHR ''='']"
| "b64_groups (a # b # c # rest) =
     b64_char (a div 4) # b64_char (a mod 4 * 16 + b div 16) #
     b64_char (b mod 16 * 4 + c div 64) # b64_char (c mod 64) # b64_groups rest"

text \<open>\<open>base64.StdEncoding.EncodeToString\<close>.\<close>

definition base64_encode :: "string \<Rightarrow> string" where
  "base64_encode s = b64_groups (map of_char s)"

text \<open>The decoding a registry client applies; the reference the encoder is checked against.\<close>

definition b64_value :: "char \<Rightarrow> nat" where
  "b64_value c = length (takeWhile (\<lambda>x. x \<noteq> c) b64_alphabet)"

fun b64_ungroup :: "string \<Rightarrow> nat list" where
  "b64_ungroup (w # x # y # z # rest) =
     (let a = b64_value w * 4 + b64_value x div 16;
          b = b64_value x mod 16 * 16 + b64_value y div 4;
          c = b64_value y mod 4 * 64 + b64_value z
      in if z = CHR ''='' then (if y = CHR ''='' then [a] else [a, b])
         else a # b # c # b64_ungroup rest)"
| "b64_ungroup _ = []"

definition base64_decode :: "string \<Rightarrow> string" where
  "base64_decode s = map char_of (b64_ungroup s)"

lemma takeWhile_neq_nth:
  "distinct xs \<Longrightarrow> n < length xs \<Longrightarrow> length (takeWhile (\<lambda>x. x \<noteq> xs ! n) xs) = n"
proof (induction xs arbitrary: n)
  case (Cons x xs)
  then show ?case by (cases n) (auto simp: nth_mem)
qed simp

lemma b64_alphabet_facts:
  "distinct b64_alphabet" "length b64_alphabet = 64" "CHR ''='' \<notin> set b64_alphabet"
  by (simp_all add: b64_alphabet_def)

lemma b64_value_char [simp]: "n < 64 \<Longrightarrow> b64_value (b64_char n) = n"
  using takeWhile_neq_nth [OF b64_alphabet_facts(1), of n] b64_alphabet_facts(2)
  by (simp add: b64_value_def b64_char_def)

lemma b64_char_pad [simp]: "n < 64 \<Longrightarrow> b64_char n \<noteq> CHR ''=''"
  using b64_alphabet_facts(2,3) nth_mem [of n b64_alphabet] by (metis b64_char_def)

lemma b64_ungroup_groups: "\<forall>b \<in> set bs. b < 256 \<Longrightarrow> b64_ungroup (b64_groups bs) = bs"
proof (induction bs rule: b64_groups.induct)
  case (2 a)
  then have "a div 4 < 64" "a mod 4 * 16 < 64" by auto
  then show ?case by (simp add: Let_def)
next
  case (3 a b)
  then have "a div 4 < 64" "a mod 4 * 16 + b div 16 < 64" "b mod 16 * 4 < 64" "b div 16 < 16"
    by auto
  then show ?case by (simp add: Let_def)
next
  case (4 a b c rest)
  then have lt: "a div 4 < 64" "b div 16 < 16" "c div 64 < 4" by auto
  then have "a mod 4 * 16 + b div 16 < 64" "b mod 16 * 4 + c div 64 < 64" "c mod 64 < 64"
    by (auto simp: mult.commute intro: le_less_trans)
  with lt 4 show ?case by (simp add: Let_def)
qed simp

lemma base64_roundtrip [simp]: "base64_decode (base64_encode s) = s"
proof -
  have "b64_ungroup (b64_groups (map of_char s)) = map of_char s"
    by (rule b64_ungroup_groups) auto
  then show ?thesis
    by (simp add: base64_decode_def base64_encode_def comp_def)
qed

lemma base64_encode_inject [simp]: "base64_encode s = base64_encode t \<longleftrightarrow> s = t"
  by (metis base64_roundtrip)

end
