(* ===== verification/RuntimeConfig.thy ===== *)
theory RuntimeConfig
  imports GoStrings
begin

text \<open>
  \<open>internal/config/runtime.go\<close>: the optional process tuning of a ConfigMap and its
  parser. A \<open>float64\<close> is a NaN, an infinity or the rational number it stands for;
  the sign of zero is not kept, no operation here observes it.
  \<open>strconv.ParseFloat\<close> is an argument of the parser: the statements hold for every
  conversion of text to \<open>float64\<close>.
\<close>

section \<open>64-bit floating point values\<close>

datatype float64 = FNaN | FInf bool | Fin rat

fun f_eq :: "float64 \<Rightarrow> float64 \<Rightarrow> bool" where
  "f_eq FNaN _ = False"
| "f_eq _ FNaN = False"
| "f_eq x y = (x = y)"

fun f_less :: "float64 \<Rightarrow> float64 \<Rightarrow> bool" where
  "f_less FNaN _ = False"
| "f_less _ FNaN = False"
| "f_less (FInf s) y = (\<not> s \<and> y \<noteq> FInf False)"
| "f_less x (FInf s) = s"
| "f_less (Fin a) (Fin b) = (a < b)"

definition f_zero :: float64 where "f_zero = Fin 0"

definition f_le :: "float64 \<Rightarrow> float64 \<Rightarrow> bool" where
  "f_le x y \<longleftrightarrow> f_less x y \<or> f_eq x y"

definition max_float32 :: rat where
  "max_float32 = 340282346638528859811704183484516925440"

text \<open>
  Conversion to \<open>float32\<close> rounds to nearest, ties to even: the result is zero exactly
  up to half of the least subnormal, \<open>2^-149\<close>.
\<close>

definition half_min_float32 :: rat where
  "half_min_float32 = 1 / 1427247692705959881058285969449495136382746624"

lemma half_min_float32_power: "half_min_float32 = 1 / 2 ^ 150"
  by (simp add: half_min_float32_def)

lemma max_float32_power: "max_float32 = (2 ^ 24 - 1) * 2 ^ 104"
  by (simp add: max_float32_def)

fun float32_is_zero :: "float64 \<Rightarrow> bool" where
  "float32_is_zero (Fin a) = (\<bar>a\<bar> \<le> half_min_float32)"
| "float32_is_zero _ = False"

definition is_nan :: "float64 \<Rightarrow> bool" where "is_nan x \<longleftrightarrow> x = FNaN"
definition is_inf :: "float64 \<Rightarrow> bool" where "is_inf x \<longleftrightarrow> x = FInf True \<or> x = FInf False"

section \<open>Runtime configuration\<close>

record runtime_configuration =
  rt_qps :: float64
  rt_burst :: int
  rt_workers :: int

definition empty_runtime :: runtime_configuration where
  "empty_runtime = \<lparr>rt_qps = f_zero, rt_burst = 0, rt_workers = 0\<rparr>"

text \<open>Go's \<open>==\<close> on the struct: field by field, with float equality.\<close>

definition runtime_eq :: "runtime_configuration \<Rightarrow> runtime_configuration \<Rightarrow> bool" where
  "runtime_eq a b \<longleftrightarrow>
     f_eq (rt_qps a) (rt_qps b) \<and> rt_burst a = rt_burst b \<and> rt_workers a = rt_workers b"

definition kube_api_qps_key :: string where "kube_api_qps_key = ''kubeAPIQPS''"
definition kube_api_burst_key :: string where "kube_api_burst_key = ''kubeAPIBurst''"
definition workers_key :: string where "workers_key = ''workers''"

definition default_kube_api_qps :: float64 where "default_kube_api_qps = Fin 25"
definition default_kube_api_burst :: int where "default_kube_api_burst = 50"
definition default_workers :: int where "default_workers = 8"

definition validate_qps :: "float64 \<Rightarrow> bool" where
  "validate_qps qps \<longleftrightarrow>
     \<not> (f_le qps f_zero \<or> f_less (Fin max_float32) qps \<or> is_nan qps \<or> is_inf qps
        \<or> float32_is_zero qps)"

datatype runtime_error = InvalidQPS | InvalidPositiveInteger string

definition parse_positive :: "string \<Rightarrow> (string, string) gomap \<Rightarrow> (runtime_error, int) result" where
  "parse_positive key data =
     (case gm_get data key of
        None \<Rightarrow> Inr 0
      | Some raw \<Rightarrow>
          (case atoi (trim_space raw) of
             None \<Rightarrow> Inl (InvalidPositiveInteger key)
           | Some value \<Rightarrow>
               if value < 1 then Inl (InvalidPositiveInteger key) else Inr value))"

definition parse_qps ::
  "(string \<Rightarrow> float64 option) \<Rightarrow> (string, string) gomap \<Rightarrow> (runtime_error, float64) result" where
  "parse_qps parse_float data =
     (case gm_get data kube_api_qps_key of
        None \<Rightarrow> Inr f_zero
      | Some raw \<Rightarrow>
          (case parse_float (trim_space raw) of
             None \<Rightarrow> Inl InvalidQPS
           | Some qps \<Rightarrow> if validate_qps qps then Inr qps else Inl InvalidQPS))"

text \<open>
  The source ranges over a two-entry map for the burst and the workers; the order only
  decides which of two invalid entries is named in the error.
\<close>

definition parse_runtime ::
  "(string \<Rightarrow> float64 option) \<Rightarrow> (string, string) gomap
     \<Rightarrow> (runtime_error, runtime_configuration) result" where
  "parse_runtime parse_float data =
     bind_result (parse_qps parse_float data) (\<lambda>qps.
     bind_result (parse_positive kube_api_burst_key data) (\<lambda>burst.
     bind_result (parse_positive workers_key data) (\<lambda>workers.
       Inr \<lparr>rt_qps = qps, rt_burst = burst, rt_workers = workers\<rparr>)))"

lemma validate_qps_iff:
  "validate_qps qps \<longleftrightarrow>
     (\<exists>a. qps = Fin a \<and> half_min_float32 < a \<and> a \<le> max_float32)"
proof (cases qps)
  case (Fin a)
  have pos: "0 < half_min_float32" by (simp add: half_min_float32_def)
  then show ?thesis
    using Fin by (auto simp: validate_qps_def f_le_def f_zero_def is_nan_def is_inf_def)
qed (auto simp: validate_qps_def f_le_def f_zero_def is_nan_def is_inf_def)

text \<open>What the rest of the program may assume of parsed tuning.\<close>

definition runtime_wf :: "runtime_configuration \<Rightarrow> bool" where
  "runtime_wf r \<longleftrightarrow>
     (rt_qps r = f_zero \<or> validate_qps (rt_qps r)) \<and>
     0 \<le> rt_burst r \<and> rt_burst r \<le> max_int64 \<and>
     0 \<le> rt_workers r \<and> rt_workers r \<le> max_int64"

lemma parse_positive_range:
  "parse_positive key data = Inr v \<Longrightarrow> 0 \<le> v \<and> v \<le> max_int64"
  using atoi_range
  by (fastforce simp: parse_positive_def max_int64_def split: option.splits if_splits)

lemma parse_positive_set:
  "parse_positive key data = Inr v \<Longrightarrow> v = 0 \<longleftrightarrow> gm_get data key = None"
  by (auto simp: parse_positive_def split: option.splits if_splits)

lemma parse_runtime_wf: "parse_runtime pf data = Inr r \<Longrightarrow> runtime_wf r"
  using parse_positive_range
  by (fastforce simp: parse_runtime_def runtime_wf_def parse_qps_def
      split: option.splits if_splits)

lemma runtime_eq_wf: "runtime_wf a \<Longrightarrow> runtime_eq a b \<longleftrightarrow> a = b"
  by (cases "rt_qps a"; cases "rt_qps b")
     (auto simp: runtime_wf_def runtime_eq_def validate_qps_iff f_zero_def)

end
