(* ===== verification/ConfigTypes.thy ===== *)
theory ConfigTypes
  imports RuntimeConfig
begin

text \<open>
  \<open>internal/config/types.go\<close>: registry identities and configurations, name
  selectors and configuration snapshots. A slice is a list; a nil slice and an empty one
  are both \<open>[]\<close>, as they are after \<open>Clone\<close>, which every comparison of
  the store follows.
\<close>

definition namespace_key :: string where "namespace_key = ''namespace''"
definition exclude_namespace_key :: string where "exclude_namespace_key = ''excludeNamespace''"
definition service_account_key :: string where "service_account_key = ''serviceaccount''"
definition registries_key :: string where "registries_key = ''registries''"
definition wildcard :: string where "wildcard = ''*''"

datatype registry_key = RegistryKey (key_region: string) (key_instance: string)

definition key_string :: "registry_key \<Rightarrow> string" where
  "key_string k = key_region k @ ''/'' @ key_instance k"

record registry_config =
  rc_region :: string
  rc_instance :: string
  rc_access_key_id :: string
  rc_access_key_secret :: string
  rc_domains :: "string list"

definition config_key :: "registry_config \<Rightarrow> registry_key" where
  "config_key r = RegistryKey (rc_region r) (rc_instance r)"

record name_selector =
  sel_match_all :: bool
  sel_names :: "string list"

definition contains_sorted :: "string list \<Rightarrow> string \<Rightarrow> bool" where
  "contains_sorted values value =
     (let index = search_strings values value
      in index < length values \<and> values ! index = value)"

definition selector_matches :: "name_selector \<Rightarrow> string \<Rightarrow> bool" where
  "selector_matches s name = (if sel_match_all s then True else contains_sorted (sel_names s) name)"

record configuration_snapshot =
  cs_generation :: "64 word"
  cs_namespaces :: name_selector
  cs_excluded :: "string list"
  cs_accounts :: name_selector
  cs_registries :: "(registry_key, registry_config) gomap"
  cs_runtime :: runtime_configuration

definition empty_snapshot :: configuration_snapshot where
  "empty_snapshot =
     \<lparr>cs_generation = 0, cs_namespaces = \<lparr>sel_match_all = False, sel_names = []\<rparr>,
      cs_excluded = [], cs_accounts = \<lparr>sel_match_all = False, sel_names = []\<rparr>,
      cs_registries = [], cs_runtime = empty_runtime\<rparr>"

definition business_equal :: "configuration_snapshot \<Rightarrow> configuration_snapshot \<Rightarrow> bool" where
  "business_equal s t \<longleftrightarrow>
     cs_namespaces s = cs_namespaces t \<and> cs_excluded s = cs_excluded t \<and>
     cs_accounts s = cs_accounts t \<and> gm_equiv (cs_registries s) (cs_registries t)"

definition snapshot_equal :: "configuration_snapshot \<Rightarrow> configuration_snapshot \<Rightarrow> bool" where
  "snapshot_equal s t \<longleftrightarrow> runtime_eq (cs_runtime s) (cs_runtime t) \<and> business_equal s t"

definition matches_namespace :: "configuration_snapshot \<Rightarrow> string \<Rightarrow> bool" where
  "matches_namespace s name \<longleftrightarrow>
     selector_matches (cs_namespaces s) name \<and> \<not> contains_sorted (cs_excluded s) name"

definition clone_selector :: "name_selector \<Rightarrow> name_selector" where
  "clone_selector s = \<lparr>sel_match_all = sel_match_all s, sel_names = sel_names s\<rparr>"

definition clone_registries ::
  "(registry_key, registry_config) gomap \<Rightarrow> (registry_key, registry_config) gomap" where
  "clone_registries source = map (\<lambda>(key, r). (key, r\<lparr>rc_domains := rc_domains r\<rparr>)) source"

definition clone_snapshot :: "configuration_snapshot \<Rightarrow> configuration_snapshot" where
  "clone_snapshot s =
     \<lparr>cs_generation = cs_generation s,
      cs_namespaces = clone_selector (cs_namespaces s),
      cs_excluded = cs_excluded s,
      cs_accounts = clone_selector (cs_accounts s),
      cs_registries = clone_registries (cs_registries s),
      cs_runtime = cs_runtime s\<rparr>"

text \<open>A clone has the value of its source; that it shares no memory is outside this model.\<close>

lemma clone_registries_id [simp]: "clone_registries m = m"
  by (simp add: clone_registries_def case_prod_beta')

lemma clone_snapshot_id [simp]: "clone_snapshot s = s"
  by (simp add: clone_snapshot_def clone_selector_def)

lemma contains_sorted_iff:
  assumes "sorted values"
  shows "contains_sorted values v \<longleftrightarrow> v \<in> set values"
proof -
  let ?i = "search_strings values v"
  have split: "splits_at values v ?i" by (rule search_strings_split [OF assms])
  show ?thesis
  proof
    assume "v \<in> set values"
    then obtain k where k: "k < length values" "values ! k = v" by (auto simp: in_set_conv_nth)
    then have "?i \<le> k" using split by (meson less_irrefl not_less splits_at_def)
    then have "values ! ?i \<le> v" using assms k by (metis sorted_nth_mono)
    moreover have "v \<le> values ! ?i"
      using split \<open>?i \<le> k\<close> k(1) by (auto simp: splits_at_def)
    ultimately show "contains_sorted values v"
      using \<open>?i \<le> k\<close> k(1) by (simp add: contains_sorted_def Let_def)
  qed (metis contains_sorted_def nth_mem)
qed

lemma business_equal_refl [simp]: "business_equal s s"
  by (simp add: business_equal_def)

lemma business_equal_sym: "business_equal s t \<longleftrightarrow> business_equal t s"
  by (auto simp: business_equal_def gm_equiv_iff)

lemma business_equal_trans: "business_equal s t \<Longrightarrow> business_equal t u \<Longrightarrow> business_equal s u"
  by (auto simp: business_equal_def gm_equiv_iff)

lemma business_equal_matches: "business_equal s t \<Longrightarrow> matches_namespace s n = matches_namespace t n"
  by (simp add: business_equal_def matches_namespace_def)

lemma key_string_inject:
  assumes "CHR ''/'' \<notin> set (key_region k)" "CHR ''/'' \<notin> set (key_region k')"
    and eq: "key_string k = key_string k'"
  shows "k = k'"
proof -
  have split: "takeWhile (\<lambda>c. c \<noteq> CHR ''/'') (key_string x) = key_region x"
    "drop (length (key_region x) + 1) (key_string x) = key_instance x"
    if "CHR ''/'' \<notin> set (key_region x)" for x
    using that by (auto simp: key_string_def takeWhile_tail)
  have "key_region k = key_region k'" using split(1) assms by metis
  moreover from this have "key_instance k = key_instance k'" using split(2) assms by metis
  ultimately show ?thesis by (simp add: registry_key.expand)
qed

end
