(* ===== verification/ConfigParser.thy ===== *)
theory ConfigParser
  imports ConfigTypes
begin

text \<open>
  \<open>internal/config/parser.go\<close>: validation and normalisation of the ConfigMap into a
  snapshot. The name validators of \<open>k8s.io/apimachinery\<close>, the strict YAML decoder and
  \<open>strconv.ParseFloat\<close> are the fields of \<open>parse_env\<close>; a validator returns the
  list of problems it found, a decoder \<open>None\<close> when it fails.
\<close>

record parse_env =
  dns_label :: "string \<Rightarrow> string list"
  dns_subdomain :: "string \<Rightarrow> string list"
  yaml_registries :: "string \<Rightarrow> registry_config list option"
  parse_float :: "string \<Rightarrow> float64 option"

datatype registry_error =
    RegionEmpty | InstanceEmpty | AccessKeyIDEmpty | AccessKeySecretEmpty
  | AccessKeyIDSpace | AccessKeySecretSpace | DomainsEmpty
  | DomainEmpty | DomainNotBare | DomainInvalid

datatype config_error =
    UnsupportedKey string
  | SelectorEmpty string
  | NameEmpty string
  | NameInvalid string string
  | WildcardCombined string
  | RegistriesEmpty | RegistriesSyntax | RegistriesNone
  | RegistryAt nat registry_error
  | ConflictingCredentials registry_key
  | DomainConflict string registry_key registry_key
  | RuntimeInvalid runtime_error

section \<open>Name lists\<close>

fun unique_onto :: "string list \<Rightarrow> string list \<Rightarrow> string list" where
  "unique_onto result [] = result"
| "unique_onto result (v # vs) =
     (if v \<in> set result then unique_onto result vs else unique_onto (result @ [v]) vs)"

definition sorted_unique :: "string list \<Rightarrow> string list" where
  "sorted_unique values = sort (unique_onto [] values)"

definition parse_name ::
  "string \<Rightarrow> (string \<Rightarrow> string list) \<Rightarrow> bool \<Rightarrow> string \<Rightarrow> (config_error, string) result" where
  "parse_name field validate allow_wildcard part =
     (let name = trim_space part
      in if name = [] then Inl (NameEmpty field)
         else if (name \<noteq> wildcard \<or> \<not> allow_wildcard) \<and> validate name \<noteq> []
           then Inl (NameInvalid field name)
         else Inr name)"

definition parse_name_list ::
  "string \<Rightarrow> string \<Rightarrow> (string \<Rightarrow> string list) \<Rightarrow> bool \<Rightarrow> (config_error, string list) result" where
  "parse_name_list raw field validate allow_wildcard =
     bind_result (map_result (parse_name field validate allow_wildcard) (split_on CHR '','' raw))
       (\<lambda>values. Inr (sorted_unique values))"

definition parse_name_selector ::
  "string \<Rightarrow> string \<Rightarrow> (string \<Rightarrow> string list) \<Rightarrow> (config_error, name_selector) result" where
  "parse_name_selector raw0 field validate =
     (let raw = trim_space raw0
      in if raw = [] then Inl (SelectorEmpty field)
         else bind_result (parse_name_list raw field validate True) (\<lambda>values.
           if contains_sorted values wildcard then
             (if length values \<noteq> 1 then Inl (WildcardCombined field)
              else Inr \<lparr>sel_match_all = True, sel_names = []\<rparr>)
           else Inr \<lparr>sel_match_all = False, sel_names = values\<rparr>))"

definition parse_optional_name_list ::
  "string \<Rightarrow> string \<Rightarrow> (string \<Rightarrow> string list) \<Rightarrow> (config_error, string list) result" where
  "parse_optional_name_list raw field validate =
     (if trim_space raw = [] then Inr [] else parse_name_list raw field validate False)"

lemma set_unique_onto: "set (unique_onto r xs) = set r \<union> set xs"
  by (induction r xs rule: unique_onto.induct) auto

lemma distinct_unique_onto: "distinct r \<Longrightarrow> distinct (unique_onto r xs)"
  by (induction r xs rule: unique_onto.induct) auto

lemma sorted_unique_facts [simp]:
  "set (sorted_unique xs) = set xs" "sorted (sorted_unique xs)" "distinct (sorted_unique xs)"
  by (simp_all add: sorted_unique_def set_unique_onto distinct_unique_onto)

lemma sorted_unique_eq: "sorted_unique xs = sorted_list_of_set (set xs)"
  by (rule sorted_distinct_set_unique) simp_all

lemma sorted_unique_Nil [simp]: "sorted_unique xs = [] \<longleftrightarrow> xs = []"
  using sorted_unique_facts(1) [of xs] by (metis set_empty)

lemma parse_name_list_Inr:
  "parse_name_list raw field validate aw = Inr values \<longleftrightarrow>
     (\<exists>names. map_result (parse_name field validate aw) (split_on CHR '','' raw) = Inr names
       \<and> values = sorted_unique names)"
  by (auto simp: parse_name_list_def)

lemma parse_name_Inr:
  "parse_name field validate aw part = Inr name \<longleftrightarrow>
     name = trim_space part \<and> name \<noteq> [] \<and> (name = wildcard \<and> aw \<or> validate name = [])"
  by (auto simp: parse_name_def Let_def)

lemma parse_name_list_facts:
  assumes "parse_name_list raw field validate aw = Inr values"
  shows "sorted values" "distinct values" "values \<noteq> []"
    and "set values = trim_space ` set (split_on CHR '','' raw)"
    and "v \<in> set values \<Longrightarrow> v \<noteq> [] \<and> trim_space v = v \<and> (v = wildcard \<and> aw \<or> validate v = [])"
proof -
  obtain names where names:
    "map_result (parse_name field validate aw) (split_on CHR '','' raw) = Inr names"
    and v: "values = sorted_unique names"
    using assms by (auto simp: parse_name_list_Inr)
  show "sorted values" "distinct values" by (simp_all add: v)
  have mem: "y \<in> set values \<longleftrightarrow>
      (\<exists>x \<in> set (split_on CHR '','' raw). parse_name field validate aw x = Inr y)" for y
    using map_result_set [OF names] by (simp add: v)
  have ok: "\<exists>y. parse_name field validate aw x = Inr y"
    if "x \<in> set (split_on CHR '','' raw)" for x
    using map_result_ok [OF names that] .
  show "values \<noteq> []" using names by (auto simp: v)
  show "set values = trim_space ` set (split_on CHR '','' raw)"
  proof (rule set_eqI)
    show "y \<in> set values \<longleftrightarrow> y \<in> trim_space ` set (split_on CHR '','' raw)" for y
      unfolding mem using ok by (force simp: parse_name_Inr)
  qed
  show "v \<in> set values \<Longrightarrow>
      v \<noteq> [] \<and> trim_space v = v \<and> (v = wildcard \<and> aw \<or> validate v = [])"
    unfolding mem parse_name_Inr using trim_space_idem by metis
qed

section \<open>Registries\<close>

definition normalize_domain ::
  "(string \<Rightarrow> string list) \<Rightarrow> string \<Rightarrow> (registry_error, string) result" where
  "normalize_domain validate raw =
     (let domain = trim_suffix (to_lower (trim_space raw)) ''.''
      in if domain = [] then Inl DomainEmpty
         else if str_contains domain ''://'' \<or> contains_any domain ''/?#@:'' then Inl DomainNotBare
         else if validate domain \<noteq> [] then Inl DomainInvalid
         else Inr domain)"

definition normalize_registry ::
  "(string \<Rightarrow> string list) \<Rightarrow> registry_config \<Rightarrow> (registry_error, registry_config) result" where
  "normalize_registry validate registry0 =
     (let registry = registry0\<lparr>rc_region := trim_space (rc_region registry0),
                               rc_instance := trim_space (rc_instance registry0)\<rparr>
      in if rc_region registry = [] then Inl RegionEmpty
         else if rc_instance registry = [] then Inl InstanceEmpty
         else if trim_space (rc_access_key_id registry) = [] then Inl AccessKeyIDEmpty
         else if trim_space (rc_access_key_secret registry) = [] then Inl AccessKeySecretEmpty
         else if rc_access_key_id registry \<noteq> trim_space (rc_access_key_id registry)
           then Inl AccessKeyIDSpace
         else if rc_access_key_secret registry \<noteq> trim_space (rc_access_key_secret registry)
           then Inl AccessKeySecretSpace
         else if rc_domains registry = [] then Inl DomainsEmpty
         else bind_result (map_result (normalize_domain validate) (rc_domains registry))
           (\<lambda>domains. Inr (registry\<lparr>rc_domains := sorted_unique domains\<rparr>)))"

type_synonym registry_map = "(registry_key, registry_config) gomap"
type_synonym domain_owners = "(string, registry_key) gomap"

text \<open>The inner loop of \<open>parseRegistries\<close>: each domain is claimed for \<open>key\<close>.\<close>

fun claim_domains ::
  "registry_key \<Rightarrow> domain_owners \<Rightarrow> string list \<Rightarrow> (config_error, domain_owners) result" where
  "claim_domains key owners [] = Inr owners"
| "claim_domains key owners (domain # rest) =
     (case gm_get owners domain of
        Some owner \<Rightarrow>
          if owner \<noteq> key then Inl (DomainConflict domain owner key)
          else claim_domains key (gm_put domain key owners) rest
      | None \<Rightarrow> claim_domains key (gm_put domain key owners) rest)"

text \<open>The outer loop's body after normalisation.\<close>

definition merge_registry ::
  "registry_map \<Rightarrow> domain_owners \<Rightarrow> registry_config
     \<Rightarrow> (config_error, registry_map \<times> domain_owners) result" where
  "merge_registry registries owners normalized =
     (let key = config_key normalized
      in bind_result
        (case gm_get registries key of
           Some current \<Rightarrow>
             if rc_access_key_id current \<noteq> rc_access_key_id normalized
                \<or> rc_access_key_secret current \<noteq> rc_access_key_secret normalized
             then Inl (ConflictingCredentials key)
             else Inr (normalized\<lparr>rc_domains :=
                    sorted_unique (rc_domains current @ rc_domains normalized)\<rparr>)
         | None \<Rightarrow> Inr normalized)
        (\<lambda>merged. bind_result (claim_domains key owners (rc_domains merged))
          (\<lambda>owners'. Inr (gm_put key merged registries, owners'))))"

fun merge_registries ::
  "(string \<Rightarrow> string list) \<Rightarrow> nat \<Rightarrow> registry_map \<Rightarrow> domain_owners \<Rightarrow> registry_config list
     \<Rightarrow> (config_error, registry_map) result" where
  "merge_registries validate index registries owners [] = Inr registries"
| "merge_registries validate index registries owners (registry # rest) =
     (case normalize_registry validate registry of
        Inl e \<Rightarrow> Inl (RegistryAt index e)
      | Inr normalized \<Rightarrow>
          bind_result (merge_registry registries owners normalized)
            (\<lambda>(registries', owners').
               merge_registries validate (Suc index) registries' owners' rest))"

definition parse_registries :: "parse_env \<Rightarrow> string \<Rightarrow> (config_error, registry_map) result" where
  "parse_registries env raw =
     (if trim_space raw = [] then Inl RegistriesEmpty
      else case yaml_registries env raw of
             None \<Rightarrow> Inl RegistriesSyntax
           | Some input \<Rightarrow>
               if input = [] then Inl RegistriesNone
               else merge_registries (dns_subdomain env) 0 [] [] input)"

section \<open>The whole ConfigMap\<close>

definition supported_keys :: "string list" where
  "supported_keys =
     [namespace_key, exclude_namespace_key, service_account_key, registries_key,
      kube_api_qps_key, kube_api_burst_key, workers_key]"

text \<open>A missing data key reads as the empty string, as in the source.\<close>

definition parse :: "parse_env \<Rightarrow> (string, string) gomap
    \<Rightarrow> (config_error, configuration_snapshot) result" where
  "parse env data =
     (case find (\<lambda>key. key \<notin> set supported_keys) (gm_keys data) of
        Some key \<Rightarrow> Inl (UnsupportedKey key)
      | None \<Rightarrow>
          bind_result (parse_name_selector (gm_get0 [] data namespace_key) ''namespace''
            (dns_label env)) (\<lambda>namespaces.
          bind_result (parse_optional_name_list (gm_get0 [] data exclude_namespace_key)
            ''excludeNamespace'' (dns_label env)) (\<lambda>excluded.
          bind_result (parse_name_selector (gm_get0 [] data service_account_key)
            ''serviceaccount'' (dns_subdomain env)) (\<lambda>accounts.
          bind_result (parse_registries env (gm_get0 [] data registries_key)) (\<lambda>registries.
          bind_result (case parse_runtime (parse_float env) data of
              Inl e \<Rightarrow> Inl (RuntimeInvalid e) | Inr r \<Rightarrow> Inr r) (\<lambda>runtime.
            Inr \<lparr>cs_generation = 0, cs_namespaces = namespaces, cs_excluded = excluded,
                 cs_accounts = accounts, cs_registries = registries,
                 cs_runtime = runtime\<rparr>))))))"

end
