(* ===== verification/ParserSpec.thy ===== *)
theory ParserSpec
  imports ConfigParser
begin

text \<open>
  What \<open>parseRegistries\<close> promises, stated without its loop: which lists of registries
  are accepted, and the map an accepted list denotes. The loop is shown to implement it,
  whatever the order of the list.
\<close>

definition same_credentials :: "registry_config \<Rightarrow> registry_config \<Rightarrow> bool" where
  "same_credentials a b \<longleftrightarrow> rc_access_key_id a = rc_access_key_id b
     \<and> rc_access_key_secret a = rc_access_key_secret b"

text \<open>One credential pair per registry, and each domain belongs to one registry.\<close>

definition compatible :: "registry_config \<Rightarrow> registry_config \<Rightarrow> bool" where
  "compatible a b \<longleftrightarrow>
     (config_key a = config_key b \<longrightarrow> same_credentials a b) \<and>
     (set (rc_domains a) \<inter> set (rc_domains b) \<noteq> {} \<longrightarrow> config_key a = config_key b)"

definition consistent :: "registry_config list \<Rightarrow> bool" where
  "consistent rs \<longleftrightarrow> (\<forall>a \<in> set rs. \<forall>b \<in> set rs. compatible a b)"

definition merged :: "registry_config list \<Rightarrow> registry_key \<Rightarrow> registry_config option" where
  "merged rs k =
     map_option (\<lambda>r. r\<lparr>rc_domains :=
         sorted_unique (concat (map rc_domains (filter (\<lambda>a. config_key a = k) rs)))\<rparr>)
       (find (\<lambda>r. config_key r = k) rs)"

definition domain_owner :: "registry_config list \<Rightarrow> string \<Rightarrow> registry_key option" where
  "domain_owner rs d = map_option config_key (find (\<lambda>r. d \<in> set (rc_domains r)) rs)"

lemma compatible_refl [simp]: "compatible a a"
  by (simp add: compatible_def same_credentials_def)

lemma compatible_sym: "compatible a b \<longleftrightarrow> compatible b a"
  by (auto simp: compatible_def same_credentials_def)

lemma consistent_snoc:
  "consistent (rs @ [n]) \<longleftrightarrow> consistent rs \<and> (\<forall>a \<in> set rs. compatible a n)"
  by (auto simp: consistent_def compatible_sym)

lemma domain_owner_None: "domain_owner rs d = None \<longleftrightarrow> (\<forall>r \<in> set rs. d \<notin> set (rc_domains r))"
  by (auto simp: domain_owner_def find_None_iff)

lemma domain_owner_Some:
  assumes "consistent rs"
  shows "domain_owner rs d = Some k \<longleftrightarrow>
     (\<exists>r \<in> set rs. d \<in> set (rc_domains r) \<and> config_key r = k)"
proof (cases "find (\<lambda>r. d \<in> set (rc_domains r)) rs")
  case None
  then have none: "domain_owner rs d = None" by (simp add: domain_owner_def)
  have "\<forall>r \<in> set rs. d \<notin> set (rc_domains r)" using none domain_owner_None by blast
  with none show ?thesis by simp
next
  case (Some r)
  then have r: "r \<in> set rs" "d \<in> set (rc_domains r)"
    by (auto simp: find_Some_iff)
  with assms have "config_key a = config_key r" if "a \<in> set rs" "d \<in> set (rc_domains a)" for a
    using that by (auto simp: consistent_def compatible_def)
  moreover have "domain_owner rs d = Some (config_key r)" using Some by (simp add: domain_owner_def)
  ultimately show ?thesis using r by (metis option.inject)
qed

lemma merged_None: "merged rs k = None \<longleftrightarrow> (\<forall>r \<in> set rs. config_key r \<noteq> k)"
  by (auto simp: merged_def find_None_iff)

lemma merged_Some:
  assumes "merged rs k = Some m"
  shows "config_key m = k" "\<exists>r \<in> set rs. config_key r = k \<and> same_credentials r m"
    and "set (rc_domains m) = (\<Union>r \<in> {r \<in> set rs. config_key r = k}. set (rc_domains r))"
    and "sorted (rc_domains m)" "distinct (rc_domains m)"
  using assms by (auto simp: merged_def find_Some_iff config_key_def same_credentials_def)

section \<open>One step of the loop\<close>

definition tracks ::
  "registry_map \<Rightarrow> domain_owners \<Rightarrow> registry_config list \<Rightarrow> bool" where
  "tracks registries owners rs \<longleftrightarrow>
     gm_get registries = merged rs \<and> gm_get owners = domain_owner rs \<and> consistent rs"

definition normal :: "registry_config \<Rightarrow> bool" where
  "normal r \<longleftrightarrow> sorted_unique (rc_domains r) = rc_domains r"

lemma claim_domains_iff:
  "claim_domains key owners ds = Inr owners' \<longleftrightarrow>
     (\<forall>d \<in> set ds. gm_get owners d = None \<or> gm_get owners d = Some key) \<and>
     owners' = fold (\<lambda>d. gm_put d key) ds owners"
  by (induction key owners ds rule: claim_domains.induct)
     (auto simp: map_laws split: option.splits if_splits)

lemma merged_snoc_same:
  assumes "merged rs k = Some current" "config_key n = k"
    and "same_credentials current n"
  shows "merged (rs @ [n]) k =
    Some (n\<lparr>rc_domains := sorted_unique (rc_domains current @ rc_domains n)\<rparr>)"
proof -
  obtain r where r: "find (\<lambda>r. config_key r = k) rs = Some r"
    and current: "current = r\<lparr>rc_domains :=
      sorted_unique (concat (map rc_domains (filter (\<lambda>a. config_key a = k) rs)))\<rparr>"
    using assms(1) by (auto simp: merged_def)
  have "config_key r = k" using r by (auto simp: find_Some_iff)
  moreover have "find (\<lambda>r. config_key r = k) (rs @ [n]) = Some r"
    using r by (simp add: find_append)
  ultimately show ?thesis
    using assms(2,3) current
    by (auto simp: merged_def sorted_unique_eq config_key_def same_credentials_def)
qed

lemma merged_snoc_other: "config_key n \<noteq> k \<Longrightarrow> merged (rs @ [n]) k = merged rs k"
  by (auto simp: merged_def find_append split: option.splits)

lemma merged_snoc_new:
  assumes "merged rs (config_key n) = None" "normal n"
  shows "merged (rs @ [n]) (config_key n) = Some n"
proof -
  have none: "find (\<lambda>r. config_key r = config_key n) rs = None"
    using assms(1) by (simp add: merged_def)
  moreover from none have "filter (\<lambda>a. config_key a = config_key n) rs = []"
    by (auto simp: find_None_iff filter_empty_conv)
  ultimately show ?thesis
    using assms(2) by (simp add: merged_def find_append normal_def)
qed

lemma domain_owner_snoc:
  "domain_owner (rs @ [n]) d =
     (case domain_owner rs d of
        Some k \<Rightarrow> Some k
      | None \<Rightarrow> if d \<in> set (rc_domains n) then Some (config_key n) else None)"
  by (auto simp: domain_owner_def find_append split: option.splits)

lemma tracks_claim:
  assumes "tracks registries owners rs"
    and same: "\<And>r. r \<in> set rs \<Longrightarrow> config_key r = config_key n \<Longrightarrow> same_credentials r n"
    and ds: "set ds = set (rc_domains n) \<union> old"
    and old: "\<And>d. d \<in> old \<Longrightarrow> gm_get owners d = Some (config_key n)"
  shows "(\<forall>d \<in> set ds. gm_get owners d = None \<or> gm_get owners d = Some (config_key n))
     \<longleftrightarrow> consistent (rs @ [n])"
    and "consistent (rs @ [n]) \<Longrightarrow>
     gm_get (fold (\<lambda>d. gm_put d (config_key n)) ds owners) = domain_owner (rs @ [n])"
proof -
  have own: "gm_get owners = domain_owner rs" and cons: "consistent rs"
    using assms(1) by (simp_all add: tracks_def)
  have claim: "gm_get owners d = None \<or> gm_get owners d = Some (config_key n) \<longleftrightarrow>
      (\<forall>r \<in> set rs. d \<in> set (rc_domains r) \<longrightarrow> config_key r = config_key n)" for d
  proof -
    have "domain_owner rs d = Some (config_key r)" if "r \<in> set rs" "d \<in> set (rc_domains r)" for r
      using domain_owner_Some [OF cons] that by blast
    moreover have "\<exists>r \<in> set rs. d \<in> set (rc_domains r)" if "domain_owner rs d \<noteq> None"
      using that unfolding domain_owner_None by simp
    ultimately show ?thesis unfolding own by force
  qed
  show iff: "(\<forall>d \<in> set ds. gm_get owners d = None \<or> gm_get owners d = Some (config_key n))
     \<longleftrightarrow> consistent (rs @ [n])"
  proof -
    have "(\<forall>d \<in> set ds. gm_get owners d = None \<or> gm_get owners d = Some (config_key n)) \<longleftrightarrow>
        (\<forall>d \<in> set (rc_domains n). gm_get owners d = None \<or> gm_get owners d = Some (config_key n))"
      using ds old by auto
    also have "\<dots> \<longleftrightarrow> (\<forall>r \<in> set rs. compatible r n)"
      unfolding claim using same by (auto simp: compatible_def)
    finally show ?thesis by (simp add: consistent_snoc cons)
  qed
  show "gm_get (fold (\<lambda>d. gm_put d (config_key n)) ds owners) = domain_owner (rs @ [n])"
    if "consistent (rs @ [n])"
  proof
    fix d
    have "gm_get owners d = None \<or> gm_get owners d = Some (config_key n)" if "d \<in> set ds"
      using iff \<open>consistent (rs @ [n])\<close> that by blast
    then show "gm_get (fold (\<lambda>d. gm_put d (config_key n)) ds owners) d = domain_owner (rs @ [n]) d"
      using ds old [of d] by (auto simp: map_laws domain_owner_snoc own split: option.splits)
  qed
qed

lemma tracks_put:
  assumes "tracks registries owners rs"
    and "\<And>r. r \<in> set rs \<Longrightarrow> config_key r = config_key n \<Longrightarrow> same_credentials r n"
    and "set ds = set (rc_domains n) \<union> old"
    and "\<And>d. d \<in> old \<Longrightarrow> gm_get owners d = Some (config_key n)"
    and m: "merged (rs @ [n]) (config_key n) = Some m"
  shows "case bind_result (claim_domains (config_key n) owners ds)
         (\<lambda>owners'. Inr (gm_put (config_key n) m registries, owners')) of
     Inl e \<Rightarrow> \<not> consistent (rs @ [n])
   | Inr (registries', owners') \<Rightarrow> tracks registries' owners' (rs @ [n])"
proof (cases "claim_domains (config_key n) owners ds")
  case (Inl e)
  then have "\<not> (\<forall>d \<in> set ds. gm_get owners d = None \<or> gm_get owners d = Some (config_key n))"
    using claim_domains_iff [of "config_key n" owners ds] by fastforce
  then show ?thesis using tracks_claim(1) [OF assms(1-4)] Inl by simp
next
  case (Inr owners')
  then have own: "owners' = fold (\<lambda>d. gm_put d (config_key n)) ds owners"
    and ok: "consistent (rs @ [n])"
    using claim_domains_iff [of "config_key n" owners ds] tracks_claim(1) [OF assms(1-4)] by auto
  have "gm_get (gm_put (config_key n) m registries) = merged (rs @ [n])"
    using assms(1) m merged_snoc_other [of n _ rs] by (auto simp: tracks_def map_laws)
  then show ?thesis
    using Inr own ok tracks_claim(2) [OF assms(1-4) ok] by (simp add: tracks_def)
qed

lemma merge_registry_step:
  assumes tracked: "tracks registries owners rs" and n: "normal n"
  shows "case merge_registry registries owners n of
     Inl e \<Rightarrow> \<not> consistent (rs @ [n])
   | Inr (registries', owners') \<Rightarrow> tracks registries' owners' (rs @ [n])"
proof (cases "merged rs (config_key n)")
  case None
  have eq: "merge_registry registries owners n =
      bind_result (claim_domains (config_key n) owners (rc_domains n))
        (\<lambda>owners'. Inr (gm_put (config_key n) n registries, owners'))"
    using tracked None by (simp add: merge_registry_def Let_def tracks_def)
  show ?thesis
    unfolding eq
    by (rule tracks_put [where old = "{}", OF tracked _ _ _ merged_snoc_new [OF None n]])
       (use None merged_None in auto)
next
  case (Some current)
  note cur = merged_Some [OF Some]
  have get: "gm_get registries (config_key n) = Some current" and cons: "consistent rs"
    using tracked Some by (simp_all add: tracks_def)
  show ?thesis
  proof (cases "same_credentials current n")
    case False
    with cur(2) have "\<not> consistent (rs @ [n])"
      by (auto simp: consistent_snoc compatible_def same_credentials_def)
    with False get show ?thesis
      by (auto simp: merge_registry_def Let_def same_credentials_def)
  next
    case True
    obtain r0 where r0: "r0 \<in> set rs" "config_key r0 = config_key n" "same_credentials r0 current"
      using cur(2) by blast
    have same: "same_credentials r n" if "r \<in> set rs" "config_key r = config_key n" for r
    proof -
      have "compatible r r0" using cons that(1) r0(1) unfolding consistent_def by blast
      then have "same_credentials r r0" using that(2) r0(2) by (simp add: compatible_def)
      with r0(3) True show ?thesis by (simp add: same_credentials_def)
    qed
    have old: "gm_get owners d = Some (config_key n)" if "d \<in> set (rc_domains current)" for d
      using that tracked cur(3) domain_owner_Some [OF cons, of d] by (auto simp: tracks_def)
    define ds where "ds = sorted_unique (rc_domains current @ rc_domains n)"
    have eq: "merge_registry registries owners n =
        bind_result (claim_domains (config_key n) owners ds)
          (\<lambda>owners'. Inr (gm_put (config_key n) (n\<lparr>rc_domains := ds\<rparr>) registries, owners'))"
      using get True
      by (simp add: merge_registry_def Let_def same_credentials_def ds_def)
    have set_ds: "set ds = set (rc_domains n) \<union> set (rc_domains current)"
      by (auto simp: ds_def)
    have m: "merged (rs @ [n]) (config_key n) = Some (n\<lparr>rc_domains := ds\<rparr>)"
      unfolding ds_def by (rule merged_snoc_same [OF Some refl True])
    show ?thesis
      unfolding eq by (rule tracks_put [OF tracked same set_ds old m])
  qed
qed

section \<open>The loop\<close>

lemma normalize_registry_normal:
  "normalize_registry validate r = Inr n \<Longrightarrow> normal n"
  by (auto simp: normalize_registry_def Let_def normal_def sorted_unique_eq split: if_splits)

lemma merge_registries_tracks:
  assumes "tracks registries owners rs" "map_result (normalize_registry validate) input = Inr ns"
  shows "case merge_registries validate i registries owners input of
      Inl e \<Rightarrow> \<not> consistent (rs @ ns)
    | Inr result \<Rightarrow> consistent (rs @ ns) \<and> gm_get result = merged (rs @ ns)"
  using assms
proof (induction input arbitrary: i registries owners rs ns)
  case Nil
  then show ?case by (simp add: tracks_def)
next
  case (Cons r rest)
  then obtain n ns' where n: "normalize_registry validate r = Inr n"
    and ns': "map_result (normalize_registry validate) rest = Inr ns'" and ns: "ns = n # ns'"
    by auto
  note step = merge_registry_step [OF Cons.prems(1) normalize_registry_normal [OF n]]
  show ?case
  proof (cases "merge_registry registries owners n")
    case (Inl e)
    with step have "\<not> consistent (rs @ ns)" by (auto simp: ns consistent_def)
    with Inl n show ?thesis by simp
  next
    case (Inr state)
    then obtain registries' owners' where
      state: "merge_registry registries owners n = Inr (registries', owners')"
      by (cases state) auto
    with step have "tracks registries' owners' (rs @ [n])" by simp
    note IH = Cons.IH [OF this ns', of "Suc i"]
    have "rs @ ns = (rs @ [n]) @ ns'" by (simp add: ns)
    with IH n state show ?thesis by (simp only: merge_registries.simps sum.case bind_result.simps prod.case)
  qed
qed

lemma tracks_empty: "tracks [] [] []"
  by (auto simp: tracks_def merged_def domain_owner_def consistent_def)

lemma merge_registries_invalid:
  "map_result (normalize_registry validate) input = Inl e \<Longrightarrow>
     \<exists>e. merge_registries validate i registries owners input = Inl e"
proof (induction input arbitrary: e i registries owners)
  case (Cons r rest)
  show ?case
  proof (cases "normalize_registry validate r")
    case (Inr n)
    with Cons.prems obtain e' where "map_result (normalize_registry validate) rest = Inl e'"
      by (auto simp: bind_result_eq_Inl)
    from Cons.IH [OF this] Inr show ?thesis
      by (cases "merge_registry registries owners n") auto
  qed simp
qed simp

text \<open>The loop accepts exactly the consistent lists, and computes their merge.\<close>

lemma merge_registries_spec:
  "merge_registries validate i [] [] input = Inr result \<Longrightarrow>
     \<exists>ns. map_result (normalize_registry validate) input = Inr ns \<and> consistent ns
       \<and> gm_get result = merged ns"
  using merge_registries_tracks [OF tracks_empty, of validate input _ i]
    merge_registries_invalid [of validate input _ i "[]" "[]"]
  by (cases "map_result (normalize_registry validate) input") fastforce+

lemma merge_registries_accepts:
  "map_result (normalize_registry validate) input = Inr ns \<Longrightarrow> consistent ns \<Longrightarrow>
     \<exists>result. merge_registries validate i [] [] input = Inr result"
  using merge_registries_tracks [OF tracks_empty, of validate input ns i]
  by (cases "merge_registries validate i [] [] input") auto

lemma merge_registry_wf:
  "merge_registry registries owners n = Inr (registries', owners') \<Longrightarrow>
     gm_wf registries \<Longrightarrow> gm_wf registries'"
  by (auto simp: merge_registry_def Let_def)

lemma merge_registries_wf:
  "merge_registries validate i registries owners input = Inr result \<Longrightarrow>
     gm_wf registries \<Longrightarrow> gm_wf result"
  by (induction input arbitrary: i registries owners)
     (auto split: sum.splits dest: merge_registry_wf)

section \<open>Accepted registries\<close>

lemma parse_registries_Inr:
  "parse_registries env raw = Inr result \<longleftrightarrow>
     trim_space raw \<noteq> [] \<and>
     (\<exists>input. yaml_registries env raw = Some input \<and> input \<noteq> [] \<and>
       merge_registries (dns_subdomain env) 0 [] [] input = Inr result)"
  by (auto simp: parse_registries_def split: option.splits)

text \<open>C3: \<open>parseRegistries\<close> accepts a text exactly when it is not blank, decodes to a
  non-empty list of registries that normalise one by one, and the normalised list is
  consistent (one credential pair per registry key, one registry key per domain); the map
  it returns is then the merge of that list.\<close>

theorem parse_registries_spec:
  "(\<exists>result. parse_registries env raw = Inr result \<and> gm_get result = m) \<longleftrightarrow>
     trim_space raw \<noteq> [] \<and>
     (\<exists>input ns. yaml_registries env raw = Some input \<and> input \<noteq> [] \<and>
        map_result (normalize_registry (dns_subdomain env)) input = Inr ns \<and>
        consistent ns \<and> m = merged ns)"
  (is "?accepted \<longleftrightarrow> ?spec")
proof
  assume ?accepted
  then show ?spec using merge_registries_spec by (fastforce simp: parse_registries_Inr)
next
  assume ?spec
  then obtain input ns where raw: "trim_space raw \<noteq> []" "yaml_registries env raw = Some input"
    "input \<noteq> []" and ns: "map_result (normalize_registry (dns_subdomain env)) input = Inr ns"
    "consistent ns" "m = merged ns" by blast
  obtain result where "merge_registries (dns_subdomain env) 0 [] [] input = Inr result"
    using merge_registries_accepts [OF ns(1,2)] by blast
  with raw ns merge_registries_spec [OF this] show ?accepted
    by (auto simp: parse_registries_Inr)
qed

lemma merged_cong:
  assumes "set rs = set ts" "consistent ts"
  shows "merged rs = merged ts"
proof
  fix k
  have cons: "consistent rs" using assms by (simp add: consistent_def)
  show "merged rs k = merged ts k"
  proof (cases "merged rs k")
    case None
    then have "merged ts k = None" using assms(1) by (simp add: merged_None)
    with None show ?thesis by simp
  next
    case (Some m)
    then obtain t where t: "merged ts k = Some t"
      using assms(1) merged_None by (metis not_None_eq)
    note m = merged_Some [OF Some] and t' = merged_Some [OF t]
    obtain a b where "a \<in> set rs" "config_key a = k" "same_credentials a m"
      "b \<in> set ts" "config_key b = k" "same_credentials b t" using m(2) t'(2) by blast
    moreover from this have "compatible a b" using cons assms(1) by (simp add: consistent_def)
    ultimately have "same_credentials m t" by (auto simp: compatible_def same_credentials_def)
    moreover have "rc_domains m = rc_domains t"
      using m(3-5) t'(3-5) assms(1) by (intro sorted_distinct_set_unique) auto
    ultimately have "m = t"
      using m(1) t'(1) by (auto simp: config_key_def same_credentials_def intro: registry_config.equality)
    with Some t show ?thesis by simp
  qed
qed

lemma map_result_set_eq:
  assumes "map_result f xs = Inr ys" "set xs = set xs'"
  shows "\<exists>ys'. map_result f xs' = Inr ys' \<and> set ys' = set ys"
proof -
  have "\<exists>ys'. map_result f xs' = Inr ys'" if "\<forall>x \<in> set xs'. \<exists>y. f x = Inr y" for xs'
    using that by (induction xs') auto
  then obtain ys' where ys': "map_result f xs' = Inr ys'"
    using map_result_ok [OF assms(1)] assms(2) by blast
  then show ?thesis
    using map_result_set [OF ys'] map_result_set [OF assms(1)] assms(2) by blast
qed

text \<open>the order of the configured registries does not matter: two texts that decode to
  the same registries, in any order and with any repetitions, are accepted or rejected
  together, and give the same map.\<close>

lemma parse_registries_order:
  assumes "yaml_registries env raw = Some input" "yaml_registries env raw' = Some input'"
    and "set input = set input'" "trim_space raw' \<noteq> []"
    and "parse_registries env raw = Inr result"
  shows "\<exists>result'. parse_registries env raw' = Inr result' \<and> gm_equiv result result'"
proof -
  obtain ns where input: "input \<noteq> []"
    and ns: "map_result (normalize_registry (dns_subdomain env)) input = Inr ns"
    "consistent ns" "gm_get result = merged ns"
    using assms(1,5) merge_registries_spec by (fastforce simp: parse_registries_Inr)
  obtain ns' where ns': "map_result (normalize_registry (dns_subdomain env)) input' = Inr ns'"
    "set ns' = set ns"
    using map_result_set_eq [OF ns(1) assms(3)] by blast
  then have cons': "consistent ns'" using ns(2) by (simp add: consistent_def)
  obtain result' where
    res': "merge_registries (dns_subdomain env) 0 [] [] input' = Inr result'"
    using merge_registries_accepts [OF ns'(1) cons'] by blast
  then have "gm_get result' = merged ns'"
    using merge_registries_spec [OF res'] ns'(1) by auto
  moreover have "merged ns = merged ns'" using ns'(2) cons' by (intro merged_cong) auto
  moreover have "parse_registries env raw' = Inr result'"
    using assms(2-4) input res' by (auto simp: parse_registries_Inr)
  ultimately show ?thesis using ns(3) by (auto simp: gm_equiv_iff)
qed

end
