(* ===== verification/SnapshotInvariant.thy ===== *)
theory SnapshotInvariant
  imports ParserSpec
begin

text \<open>
  What the rest of the controller may assume of a snapshot that \<open>Parse\<close> returned: the
  invariant, its preservation by the parser, and what a parsed snapshot selects in terms
  of the text of the ConfigMap.
\<close>

definition domain_wf :: "parse_env \<Rightarrow> string \<Rightarrow> bool" where
  "domain_wf env d \<longleftrightarrow> d \<noteq> [] \<and> dns_subdomain env d = [] \<and> \<not> str_contains d ''://''
     \<and> \<not> contains_any d ''/?#@:''"

definition registry_wf :: "parse_env \<Rightarrow> registry_config \<Rightarrow> bool" where
  "registry_wf env r \<longleftrightarrow>
     rc_region r \<noteq> [] \<and> trim_space (rc_region r) = rc_region r \<and>
     rc_instance r \<noteq> [] \<and> trim_space (rc_instance r) = rc_instance r \<and>
     rc_access_key_id r \<noteq> [] \<and> trim_space (rc_access_key_id r) = rc_access_key_id r \<and>
     rc_access_key_secret r \<noteq> [] \<and> trim_space (rc_access_key_secret r) = rc_access_key_secret r \<and>
     rc_domains r \<noteq> [] \<and> sorted (rc_domains r) \<and> distinct (rc_domains r) \<and>
     (\<forall>d \<in> set (rc_domains r). domain_wf env d)"

definition registries_wf :: "parse_env \<Rightarrow> registry_map \<Rightarrow> bool" where
  "registries_wf env m \<longleftrightarrow> gm_wf m \<and> m \<noteq> [] \<and>
     (\<forall>(k, r) \<in> set m. config_key r = k \<and> registry_wf env r) \<and>
     (\<forall>(k, r) \<in> set m. \<forall>(k', r') \<in> set m.
        set (rc_domains r) \<inter> set (rc_domains r') \<noteq> {} \<longrightarrow> k = k')"

definition names_wf :: "(string \<Rightarrow> string list) \<Rightarrow> string list \<Rightarrow> bool" where
  "names_wf validate names \<longleftrightarrow> sorted names \<and> distinct names \<and>
     (\<forall>v \<in> set names. v \<noteq> [] \<and> trim_space v = v \<and> validate v = [])"

definition selector_wf :: "(string \<Rightarrow> string list) \<Rightarrow> name_selector \<Rightarrow> bool" where
  "selector_wf validate s \<longleftrightarrow>
     (if sel_match_all s then sel_names s = []
      else sel_names s \<noteq> [] \<and> wildcard \<notin> set (sel_names s) \<and> names_wf validate (sel_names s))"

definition snapshot_wf :: "parse_env \<Rightarrow> configuration_snapshot \<Rightarrow> bool" where
  "snapshot_wf env s \<longleftrightarrow>
     selector_wf (dns_label env) (cs_namespaces s) \<and> names_wf (dns_label env) (cs_excluded s) \<and>
     selector_wf (dns_subdomain env) (cs_accounts s) \<and> registries_wf env (cs_registries s) \<and>
     runtime_wf (cs_runtime s)"

section \<open>Normalised registries\<close>

lemma normalize_domain_wf:
  "normalize_domain (dns_subdomain env) raw = Inr d \<Longrightarrow> domain_wf env d"
  by (auto simp: normalize_domain_def Let_def domain_wf_def split: if_splits)

lemma trim_space_Nil [simp]: "trim_space [] = []"
  by (simp add: trim_space_fixed unstrippable_def starts_with_def)

lemma normalize_registry_wf:
  assumes "normalize_registry (dns_subdomain env) r0 = Inr r"
  shows "registry_wf env r"
proof -
  from assms obtain domains where
    domains: "map_result (normalize_domain (dns_subdomain env)) (rc_domains r0) = Inr domains"
    and r: "rc_domains r = sorted_unique domains"
    and fields: "rc_region r = trim_space (rc_region r0)" "rc_instance r = trim_space (rc_instance r0)"
      "rc_region r \<noteq> []" "rc_instance r \<noteq> []" "rc_domains r0 \<noteq> []"
      "rc_access_key_id r = rc_access_key_id r0" "trim_space (rc_access_key_id r0) \<noteq> []"
      "trim_space (rc_access_key_id r0) = rc_access_key_id r0"
      "rc_access_key_secret r = rc_access_key_secret r0" "trim_space (rc_access_key_secret r0) \<noteq> []"
      "trim_space (rc_access_key_secret r0) = rc_access_key_secret r0"
    by (auto simp: normalize_registry_def Let_def split: if_splits)
  have "domain_wf env d" if "d \<in> set domains" for d
    using that map_result_set [OF domains] normalize_domain_wf by blast
  moreover have "domains \<noteq> []" using domains fields(5) by auto
  ultimately show ?thesis
    using fields by (auto simp: registry_wf_def r)
qed

lemma merged_wf:
  assumes ns: "\<And>n. n \<in> set ns \<Longrightarrow> registry_wf env n" and m: "merged ns k = Some r"
  shows "registry_wf env r"
proof -
  obtain n where n: "n \<in> set ns" "config_key n = k"
    and r: "r = n\<lparr>rc_domains :=
      sorted_unique (concat (map rc_domains (filter (\<lambda>a. config_key a = k) ns)))\<rparr>"
    using m by (auto simp: merged_def dest: find_SomeD)
  have "rc_domains r \<noteq> []"
    using n ns [OF n(1)] by (auto simp: r registry_wf_def filter_empty_conv)
  moreover have "domain_wf env d" if "d \<in> set (rc_domains r)" for d
    using that ns by (auto simp: r registry_wf_def)
  ultimately show ?thesis
    using ns [OF n(1)] by (auto simp: registry_wf_def r)
qed

lemma merged_domains_disjoint:
  assumes "consistent ns" "merged ns k = Some r" "merged ns k' = Some r'"
    and "d \<in> set (rc_domains r)" "d \<in> set (rc_domains r')"
  shows "k = k'"
proof -
  obtain a where "a \<in> set ns" "config_key a = k" "d \<in> set (rc_domains a)"
    using merged_Some(3) [OF assms(2)] assms(4) by auto
  moreover obtain b where "b \<in> set ns" "config_key b = k'" "d \<in> set (rc_domains b)"
    using merged_Some(3) [OF assms(3)] assms(5) by auto
  ultimately show ?thesis using assms(1) by (auto simp: consistent_def compatible_def)
qed

lemma parse_registries_wf:
  assumes "parse_registries env raw = Inr m"
  shows "registries_wf env m"
proof -
  obtain input ns where input: "input \<noteq> []"
    "merge_registries (dns_subdomain env) 0 [] [] input = Inr m"
    using assms by (auto simp: parse_registries_Inr)
  obtain ns where ns: "map_result (normalize_registry (dns_subdomain env)) input = Inr ns"
    "consistent ns" "gm_get m = merged ns"
    using merge_registries_spec [OF input(2)] by blast
  have wf: "gm_wf m" using merge_registries_wf [OF input(2)] by simp
  have each: "registry_wf env n" if "n \<in> set ns" for n
    using that map_result_set [OF ns(1)] normalize_registry_wf by blast
  have get: "merged ns k = Some r" if "(k, r) \<in> set m" for k r
    using that wf ns(3) by (metis gm_get_mem)
  have "ns \<noteq> []" using ns(1) input(1) by auto
  then obtain n where "n \<in> set ns" by (cases ns) auto
  then have "merged ns (config_key n) \<noteq> None" by (auto simp: merged_None)
  then have nonempty: "m \<noteq> []" by (auto simp flip: ns(3))
  have fields: "config_key r = k \<and> registry_wf env r" if "(k, r) \<in> set m" for k r
    using get [OF that] merged_Some(1) merged_wf each by blast
  have unique: "k = k'" if "(k, r) \<in> set m" "(k', r') \<in> set m"
      "set (rc_domains r) \<inter> set (rc_domains r') \<noteq> {}" for k r k' r'
    using merged_domains_disjoint [OF ns(2) get [OF that(1)] get [OF that(2)]] that(3) by blast
  have "\<forall>p \<in> set m. config_key (snd p) = fst p \<and> registry_wf env (snd p)"
    using fields by (metis prod.collapse)
  moreover have "\<forall>p \<in> set m. \<forall>q \<in> set m.
      set (rc_domains (snd p)) \<inter> set (rc_domains (snd q)) \<noteq> {} \<longrightarrow> fst p = fst q"
  proof (intro ballI impI)
    show "fst p = fst q" if "p \<in> set m" "q \<in> set m"
      "set (rc_domains (snd p)) \<inter> set (rc_domains (snd q)) \<noteq> {}" for p q
      using that unique [of "fst p" "snd p" "fst q" "snd q"] by simp
  qed
  ultimately show ?thesis
    using wf nonempty unfolding registries_wf_def case_prod_beta by (intro conjI)
qed

section \<open>The whole snapshot\<close>

lemma parse_name_list_wf:
  assumes "parse_name_list raw field validate aw = Inr names" "\<not> aw \<or> wildcard \<notin> set names"
  shows "names_wf validate names"
  using parse_name_list_facts(1,2,5) [OF assms(1)] assms(2) unfolding names_wf_def by metis

lemma parse_name_selector_Inr:
  "parse_name_selector raw field validate = Inr s \<longleftrightarrow>
     trim_space raw \<noteq> [] \<and>
     (\<exists>names. parse_name_list (trim_space raw) field validate True = Inr names \<and>
       (if wildcard \<in> set names then names = [wildcard] \<and> s = \<lparr>sel_match_all = True, sel_names = []\<rparr>
        else s = \<lparr>sel_match_all = False, sel_names = names\<rparr>))"
proof -
  have "contains_sorted names wildcard \<longleftrightarrow> wildcard \<in> set names"
    if "parse_name_list (trim_space raw) field validate True = Inr names" for names
    using parse_name_list_facts(1) [OF that] by (rule contains_sorted_iff)
  moreover have "wildcard \<in> set names \<Longrightarrow> length names = 1 \<longleftrightarrow> names = [wildcard]" for names
    by (cases names) auto
  ultimately show ?thesis
    by (cases "parse_name_list (trim_space raw) field validate True")
       (auto simp: parse_name_selector_def Let_def split: if_splits)
qed

lemma parse_name_selector_wf:
  "parse_name_selector raw field validate = Inr s \<Longrightarrow> selector_wf validate s"
  using parse_name_list_wf parse_name_list_facts(3)
  by (fastforce simp: parse_name_selector_Inr selector_wf_def split: if_splits)

lemma parse_optional_name_list_wf:
  "parse_optional_name_list raw field validate = Inr names \<Longrightarrow> names_wf validate names"
  using parse_name_list_wf
  by (auto simp: parse_optional_name_list_def names_wf_def split: if_splits)

lemma parse_Inr:
  "parse env data = Inr s \<longleftrightarrow>
     set (gm_keys data) \<subseteq> set supported_keys \<and> cs_generation s = 0 \<and>
     parse_name_selector (gm_get0 [] data namespace_key) ''namespace'' (dns_label env)
       = Inr (cs_namespaces s) \<and>
     parse_optional_name_list (gm_get0 [] data exclude_namespace_key) ''excludeNamespace''
       (dns_label env) = Inr (cs_excluded s) \<and>
     parse_name_selector (gm_get0 [] data service_account_key) ''serviceaccount''
       (dns_subdomain env) = Inr (cs_accounts s) \<and>
     parse_registries env (gm_get0 [] data registries_key) = Inr (cs_registries s) \<and>
     parse_runtime (parse_float env) data = Inr (cs_runtime s)"
  (is "?l \<longleftrightarrow> ?keys \<and> ?r")
proof (cases "find (\<lambda>key. key \<notin> set supported_keys) (gm_keys data)")
  case None
  then have ?keys by (auto simp: find_None_iff)
  with None show ?thesis
    by (cases s) (auto simp: parse_def split: sum.splits)
next
  case (Some k)
  then have "\<not> ?keys" by (auto dest: find_SomeD)
  with Some show ?thesis by (simp add: parse_def)
qed

lemma parse_wf: "parse env data = Inr s \<Longrightarrow> snapshot_wf env s"
  unfolding parse_Inr snapshot_wf_def
  using parse_name_selector_wf parse_optional_name_list_wf parse_registries_wf parse_runtime_wf
  by blast

text \<open>C4: every snapshot \<open>Parse\<close> returns satisfies the invariant: selectors are a bare
  wildcard or a sorted duplicate-free list of validated names, registries are filed under
  their own key with non-blank trimmed fields and a non-empty sorted list of bare,
  validated domains, no domain belongs to two registries, and the tuning is unset or in
  range.\<close>

theorem parse_snapshot_wf: "parse env data = Inr s \<Longrightarrow> snapshot_wf env s"
  by (rule parse_wf)

text \<open>The names a comma-separated field lists, and what a selector text selects.\<close>

definition listed :: "string \<Rightarrow> string set" where
  "listed raw = trim_space ` set (split_on CHR '','' (trim_space raw))"

lemma selector_matches_text:
  assumes "parse_name_selector raw field validate = Inr s"
  shows "selector_matches s n \<longleftrightarrow> wildcard \<in> listed raw \<or> n \<in> listed raw"
proof -
  obtain names where names: "parse_name_list (trim_space raw) field validate True = Inr names"
    and s: "if wildcard \<in> set names
      then names = [wildcard] \<and> s = \<lparr>sel_match_all = True, sel_names = []\<rparr>
      else s = \<lparr>sel_match_all = False, sel_names = names\<rparr>"
    using assms by (auto simp: parse_name_selector_Inr)
  note facts = parse_name_list_facts [OF names]
  show ?thesis
    using s contains_sorted_iff [OF facts(1)] facts(4)
    by (auto simp: selector_matches_def listed_def split: if_splits)
qed

text \<open>\<open>excludeNamespace\<close> is split as written: blank means no exclusion.\<close>

definition excluded_names :: "string \<Rightarrow> string set" where
  "excluded_names raw =
     (if trim_space raw = [] then {} else trim_space ` set (split_on CHR '','' raw))"

lemma excluded_text:
  assumes "parse_optional_name_list raw field validate = Inr names"
  shows "contains_sorted names n \<longleftrightarrow> n \<in> excluded_names raw"
proof (cases "trim_space raw = []")
  case True
  with assms show ?thesis
    by (auto simp: parse_optional_name_list_def excluded_names_def contains_sorted_def Let_def)
next
  case False
  then have names: "parse_name_list raw field validate False = Inr names"
    using assms by (simp add: parse_optional_name_list_def)
  show ?thesis
    using False parse_name_list_facts(1,4) [OF names]
    by (simp add: contains_sorted_iff excluded_names_def)
qed

text \<open>a parsed configuration targets exactly the namespaces its text names: those listed
  in \<open>namespace\<close>, or all of them under the wildcard, less those listed in
  \<open>excludeNamespace\<close>, which wins. Service accounts are matched in the same way.\<close>

lemma parse_targets:
  assumes "parse env data = Inr s"
  shows "(matches_namespace s n \<longleftrightarrow>
      (wildcard \<in> listed (gm_get0 [] data namespace_key) \<or>
       n \<in> listed (gm_get0 [] data namespace_key)) \<and>
      n \<notin> excluded_names (gm_get0 [] data exclude_namespace_key))
    \<and> (selector_matches (cs_accounts s) a \<longleftrightarrow>
      wildcard \<in> listed (gm_get0 [] data service_account_key) \<or>
      a \<in> listed (gm_get0 [] data service_account_key))"
  using assms selector_matches_text excluded_text
  unfolding parse_Inr matches_namespace_def by blast

section \<open>A concrete configuration\<close>

text \<open>
  A configuration of one registry, for the witnesses: a stand-in for the decoders that
  accepts two fixed documents, and validators that accept lower-case names and dots.
\<close>

definition lower_names :: "string \<Rightarrow> string list" where
  "lower_names s =
     (if s \<noteq> [] \<and> list_all (\<lambda>c. CHR ''a'' \<le> c \<and> c \<le> CHR ''z'' \<or> c = CHR ''.'') s
      then [] else [''invalid''])"

definition sample_registry :: registry_config where
  "sample_registry =
     \<lparr>rc_region = ''hz'', rc_instance = ''cri'', rc_access_key_id = ''id'',
      rc_access_key_secret = ''sk'', rc_domains = [''b.io'', ''a.io'']\<rparr>"

definition other_registry :: registry_config where
  "other_registry = sample_registry\<lparr>rc_region := ''sh'', rc_domains := [''c.io'']\<rparr>"

definition sample_env :: parse_env where
  "sample_env =
     \<lparr>dns_label = lower_names, dns_subdomain = lower_names,
      yaml_registries = (\<lambda>raw.
        if raw = ''one'' then Some [sample_registry, other_registry]
        else if raw = ''two'' then Some [other_registry, sample_registry, sample_registry]
        else None),
      parse_float = (\<lambda>raw. if raw = ''25'' then Some (Fin 25) else None)\<rparr>"

definition sample_data :: "(string, string) gomap" where
  "sample_data =
     [(''namespace'', '' prod, dev,prod''), (''excludeNamespace'', ''dev''),
      (''serviceaccount'', ''*''), (''registries'', ''one''), (''workers'', '' 4 '')]"

definition sample_snapshot :: configuration_snapshot where
  "sample_snapshot =
     \<lparr>cs_generation = 0,
      cs_namespaces = \<lparr>sel_match_all = False, sel_names = [''dev'', ''prod'']\<rparr>,
      cs_excluded = [''dev''],
      cs_accounts = \<lparr>sel_match_all = True, sel_names = []\<rparr>,
      cs_registries =
        [(RegistryKey ''hz'' ''cri'', sample_registry\<lparr>rc_domains := [''a.io'', ''b.io'']\<rparr>),
         (RegistryKey ''sh'' ''cri'', other_registry)],
      cs_runtime = \<lparr>rt_qps = Fin 0, rt_burst = 0, rt_workers = 4\<rparr>\<rparr>"

lemma parse_sample: "parse sample_env sample_data = Inr sample_snapshot"
  by code_simp

theorem parse_snapshot_wf_witness: "snapshot_wf sample_env sample_snapshot"
  by (rule parse_snapshot_wf [OF parse_sample])

lemma parse_targets_witness:
  "matches_namespace sample_snapshot ''prod'' \<and> \<not> matches_namespace sample_snapshot ''dev''"
proof -
  have "wildcard \<notin> listed (gm_get0 [] sample_data namespace_key) \<and>
      ''prod'' \<in> listed (gm_get0 [] sample_data namespace_key) \<and>
      ''prod'' \<notin> excluded_names (gm_get0 [] sample_data exclude_namespace_key) \<and>
      ''dev'' \<in> excluded_names (gm_get0 [] sample_data exclude_namespace_key)"
    by code_simp
  then show ?thesis
    using parse_targets [OF parse_sample, of "''prod''"] parse_targets [OF parse_sample, of "''dev''"]
    by blast
qed

lemma parse_registries_order_witness:
  "\<exists>result'. parse_registries sample_env ''two'' = Inr result' \<and>
     gm_equiv (cs_registries sample_snapshot) result'"
proof (rule parse_registries_order)
  show "yaml_registries sample_env ''one'' = Some [sample_registry, other_registry]"
    "yaml_registries sample_env ''two'' = Some [other_registry, sample_registry, sample_registry]"
    by (simp_all add: sample_env_def)
  show "trim_space ''two'' \<noteq> []" by code_simp
  show "parse_registries sample_env ''one'' = Inr (cs_registries sample_snapshot)"
    by code_simp
qed auto

end
