(* ===== verification/ConfigStore.thy ===== *)
theory ConfigStore
  imports SnapshotInvariant
begin

text \<open>
  \<open>internal/config/store.go\<close>: the holder of the last valid snapshot. The mutex makes
  each method one atomic step, so a method is a function on the store's state. The
  contract the rest of the program relies on, that a reader always sees the last accepted
  configuration, is the locale \<open>last_good\<close>, interpreted on the store below.
\<close>

record config_store =
  st_current :: "configuration_snapshot option"
  st_valid :: bool

definition empty_store :: config_store where
  "empty_store = \<lparr>st_current = None, st_valid = False\<rparr>"

record apply_result =
  ar_current :: configuration_snapshot
  ar_changed :: bool
  ar_business_changed :: bool

definition store_apply ::
  "config_store \<Rightarrow> configuration_snapshot \<Rightarrow> config_store \<times> apply_result" where
  "store_apply s candidate0 =
     (let s = s\<lparr>st_valid := True\<rparr>;
          candidate = clone_snapshot candidate0
      in case st_current s of
           Some current \<Rightarrow>
             if snapshot_equal current candidate then
               (s, \<lparr>ar_current = clone_snapshot current, ar_changed = False,
                    ar_business_changed = False\<rparr>)
             else
               (let new = candidate\<lparr>cs_generation := cs_generation current + 1\<rparr>
                in (s\<lparr>st_current := Some new\<rparr>,
                    \<lparr>ar_current = clone_snapshot new, ar_changed = True,
                     ar_business_changed = \<not> business_equal current candidate\<rparr>))
         | None \<Rightarrow>
             (let new = candidate\<lparr>cs_generation := 1\<rparr>
              in (s\<lparr>st_current := Some new\<rparr>,
                  \<lparr>ar_current = clone_snapshot new, ar_changed = True,
                   ar_business_changed = True\<rparr>)))"

definition store_mark_invalid :: "config_store \<Rightarrow> config_store" where
  "store_mark_invalid s = s\<lparr>st_valid := False\<rparr>"

definition store_load :: "config_store \<Rightarrow> configuration_snapshot option" where
  "store_load s = map_option clone_snapshot (st_current s)"

definition store_loaded :: "config_store \<Rightarrow> bool" where
  "store_loaded s \<longleftrightarrow> st_current s \<noteq> None"

definition store_matches_service_account :: "config_store \<Rightarrow> string \<Rightarrow> string \<Rightarrow> bool" where
  "store_matches_service_account s namespace service_account =
     (case st_current s of
        None \<Rightarrow> False
      | Some current \<Rightarrow> matches_namespace current namespace
          \<and> selector_matches (cs_accounts current) service_account)"

lemma store_load_current [simp]: "store_load s = st_current s"
  by (simp add: store_load_def option.map_ident cong: option.map_cong)

lemma store_apply_facts:
  assumes "store_apply s c = (s', r)"
  shows "st_valid s'" "store_loaded s'" "st_current s' = Some (ar_current r)"
    and "ar_business_changed r \<Longrightarrow> ar_changed r"
    and "ar_changed r \<longleftrightarrow> (\<forall>current. st_current s = Some current \<longrightarrow> \<not> snapshot_equal current c)"
    and "ar_business_changed r \<longleftrightarrow>
      (\<forall>current. st_current s = Some current \<longrightarrow> \<not> business_equal current c)"
    and "ar_changed r \<Longrightarrow> ar_current r = c\<lparr>cs_generation := cs_generation (ar_current r)\<rparr>"
    and "\<not> ar_changed r \<Longrightarrow> st_current s' = st_current s"
  using assms
  by (auto simp: store_apply_def store_loaded_def Let_def snapshot_equal_def
      split: option.splits if_splits)

lemma business_equal_generation [simp]:
  "business_equal (s\<lparr>cs_generation := g\<rparr>) t = business_equal s t"
  "business_equal s (t\<lparr>cs_generation := g\<rparr>) = business_equal s t"
  by (simp_all add: business_equal_def)

lemma snapshot_equal_generation [simp]:
  "snapshot_equal (s\<lparr>cs_generation := g\<rparr>) t = snapshot_equal s t"
  "snapshot_equal s (t\<lparr>cs_generation := g\<rparr>) = snapshot_equal s t"
  by (simp_all add: snapshot_equal_def)

lemma snapshot_equal_refl: "runtime_wf (cs_runtime s) \<Longrightarrow> snapshot_equal s s"
  by (simp add: snapshot_equal_def runtime_eq_wf)

lemma runtime_eq_sym: "runtime_eq a b = runtime_eq b a"
proof -
  have "f_eq x y = f_eq y x" for x y by (cases x; cases y) auto
  then show ?thesis by (auto simp: runtime_eq_def)
qed

lemma snapshot_equal_sym: "snapshot_equal s t \<longleftrightarrow> snapshot_equal t s"
  by (auto simp: snapshot_equal_def business_equal_sym runtime_eq_sym)

lemma snapshot_equal_current:
  assumes "store_apply s c = (s', r)" "runtime_wf (cs_runtime c)"
  shows "snapshot_equal (ar_current r) c"
proof (cases "ar_changed r")
  case True
  then show ?thesis
    using store_apply_facts(7) [OF assms(1)] snapshot_equal_refl [OF assms(2)]
    by (metis snapshot_equal_generation(1))
next
  case False
  then show ?thesis
    using store_apply_facts(3,5,8) [OF assms(1)] by auto
qed

section \<open>The last valid configuration\<close>

locale last_good =
  fixes load :: "'s \<Rightarrow> 'v option"
    and apply_to :: "'s \<Rightarrow> 'v \<Rightarrow> 's"
    and invalidate :: "'s \<Rightarrow> 's"
    and valid :: "'s \<Rightarrow> bool"
    and same :: "'v \<Rightarrow> 'v \<Rightarrow> bool"
    and ok :: "'v \<Rightarrow> bool"
  assumes load_apply: "ok v \<Longrightarrow> \<exists>w. load (apply_to s v) = Some w \<and> same w v"
    and valid_apply: "valid (apply_to s v)"
    and load_invalidate: "load (invalidate s) = load s"
    and valid_invalidate: "\<not> valid (invalidate s)"
begin

text \<open>An observation of the ConfigMap: \<open>Some v\<close> a valid one, \<open>None\<close> an invalid or absent one.\<close>

definition observe :: "'v option \<Rightarrow> 's \<Rightarrow> 's" where
  "observe e s = (case e of Some v \<Rightarrow> apply_to s v | None \<Rightarrow> invalidate s)"

lemma load_after:
  assumes "\<And>v. Some v \<in> set es \<Longrightarrow> ok v" and "Some v \<in> set es"
  shows "\<exists>w. load (fold observe es s) = Some w
    \<and> same w (last (List.map_filter id es))"
  using assms
proof (induction es rule: rev_induct)
  case (snoc e es)
  show ?case
  proof (cases e)
    case (Some u)
    then show ?thesis
      using load_apply [of u] snoc.prems(1) by (simp add: observe_def map_filter_def)
  next
    case None
    then have "Some v \<in> set es" using snoc.prems(2) by auto
    then show ?thesis
      using snoc None by (simp add: observe_def load_invalidate map_filter_def)
  qed
qed simp

lemma load_never:
  assumes "\<And>v. Some v \<notin> set es" shows "load (fold observe es s) = load s"
  using assms
proof (induction es arbitrary: s)
  case (Cons e es)
  then have "e = None" by (cases e) auto
  then show ?case using Cons by (simp add: observe_def load_invalidate)
qed simp

lemma valid_after: "es \<noteq> [] \<Longrightarrow> valid (fold observe es s) \<longleftrightarrow> last es \<noteq> None"
  by (induction es rule: rev_induct)
     (auto simp: observe_def valid_apply valid_invalidate split: option.splits)

end

interpretation cfg: last_good st_current "\<lambda>s c. fst (store_apply s c)" store_mark_invalid
  st_valid snapshot_equal "\<lambda>c. runtime_wf (cs_runtime c)"
proof
  show "\<exists>w. st_current (fst (store_apply s v)) = Some w \<and> snapshot_equal w v"
    if "runtime_wf (cs_runtime v)" for s v
    using store_apply_facts(3) [of s v] snapshot_equal_current [of s v] that
    by (cases "store_apply s v") auto
  show "st_valid (fst (store_apply s v))" for s v
    using store_apply_facts(1) [of s v] by (cases "store_apply s v") auto
qed (simp_all add: store_mark_invalid_def)

text \<open>The observations of one process, as the configuration controller makes them.\<close>

definition store_observe :: "configuration_snapshot option \<Rightarrow> config_store \<Rightarrow> config_store" where
  "store_observe e s =
     (case e of Some c \<Rightarrow> fst (store_apply s c) | None \<Rightarrow> store_mark_invalid s)"

definition store_run :: "configuration_snapshot option list \<Rightarrow> config_store" where
  "store_run es = fold store_observe es empty_store"

lemma store_run_observe: "store_run es = fold cfg.observe es empty_store"
proof -
  have "store_observe = cfg.observe"
    by (intro ext) (simp add: store_observe_def cfg.observe_def)
  then show ?thesis by (simp add: store_run_def)
qed

text \<open>C12: after any sequence of observed ConfigMaps, valid or not, the store serves the last
  valid one (up to the generation number), reports it as loaded, and reports validity of
  the very last observation only; before the first valid one it serves nothing.\<close>

theorem store_serves_last_valid:
  assumes "\<forall>c. Some c \<in> set es \<longrightarrow> runtime_wf (cs_runtime c)"
  shows "if \<exists>c. Some c \<in> set es
    then \<exists>w. store_load (store_run es) = Some w \<and> store_loaded (store_run es)
      \<and> snapshot_equal w (last (List.map_filter id es))
      \<and> (st_valid (store_run es) \<longleftrightarrow> last es \<noteq> None)
    else store_load (store_run es) = None"
proof (cases "\<exists>c. Some c \<in> set es")
  case True
  then obtain c where c: "Some c \<in> set es" by blast
  then have "es \<noteq> []" by auto
  with cfg.load_after [OF _ c, of empty_store] assms c cfg.valid_after [of es empty_store]
  show ?thesis by (auto simp: store_run_observe store_loaded_def)
next
  case False
  then have "store_load (store_run es) = None"
    using cfg.load_never [of es empty_store] by (simp add: store_run_observe empty_store_def)
  with False show ?thesis by simp
qed

theorem store_serves_last_valid_witness:
  "\<exists>w. store_load (store_run [None, Some sample_snapshot, None]) = Some w
    \<and> store_loaded (store_run [None, Some sample_snapshot, None])
    \<and> snapshot_equal w sample_snapshot
    \<and> (st_valid (store_run [None, Some sample_snapshot, None]) \<longleftrightarrow>
        last [None, Some sample_snapshot, None] \<noteq> None)"
proof -
  have "\<forall>c. Some c \<in> set [None, Some sample_snapshot, None] \<longrightarrow> runtime_wf (cs_runtime c)"
    by (simp add: sample_snapshot_def runtime_wf_def f_zero_def max_int64_def)
  from store_serves_last_valid [OF this] show ?thesis
    by (simp add: map_filter_def)
qed

text \<open>installing a configuration advances the generation by one exactly when it differs
  from the current one in its meaning, and installing the same configuration again changes
  nothing: the store stays as it is and neither change flag is raised.\<close>

lemma store_apply_generation:
  assumes "store_apply s c = (s', r)" "runtime_wf (cs_runtime c)"
  shows "ar_changed r = (\<forall>current. store_load s = Some current \<longrightarrow> \<not> snapshot_equal current c)
    \<and> cs_generation (ar_current r) =
        (case store_load s of
           None \<Rightarrow> 1
         | Some current \<Rightarrow> cs_generation current + (if ar_changed r then 1 else 0))
    \<and> store_apply s' c = (s', r\<lparr>ar_changed := False, ar_business_changed := False\<rparr>)"
proof -
  note facts = store_apply_facts [OF assms(1)]
  have gen: "cs_generation (ar_current r) =
        (case store_load s of
           None \<Rightarrow> 1
         | Some current \<Rightarrow> cs_generation current + (if ar_changed r then 1 else 0))"
    using assms(1) by (auto simp: store_apply_def Let_def split: option.splits if_splits)
  have "store_apply s' c = (s', r\<lparr>ar_changed := False, ar_business_changed := False\<rparr>)"
    using facts(1,3) snapshot_equal_current [OF assms] by (simp add: store_apply_def)
  with gen facts(5) show ?thesis by simp
qed

lemma store_apply_generation_witness:
  "ar_changed (snd (store_apply empty_store sample_snapshot))
   \<and> cs_generation (ar_current (snd (store_apply empty_store sample_snapshot))) = 1
   \<and> \<not> ar_changed (snd (store_apply (fst (store_apply empty_store sample_snapshot)) sample_snapshot))"
proof -
  have "runtime_wf (cs_runtime sample_snapshot)"
    by (simp add: sample_snapshot_def runtime_wf_def f_zero_def max_int64_def)
  from store_apply_generation [OF prod.collapse [symmetric] this, of empty_store]
  show ?thesis by (simp add: empty_store_def)
qed

end
