(* ===== verification/CredentialStore.thy ===== *)
theory CredentialStore
  imports ConfigStore
begin

text \<open>
  \<open>internal/credential/types.go\<close> and \<open>store.go\<close>: provider requests and tokens,
  and the process-local store of one credential per registry. A \<open>time.Time\<close> is the
  instant in nanoseconds since the Unix epoch, a \<open>time.Duration\<close> an integer number of
  nanoseconds. The digest of the authentication input (SHA-256 of its JSON form, in
  hexadecimal) is the argument \<open>digest\<close>.
\<close>

type_synonym instant = int
type_synonym duration = int

definition second :: duration where "second = 1000000000"
definition minute :: duration where "minute = 60 * second"

text \<open>\<open>t.Sub(u)\<close> saturates at the range of a \<open>Duration\<close>.\<close>

definition time_sub :: "instant \<Rightarrow> instant \<Rightarrow> duration" where
  "time_sub t u = max min_int64 (min max_int64 (t - u))"

text \<open>\<open>time.Time{}\<close>, the first of January of year 1.\<close>

definition zero_time :: instant where "zero_time = -62135596800 * second"

definition time_is_zero :: "instant \<Rightarrow> bool" where
  "time_is_zero t \<longleftrightarrow> t = zero_time"

record request =
  rq_key :: registry_key
  rq_access_key_id :: string
  rq_access_key_secret :: string

record token =
  tk_username :: string
  tk_password :: string
  tk_expires_at :: instant

record credential =
  cr_username :: string
  cr_password :: string
  cr_refreshed_at :: instant
  cr_expires_at :: instant

record entry =
  en_credential :: credential
  en_revision :: "64 word"
  en_authentication_hash :: string

record auth_input =
  ai_region :: string
  ai_instance :: string
  ai_access_key_id :: string
  ai_access_key_secret :: string

type_synonym digest = "auth_input \<Rightarrow> string"

definition auth_input_of :: "registry_config \<Rightarrow> auth_input" where
  "auth_input_of r =
     \<lparr>ai_region = rc_region r, ai_instance = rc_instance r,
      ai_access_key_id = rc_access_key_id r, ai_access_key_secret = rc_access_key_secret r\<rparr>"

definition registry_authentication_hash :: "digest \<Rightarrow> registry_config \<Rightarrow> string" where
  "registry_authentication_hash digest registry = digest (auth_input_of registry)"

definition matches_registry :: "digest \<Rightarrow> entry \<Rightarrow> registry_config \<Rightarrow> bool" where
  "matches_registry digest e registry \<longleftrightarrow>
     en_authentication_hash e \<noteq> [] \<and>
     en_authentication_hash e = registry_authentication_hash digest registry"

record cred_store =
  cst_current :: "(registry_key, entry) gomap"
  cst_next_revision :: "64 word"

definition empty_cred_store :: cred_store where
  "empty_cred_store = \<lparr>cst_current = [], cst_next_revision = 0\<rparr>"

definition cred_apply ::
  "digest \<Rightarrow> cred_store \<Rightarrow> registry_config \<Rightarrow> credential \<Rightarrow> cred_store \<times> entry" where
  "cred_apply digest s registry value =
     (let rev = cst_next_revision s + 1;
          e = \<lparr>en_credential = value, en_revision = rev,
               en_authentication_hash = registry_authentication_hash digest registry\<rparr>
      in (s\<lparr>cst_next_revision := rev,
            cst_current := gm_put (config_key registry) e (cst_current s)\<rparr>, e))"

definition cred_load :: "cred_store \<Rightarrow> registry_key \<Rightarrow> entry option" where
  "cred_load s key = gm_get (cst_current s) key"

definition cred_delete :: "cred_store \<Rightarrow> registry_key \<Rightarrow> cred_store \<times> bool" where
  "cred_delete s key =
     (case gm_get (cst_current s) key of
        None \<Rightarrow> (s, False)
      | Some _ \<Rightarrow> (s\<lparr>cst_current := gm_del key (cst_current s)\<rparr>, True))"

definition cred_snapshot :: "cred_store \<Rightarrow> (registry_key, entry) gomap" where
  "cred_snapshot s = map (\<lambda>(key, e). (key, e)) (cst_current s)"

lemma cred_snapshot_current [simp]: "cred_snapshot s = cst_current s"
  by (simp add: cred_snapshot_def)

lemma auth_input_eq:
  "auth_input_of r = auth_input_of r' \<longleftrightarrow>
     config_key r = config_key r' \<and> rc_access_key_id r = rc_access_key_id r'
     \<and> rc_access_key_secret r = rc_access_key_secret r'"
  by (auto simp: auth_input_of_def config_key_def)

section \<open>The contract of the store\<close>

text \<open>
  What the scheduler relies on: an installed credential is read back under its key and no
  other entry changes; a deleted one is gone; and an entry's revision tells it from every
  other entry the store holds, until the revision counter wraps.
\<close>

locale credential_keeper =
  fixes load :: "'s \<Rightarrow> 'k \<Rightarrow> 'e option"
    and install :: "'s \<Rightarrow> 'k \<Rightarrow> 'v \<Rightarrow> 's \<times> 'e"
    and remove :: "'s \<Rightarrow> 'k \<Rightarrow> 's"
    and revision :: "'e \<Rightarrow> 'r"
    and used :: "'s \<Rightarrow> 'r set"
    and room :: "'s \<Rightarrow> bool"
  assumes load_install: "install s k v = (s', e) \<Longrightarrow> load s' k' = (if k' = k then Some e else load s k')"
    and load_remove: "load (remove s k) k' = (if k' = k then None else load s k')"
    and install_fresh: "room s \<Longrightarrow> install s k v = (s', e) \<Longrightarrow>
      revision e \<notin> used s \<and> used s' = insert (revision e) (used s)"
    and remove_used: "used (remove s k) = used s"
begin

text \<open>Every stored revision has been used, and no two stored entries share one.\<close>

definition revisions_ok :: "'s \<Rightarrow> bool" where
  "revisions_ok s \<longleftrightarrow>
     (\<forall>k e. load s k = Some e \<longrightarrow> revision e \<in> used s) \<and>
     (\<forall>k k' e e'. load s k = Some e \<and> load s k' = Some e' \<and> revision e = revision e' \<longrightarrow> k = k')"

lemma revisions_ok_install:
  assumes "revisions_ok s" "room s" "install s k v = (s', e)"
  shows "revisions_ok s'"
proof -
  note fresh = install_fresh [OF assms(2,3)]
  have used: "revision e' \<in> used s" if "load s k' = Some e'" for k' e'
    using that assms(1) by (auto simp: revisions_ok_def)
  then have other: "revision e' \<noteq> revision e" if "load s k' = Some e'" for k' e'
    using that fresh by metis
  have pair: "k1 = k2" if "load s k1 = Some e1" "load s k2 = Some e2" "revision e1 = revision e2"
    for k1 k2 e1 e2
    using that assms(1) by (auto simp: revisions_ok_def)
  show ?thesis
    unfolding revisions_ok_def load_install [OF assms(3)]
    using used fresh other pair by (auto split: if_splits)
qed

lemma revisions_ok_remove: "revisions_ok s \<Longrightarrow> revisions_ok (remove s k)"
  unfolding revisions_ok_def load_remove remove_used by (auto split: if_splits)

end

text \<open>The revisions the model's store has handed out: \<open>1\<close> up to its counter.\<close>

definition used_revisions :: "cred_store \<Rightarrow> nat set" where
  "used_revisions s = {1 .. unat (cst_next_revision s)}"

definition revision_room :: "cred_store \<Rightarrow> bool" where
  "revision_room s \<longleftrightarrow> unat (cst_next_revision s) + 1 < 2 ^ 64"

lemma next_revision: "revision_room s \<Longrightarrow>
    unat (cst_next_revision s + 1) = unat (cst_next_revision s) + 1"
  by (simp add: revision_room_def unat_word_ariths)

lemma cred_apply_facts:
  assumes "cred_apply digest s r v = (s', e)"
  shows "cred_load s' k = (if k = config_key r then Some e else cred_load s k)"
    and "en_credential e = v" "en_authentication_hash e = digest (auth_input_of r)"
    and "en_revision e = cst_next_revision s + 1"
    and "cst_next_revision s' = cst_next_revision s + 1"
  using assms
  by (auto simp: cred_apply_def Let_def cred_load_def registry_authentication_hash_def map_laws)

lemma cred_load_delete:
  "cred_load (fst (cred_delete s k)) k' = (if k' = k then None else cred_load s k')"
  by (auto simp: cred_delete_def cred_load_def map_laws split: option.splits)

lemma cred_delete_result: "snd (cred_delete s k) \<longleftrightarrow> cred_load s k \<noteq> None"
  by (simp add: cred_delete_def cred_load_def split: option.splits)

lemma cred_delete_revision [simp]:
  "cst_next_revision (fst (cred_delete s k)) = cst_next_revision s"
  by (simp add: cred_delete_def split: option.splits)

text \<open>The model installs under the registry's own key, with the digest of its identity.\<close>

definition install_credential ::
  "digest \<Rightarrow> cred_store \<Rightarrow> registry_key \<Rightarrow> string \<times> string \<times> credential \<Rightarrow> cred_store \<times> entry" where
  "install_credential digest s key v =
     (case v of (ak, sk, c) \<Rightarrow>
        cred_apply digest s
          \<lparr>rc_region = key_region key, rc_instance = key_instance key,
           rc_access_key_id = ak, rc_access_key_secret = sk, rc_domains = []\<rparr> c)"

interpretation creds: credential_keeper cred_load "install_credential digest"
  "\<lambda>s k. fst (cred_delete s k)" "\<lambda>e. unat (en_revision e)" used_revisions revision_room
  for digest
proof
  fix s s' :: cred_store and k k' :: registry_key and v :: "string \<times> string \<times> credential" and e
  assume "install_credential digest s k v = (s', e)"
  then obtain ak sk c where app: "cred_apply digest s
      \<lparr>rc_region = key_region k, rc_instance = key_instance k, rc_access_key_id = ak,
       rc_access_key_secret = sk, rc_domains = []\<rparr> c = (s', e)"
    by (cases v) (auto simp: install_credential_def)
  note facts = cred_apply_facts [OF app]
  show "cred_load s' k' = (if k' = k then Some e else cred_load s k')"
    using facts(1) by (simp add: config_key_def)
  show "unat (en_revision e) \<notin> used_revisions s
      \<and> used_revisions s' = insert (unat (en_revision e)) (used_revisions s)" if "revision_room s"
    using facts(4,5) next_revision [OF that] by (auto simp: used_revisions_def)
qed (simp_all add: cred_load_delete used_revisions_def)

text \<open>
  The domains play no part in the entry, so installing for any registry is such a step.
\<close>

lemma cred_apply_install:
  "cred_apply digest s r c =
     install_credential digest s (config_key r) (rc_access_key_id r, rc_access_key_secret r, c)"
  by (simp add: cred_apply_def install_credential_def registry_authentication_hash_def
      auth_input_of_def config_key_def)

abbreviation revisions_ok :: "cred_store \<Rightarrow> bool" where
  "revisions_ok \<equiv> credential_keeper.revisions_ok cred_load (\<lambda>e. unat (en_revision e)) used_revisions"

lemma revisions_ok_apply:
  "revisions_ok s \<Longrightarrow> revision_room s \<Longrightarrow> cred_apply digest s r c = (s', e) \<Longrightarrow> revisions_ok s'"
  unfolding cred_apply_install by (rule creds.revisions_ok_install)

lemma revisions_ok_delete: "revisions_ok s \<Longrightarrow> revisions_ok (fst (cred_delete s k))"
  by (rule creds.revisions_ok_remove)

end
