(* ===== verification/Json.thy ===== *)
theory Json
  imports CredentialStore
begin

text \<open>
  What the program uses of \<open>encoding/json\<close>, \<open>time\<close> and \<open>crypto/sha256\<close>: a document is
  a tree, its members in the order of the text; \<open>json.Marshal\<close> and the scanner of
  \<open>json.Unmarshal\<close>, the formatting of a time and the hash are the fields of a \<open>codec\<close>. How
  a tree is stored into a Go value (names matched with case folding, \<open>null\<close> leaving a value
  as it is, a value of the wrong kind reported while the rest is still decoded) is written out.
\<close>

datatype json =
    JNull
  | JBool bool
  | JInt int
  | JNum string
  | JStr string
  | JArr "json list"
  | JObj "(string \<times> json) list"

text \<open>A time with its zone offset in seconds.\<close>

record stamp =
  ts_instant :: instant
  ts_offset :: int

definition utc :: "instant \<Rightarrow> stamp" where
  "utc t = \<lparr>ts_instant = t, ts_offset = 0\<rparr>"

record codec =
  cd_text :: "json \<Rightarrow> string"
  cd_tree :: "string \<Rightarrow> json option"
  cd_format_time :: "stamp \<Rightarrow> string"
  cd_parse_time :: "string \<Rightarrow> stamp option"
  cd_sha256_hex :: "string \<Rightarrow> string"

text \<open>\<open>Time.MarshalJSON\<close> fails on a year that does not have four digits.\<close>

definition year_ok :: "stamp \<Rightarrow> bool" where
  "year_ok t \<longleftrightarrow>
     - 62167219200 * second \<le> ts_instant t + ts_offset t * second
     \<and> ts_instant t + ts_offset t * second < 253402300800 * second"

definition marshal_time :: "codec \<Rightarrow> stamp \<Rightarrow> json option" where
  "marshal_time cd t = (if year_ok t then Some (JStr (cd_format_time cd t)) else None)"

text \<open>
  Field names match with case folding: ASCII letters, the long s (C5 BF) and the Kelvin sign
  (E2 84 AA); no other letter folds to an ASCII one.
\<close>

fun fold_name :: "string \<Rightarrow> string" where
  "fold_name [] = []"
| "fold_name (c # cs) =
     (if starts_with [CHR 0xC5, CHR 0xBF] (c # cs) then CHR ''s'' # fold_name (drop 1 cs)
      else if starts_with [CHR 0xE2, CHR 0x84, CHR 0xAA] (c # cs)
      then CHR ''k'' # fold_name (drop 2 cs)
      else lower_ascii c # fold_name cs)"

declare fold_name.simps [simp del]

text \<open>
  Decoding into a struct: \<open>step\<close> stores one member; the flag is cleared by the first error
  that does not stop the decoder.
\<close>

definition decode_struct ::
  "(string \<Rightarrow> json \<Rightarrow> 'a \<times> bool \<Rightarrow> 'a \<times> bool) \<Rightarrow> 'a \<Rightarrow> json \<Rightarrow> 'a \<times> bool" where
  "decode_struct step zero j =
     (case j of
        JNull \<Rightarrow> (zero, True)
      | JObj members \<Rightarrow> fold (\<lambda>(name, v). step (fold_name name) v) members (zero, True)
      | _ \<Rightarrow> (zero, False))"

text \<open>A field of type \<open>map[string]json.RawMessage\<close>; \<open>None\<close> is the nil map.\<close>

definition decode_raw_map ::
  "json \<Rightarrow> (string, json) gomap option \<Rightarrow> (string, json) gomap option \<times> bool" where
  "decode_raw_map j previous =
     (case j of
        JNull \<Rightarrow> (None, True)
      | JObj members \<Rightarrow>
          (Some (fold (\<lambda>(k, v). gm_put k v) members
             (case previous of None \<Rightarrow> [] | Some m \<Rightarrow> m)), True)
      | _ \<Rightarrow> (previous, False))"

definition decode_string :: "json \<Rightarrow> string \<Rightarrow> string \<times> bool" where
  "decode_string j previous =
     (case j of JNull \<Rightarrow> (previous, True) | JStr s \<Rightarrow> (s, True) | _ \<Rightarrow> (previous, False))"

definition decode_int :: "json \<Rightarrow> int \<Rightarrow> int \<times> bool" where
  "decode_int j previous =
     (case j of
        JNull \<Rightarrow> (previous, True)
      | JInt n \<Rightarrow> if min_int64 \<le> n \<and> n \<le> max_int64 then (n, True) else (previous, False)
      | _ \<Rightarrow> (previous, False))"

definition decode_time :: "codec \<Rightarrow> json \<Rightarrow> stamp \<Rightarrow> stamp option" where
  "decode_time cd j previous =
     (case j of
        JNull \<Rightarrow> Some previous
      | JStr s \<Rightarrow> cd_parse_time cd s
      | _ \<Rightarrow> None)"

section \<open>Laws of the codec\<close>

text \<open>
  The documented behaviour the proofs rely on: a marshalled document of well-formed strings
  is read back as it was, the empty text is no document, a formatted time is parsed back.
\<close>

definition reads_back :: "codec \<Rightarrow> json \<Rightarrow> bool" where
  "reads_back cd j \<longleftrightarrow> cd_tree cd (cd_text cd j) = Some j"

definition times_read_back :: "codec \<Rightarrow> bool" where
  "times_read_back cd \<longleftrightarrow> (\<forall>t. year_ok t \<longrightarrow> cd_parse_time cd (cd_format_time cd t) = Some t)"

section \<open>The authentication digest\<close>

text \<open>\<open>registryAuthenticationHash\<close>: the digest of the store, computed with the codec.\<close>

definition codec_digest :: "codec \<Rightarrow> digest" where
  "codec_digest cd ai =
     cd_sha256_hex cd (cd_text cd (JObj
       [(''regionID'', JStr (ai_region ai)), (''instanceID'', JStr (ai_instance ai)),
        (''accessKeyID'', JStr (ai_access_key_id ai)),
        (''accessKeySecret'', JStr (ai_access_key_secret ai))]))"

end
