(* ===== verification/SecretBuilder.thy ===== *)
theory SecretBuilder
  imports Json SnapshotInvariant
begin

text \<open>
  \<open>internal/registrysecret/builder.go\<close>: the Docker config and the registry state that the
  managed Secret carries, built from one configuration, the credentials and the existing
  Secret. A Kubernetes Secret is the record of the fields the code reads or writes. The order
  in which the loop over the registries visits its map is the order of the association list;
  the two loops over the raw entries of the existing Secret visit them as a \<open>visit_order\<close> says.
\<close>

section \<open>Documents\<close>

definition state_version :: int where "state_version = 1"
definition state_annotation_key :: string where
  "state_annotation_key = ''registry-secret-controller.io/state''"
definition application_name_label_key :: string where
  "application_name_label_key = ''app.kubernetes.io/name''"
definition managed_by_label_key :: string where
  "managed_by_label_key = ''app.kubernetes.io/managed-by''"
definition controller_identity :: string where
  "controller_identity = ''kubernetes-registry-secret-controller''"

definition docker_config_json_key :: string where "docker_config_json_key = ''.dockerconfigjson''"
definition secret_type_docker_config_json :: string where
  "secret_type_docker_config_json = ''kubernetes.io/dockerconfigjson''"

record secret =
  se_namespace :: string
  se_name :: string
  se_uid :: string
  se_resource_version :: string
  se_deleting :: bool
  se_type :: string
  se_data :: "(string, string) gomap"
  se_labels :: "(string, string) gomap"
  se_annotations :: "(string, string) gomap"

record docker_auth =
  da_username :: string
  da_password :: string
  da_auth :: string

record docker_config =
  dc_auths :: "(string, docker_auth) gomap"

record registry_state =
  rs_refreshed_at :: stamp
  rs_expires_at :: stamp
  rs_state_hash :: string

record persisted_state =
  ps_version :: int
  ps_registries :: "(string, registry_state) gomap"

record content =
  ct_docker_json :: string
  ct_state_json :: string
  ct_has_auth :: bool

definition empty_content :: content where
  "empty_content = \<lparr>ct_docker_json = [], ct_state_json = [], ct_has_auth = False\<rparr>"

definition has_auth :: "content \<Rightarrow> bool" where
  "has_auth c = ct_has_auth c"

datatype build_error =
    Docker_Config_Invalid
  | Auth_Entry_Invalid
  | State_Invalid
  | State_Entry_Invalid
  | Auth_Without_State registry_key
  | Incomplete_State registry_key
  | Invalid_Existing_Auth registry_key string
  | Marshal_State

section \<open>Rendering\<close>

definition encoded_auth :: "string \<Rightarrow> string \<Rightarrow> string" where
  "encoded_auth username password = base64_encode (username @ '':'' @ password)"

definition state_hash :: "codec \<Rightarrow> registry_config \<Rightarrow> credential \<Rightarrow> string" where
  "state_hash cd registry value =
     ''sha256:'' @ cd_sha256_hex cd (cd_text cd (JObj
       [(''regionID'', JStr (rc_region registry)), (''instanceID'', JStr (rc_instance registry)),
        (''accessKeyID'', JStr (rc_access_key_id registry)),
        (''accessKeySecret'', JStr (rc_access_key_secret registry)),
        (''domains'', if rc_domains registry = [] then JNull
                      else JArr (map JStr (rc_domains registry))),
        (''username'', JStr (cr_username value)), (''password'', JStr (cr_password value)),
        (''refreshedAt'', JStr (cd_format_time cd (utc (cr_refreshed_at value)))),
        (''expiresAt'', JStr (cd_format_time cd (utc (cr_expires_at value))))]))"

definition docker_auth_of :: "credential \<Rightarrow> docker_auth" where
  "docker_auth_of value =
     \<lparr>da_username = cr_username value, da_password = cr_password value,
      da_auth = encoded_auth (cr_username value) (cr_password value)\<rparr>"

definition registry_state_of :: "codec \<Rightarrow> registry_config \<Rightarrow> credential \<Rightarrow> registry_state" where
  "registry_state_of cd registry value =
     \<lparr>rs_refreshed_at = utc (cr_refreshed_at value), rs_expires_at = utc (cr_expires_at value),
      rs_state_hash = state_hash cd registry value\<rparr>"

definition add_credential ::
  "codec \<Rightarrow> registry_config \<Rightarrow> credential \<Rightarrow> docker_config \<times> persisted_state
     \<Rightarrow> docker_config \<times> persisted_state" where
  "add_credential cd registry value docs =
     (case docs of (docker, state) \<Rightarrow>
        (docker\<lparr>dc_auths := fold (\<lambda>domain. gm_put domain (docker_auth_of value))
            (rc_domains registry) (dc_auths docker)\<rparr>,
         state\<lparr>ps_registries := gm_put (key_string (config_key registry))
            (registry_state_of cd registry value) (ps_registries state)\<rparr>))"

text \<open>\<open>json.Marshal\<close> of the two documents: map keys in order.\<close>

definition auth_json :: "docker_auth \<Rightarrow> json" where
  "auth_json a =
     JObj [(''username'', JStr (da_username a)), (''password'', JStr (da_password a)),
           (''auth'', JStr (da_auth a))]"

definition docker_json :: "docker_config \<Rightarrow> json" where
  "docker_json docker =
     JObj [(''auths'', JObj (map (\<lambda>(domain, a). (domain, auth_json a)) (gm_sorted (dc_auths docker))))]"

definition state_entry_json :: "codec \<Rightarrow> registry_state \<Rightarrow> json option" where
  "state_entry_json cd rs =
     (case (marshal_time cd (rs_refreshed_at rs), marshal_time cd (rs_expires_at rs)) of
        (Some refreshed, Some expires) \<Rightarrow>
          Some (JObj [(''refreshedAt'', refreshed), (''expiresAt'', expires),
                      (''stateHash'', JStr (rs_state_hash rs))])
      | _ \<Rightarrow> None)"

fun state_entries_json ::
  "codec \<Rightarrow> (string \<times> registry_state) list \<Rightarrow> (string \<times> json) list option" where
  "state_entries_json cd [] = Some []"
| "state_entries_json cd ((key, rs) # rest) =
     (case state_entry_json cd rs of
        None \<Rightarrow> None
      | Some j \<Rightarrow>
          (case state_entries_json cd rest of None \<Rightarrow> None | Some js \<Rightarrow> Some ((key, j) # js)))"

definition state_json :: "codec \<Rightarrow> persisted_state \<Rightarrow> json option" where
  "state_json cd state =
     (case state_entries_json cd (gm_sorted (ps_registries state)) of
        None \<Rightarrow> None
      | Some entries \<Rightarrow>
          Some (JObj [(''version'', JInt (ps_version state)), (''registries'', JObj entries)]))"

section \<open>Reading the existing Secret\<close>

definition decode_auth :: "json \<Rightarrow> docker_auth \<times> bool" where
  "decode_auth =
     decode_struct (\<lambda>name v (a, ok).
         if name = ''username'' then
           (case decode_string v (da_username a) of (s, good) \<Rightarrow> (a\<lparr>da_username := s\<rparr>, ok \<and> good))
         else if name = ''password'' then
           (case decode_string v (da_password a) of (s, good) \<Rightarrow> (a\<lparr>da_password := s\<rparr>, ok \<and> good))
         else if name = ''auth'' then
           (case decode_string v (da_auth a) of (s, good) \<Rightarrow> (a\<lparr>da_auth := s\<rparr>, ok \<and> good))
         else (a, ok))
       \<lparr>da_username = [], da_password = [], da_auth = []\<rparr>"

definition zero_state :: registry_state where
  "zero_state =
     \<lparr>rs_refreshed_at = utc zero_time, rs_expires_at = utc zero_time, rs_state_hash = []\<rparr>"

text \<open>A time that does not parse stops the decoder; what was stored before it stays.\<close>

fun decode_state_members ::
  "codec \<Rightarrow> (string \<times> json) list \<Rightarrow> registry_state \<times> bool \<Rightarrow> registry_state \<times> bool" where
  "decode_state_members cd [] st = st"
| "decode_state_members cd ((name, v) # rest) (rs, ok) =
     (if fold_name name = ''refreshedat'' then
        (case decode_time cd v (rs_refreshed_at rs) of
           None \<Rightarrow> (rs, False)
         | Some t \<Rightarrow> decode_state_members cd rest (rs\<lparr>rs_refreshed_at := t\<rparr>, ok))
      else if fold_name name = ''expiresat'' then
        (case decode_time cd v (rs_expires_at rs) of
           None \<Rightarrow> (rs, False)
         | Some t \<Rightarrow> decode_state_members cd rest (rs\<lparr>rs_expires_at := t\<rparr>, ok))
      else if fold_name name = ''statehash'' then
        (case decode_string v (rs_state_hash rs) of
           (s, good) \<Rightarrow> decode_state_members cd rest (rs\<lparr>rs_state_hash := s\<rparr>, ok \<and> good))
      else decode_state_members cd rest (rs, ok))"

definition decode_state_entry :: "codec \<Rightarrow> json \<Rightarrow> registry_state \<times> bool" where
  "decode_state_entry cd j =
     (case j of
        JNull \<Rightarrow> (zero_state, True)
      | JObj members \<Rightarrow> decode_state_members cd members (zero_state, True)
      | _ \<Rightarrow> (zero_state, False))"

text \<open>The envelopes, shared with \<open>Inspect\<close>: the raw entries, if the envelope decodes.\<close>

definition decode_docker_envelope :: "json \<Rightarrow> (string, json) gomap option \<times> bool" where
  "decode_docker_envelope =
     decode_struct (\<lambda>name v (auths, ok).
         if name = ''auths''
         then (case decode_raw_map v auths of (m, good) \<Rightarrow> (m, ok \<and> good))
         else (auths, ok)) None"

definition decode_state_envelope :: "json \<Rightarrow> (int \<times> (string, json) gomap option) \<times> bool" where
  "decode_state_envelope =
     decode_struct (\<lambda>name v ((version, regs), ok).
         if name = ''version''
         then (case decode_int v version of (n, good) \<Rightarrow> ((n, regs), ok \<and> good))
         else if name = ''registries''
         then (case decode_raw_map v regs of (m, good) \<Rightarrow> ((version, m), ok \<and> good))
         else ((version, regs), ok)) (0, None)"

definition unmarshal :: "codec \<Rightarrow> (json \<Rightarrow> 'a \<times> bool) \<Rightarrow> 'a \<Rightarrow> string \<Rightarrow> 'a \<times> bool" where
  "unmarshal cd decode zero text =
     (case cd_tree cd text of None \<Rightarrow> (zero, False) | Some j \<Rightarrow> decode j)"

text \<open>One entry of a range loop over raw entries: keep it, or note a problem.\<close>

definition collect_entry ::
  "(json \<Rightarrow> 'a \<times> bool) \<Rightarrow> build_error \<Rightarrow> string \<times> json
     \<Rightarrow> (string, 'a) gomap \<times> build_error list \<Rightarrow> (string, 'a) gomap \<times> build_error list" where
  "collect_entry decode problem entry st =
     (case (entry, st) of ((key, raw), (m, problems)) \<Rightarrow>
        (case decode raw of
           (value, True) \<Rightarrow> (gm_put key value m, problems)
         | (_, False) \<Rightarrow> (m, problems @ [problem])))"

text \<open>
  Go leaves open in which order a range loop visits a map, and may choose another one each
  time: a \<open>visit_order\<close> is the choice of one execution for the two loops below.
\<close>

type_synonym raw_map = "(string, json) gomap"

record visit_order =
  vo_auths :: "raw_map \<Rightarrow> raw_map"
  vo_registries :: "raw_map \<Rightarrow> raw_map"

definition as_stored :: visit_order where
  "as_stored = \<lparr>vo_auths = (\<lambda>raw. raw), vo_registries = (\<lambda>raw. raw)\<rparr>"

definition existing_auths ::
  "visit_order \<Rightarrow> codec \<Rightarrow> secret \<Rightarrow> (string, docker_auth) gomap \<times> build_error list" where
  "existing_auths vo cd s =
     (case unmarshal cd decode_docker_envelope None
             (gm_get0 [] (se_data s) docker_config_json_key) of
        (Some raw, True) \<Rightarrow>
          fold (collect_entry decode_auth Auth_Entry_Invalid) (vo_auths vo raw) ([], [])
      | _ \<Rightarrow> ([], [Docker_Config_Invalid]))"

definition existing_states ::
  "visit_order \<Rightarrow> codec \<Rightarrow> secret \<Rightarrow> build_error list
     \<Rightarrow> (string, registry_state) gomap \<times> build_error list" where
  "existing_states vo cd s problems =
     (case unmarshal cd decode_state_envelope (0, None)
             (gm_get0 [] (se_annotations s) state_annotation_key) of
        ((version, Some raw), True) \<Rightarrow>
          if version \<noteq> state_version then ([], problems @ [State_Invalid])
          else fold (collect_entry (decode_state_entry cd) State_Entry_Invalid)
                 (vo_registries vo raw) ([], problems)
      | _ \<Rightarrow> ([], problems @ [State_Invalid]))"

definition parse_existing_visiting ::
  "visit_order \<Rightarrow> codec \<Rightarrow> secret
     \<Rightarrow> docker_config \<times> persisted_state \<times> bool \<times> build_error list" where
  "parse_existing_visiting vo cd s =
     (if gm_get (se_data s) docker_config_json_key = None
         \<and> gm_get (se_annotations s) state_annotation_key = None
      then (\<lparr>dc_auths = []\<rparr>, \<lparr>ps_version = 0, ps_registries = []\<rparr>, False, [])
      else
        (case existing_auths vo cd s of (auths, problems) \<Rightarrow>
           (case existing_states vo cd s problems of (states, problems') \<Rightarrow>
              (\<lparr>dc_auths = auths\<rparr>, \<lparr>ps_version = state_version, ps_registries = states\<rparr>,
               True, problems'))))"

text \<open>The execution that visits the raw entries as they are stored.\<close>

definition parse_existing ::
  "codec \<Rightarrow> secret \<Rightarrow> docker_config \<times> persisted_state \<times> bool \<times> build_error list" where
  "parse_existing cd s = parse_existing_visiting as_stored cd s"

section \<open>Retention\<close>

definition state_usable :: "registry_state \<Rightarrow> bool" where
  "state_usable rs \<longleftrightarrow>
     \<not> time_is_zero (ts_instant (rs_refreshed_at rs))
     \<and> ts_instant (rs_expires_at rs) > ts_instant (rs_refreshed_at rs)
     \<and> rs_state_hash rs \<noteq> []"

definition auth_valid :: "docker_auth \<Rightarrow> bool" where
  "auth_valid a \<longleftrightarrow> da_username a \<noteq> [] \<and> da_password a \<noteq> []
     \<and> da_auth a = encoded_auth (da_username a) (da_password a)"

text \<open>The body of the loop over the domains of a pending registry.\<close>

definition retain_domain ::
  "registry_config \<Rightarrow> docker_config \<Rightarrow> string
     \<Rightarrow> docker_config \<times> bool \<times> build_error list \<Rightarrow> docker_config \<times> bool \<times> build_error list" where
  "retain_domain registry existing domain st =
     (case st of (docker, retained, problems) \<Rightarrow>
        (case gm_get (dc_auths existing) domain of
           None \<Rightarrow> (docker, retained, problems)
         | Some a \<Rightarrow>
             if \<not> auth_valid a
             then (docker, retained, problems @ [Invalid_Existing_Auth (config_key registry) domain])
             else (docker\<lparr>dc_auths := gm_put domain a (dc_auths docker)\<rparr>, True, problems)))"

definition retain_pending ::
  "registry_config \<Rightarrow> docker_config \<Rightarrow> persisted_state \<Rightarrow> docker_config \<times> persisted_state
     \<Rightarrow> (docker_config \<times> persisted_state) \<times> build_error list" where
  "retain_pending registry existing_docker existing_state docs =
     (let key = key_string (config_key registry);
          has_any_auth = list_ex (\<lambda>domain. gm_get (dc_auths existing_docker) domain \<noteq> None)
            (rc_domains registry)
      in case gm_get (ps_registries existing_state) key of
           None \<Rightarrow>
             if \<not> has_any_auth then (docs, [])
             else (docs, [Auth_Without_State (config_key registry)])
         | Some rs \<Rightarrow>
             if \<not> state_usable rs then (docs, [Incomplete_State (config_key registry)])
             else
               (case docs of (docker, state) \<Rightarrow>
                  (case fold (retain_domain registry existing_docker) (rc_domains registry)
                          (docker, False, []) of
                     (docker', retained, problems) \<Rightarrow>
                       ((docker',
                         if retained
                         then state\<lparr>ps_registries := gm_put key rs (ps_registries state)\<rparr>
                         else state), problems))))"

section \<open>Build\<close>

definition build_registry ::
  "codec \<Rightarrow> (registry_key, entry) gomap \<Rightarrow> registry_key \<times> registry_config
     \<Rightarrow> (docker_config \<times> persisted_state) \<times> registry_config list
     \<Rightarrow> (docker_config \<times> persisted_state) \<times> registry_config list" where
  "build_registry cd credentials item st =
     (case (item, st) of ((key, registry), (docs, pending)) \<Rightarrow>
        (case gm_get credentials key of
           None \<Rightarrow> (docs, pending @ [registry])
         | Some e \<Rightarrow>
             if matches_registry (codec_digest cd) e registry
             then (add_credential cd registry (en_credential e) docs, pending)
             else (docs, pending @ [registry])))"

definition retain_step ::
  "docker_config \<Rightarrow> persisted_state \<Rightarrow> registry_config
     \<Rightarrow> (docker_config \<times> persisted_state) \<times> build_error list
     \<Rightarrow> (docker_config \<times> persisted_state) \<times> build_error list" where
  "retain_step existing_docker existing_state registry st =
     (case st of (docs, problems) \<Rightarrow>
        (case retain_pending registry existing_docker existing_state docs of
           (docs', added) \<Rightarrow> (docs', problems @ added)))"

definition empty_documents :: "docker_config \<times> persisted_state" where
  "empty_documents =
     (\<lparr>dc_auths = []\<rparr>, \<lparr>ps_version = state_version, ps_registries = []\<rparr>)"

text \<open>\<open>Build\<close> up to the marshalling: the documents and the retention errors.\<close>

definition build_documents_visiting ::
  "visit_order \<Rightarrow> codec \<Rightarrow> configuration_snapshot \<Rightarrow> (registry_key, entry) gomap \<Rightarrow> secret option
     \<Rightarrow> (docker_config \<times> persisted_state) \<times> build_error list" where
  "build_documents_visiting vo cd snapshot credentials existing =
     (case fold (build_registry cd credentials) (cs_registries snapshot) (empty_documents, []) of
        (docs, pending) \<Rightarrow>
          (case existing of
             None \<Rightarrow> (docs, [])
           | Some s \<Rightarrow>
               if pending = [] then (docs, [])
               else (case parse_existing_visiting vo cd s of
                   (existing_docker, existing_state, present, problems) \<Rightarrow>
                     if present
                     then fold (retain_step existing_docker existing_state) pending (docs, problems)
                     else (docs, problems))))"

definition build_documents ::
  "codec \<Rightarrow> configuration_snapshot \<Rightarrow> (registry_key, entry) gomap \<Rightarrow> secret option
     \<Rightarrow> (docker_config \<times> persisted_state) \<times> build_error list" where
  "build_documents cd snapshot credentials existing =
     build_documents_visiting as_stored cd snapshot credentials existing"

definition render ::
  "codec \<Rightarrow> (docker_config \<times> persisted_state) \<times> build_error list \<Rightarrow> content \<times> build_error list" where
  "render cd built =
     (case built of ((docker, state), problems) \<Rightarrow>
        (case state_json cd state of
           None \<Rightarrow> (empty_content, [Marshal_State])
         | Some j \<Rightarrow>
             (\<lparr>ct_docker_json = cd_text cd (docker_json docker), ct_state_json = cd_text cd j,
               ct_has_auth = dc_auths docker \<noteq> []\<rparr>, problems)))"

definition build_visiting ::
  "visit_order \<Rightarrow> codec \<Rightarrow> configuration_snapshot \<Rightarrow> (registry_key, entry) gomap \<Rightarrow> secret option
     \<Rightarrow> content \<times> build_error list" where
  "build_visiting vo cd snapshot credentials existing =
     render cd (build_documents_visiting vo cd snapshot credentials existing)"

definition build ::
  "codec \<Rightarrow> configuration_snapshot \<Rightarrow> (registry_key, entry) gomap \<Rightarrow> secret option
     \<Rightarrow> content \<times> build_error list" where
  "build cd snapshot credentials existing = build_visiting as_stored cd snapshot credentials existing"

text \<open>The equations of these instances, for the proofs that fix the order of the visits.\<close>

lemma as_stored_simps [simp]: "vo_auths as_stored raw = raw" "vo_registries as_stored raw = raw"
  by (simp_all add: as_stored_def)

lemmas parse_existing_unfold = parse_existing_def parse_existing_visiting_def existing_auths_def
  existing_states_def

lemma build_documents_unfold:
  "build_documents cd snapshot credentials existing =
     (case fold (build_registry cd credentials) (cs_registries snapshot) (empty_documents, []) of
        (docs, pending) \<Rightarrow>
          (case existing of
             None \<Rightarrow> (docs, [])
           | Some s \<Rightarrow>
               if pending = [] then (docs, [])
               else (case parse_existing cd s of
                   (existing_docker, existing_state, present, problems) \<Rightarrow>
                     if present
                     then fold (retain_step existing_docker existing_state) pending (docs, problems)
                     else (docs, problems))))"
  unfolding build_documents_def build_documents_visiting_def parse_existing_def ..

lemma build_unfold: "build cd snapshot credentials existing =
    render cd (build_documents cd snapshot credentials existing)"
  by (simp add: build_def build_visiting_def build_documents_def)

end
