(* ===== verification/TokenProviders.thy ===== *)
theory TokenProviders
  imports CredentialStore
begin

text \<open>
  The token providers: \<open>internal/credential/acr_provider.go\<close> over the ACR SDK, whose
  client is an argument of the model, and the mock provider of
  \<open>cmd/e2e-controller/main.go\<close>. The interface \<open>TokenProvider\<close> of
  \<open>internal/credential/types.go\<close> is the locale \<open>token_provider\<close>; both providers satisfy it.
\<close>

section \<open>The ACR provider\<close>

definition authorization_token_validity_hours :: int where
  "authorization_token_validity_hours = 1"

text \<open>
  An error of the SDK client, by what \<open>errors.Is\<close> and \<open>errors.As\<close> find in its chain: the
  end of the request's context, an \<open>SDKError\<close> with the fields the code reads and its message,
  or anything else.
\<close>

datatype client_error =
    Context_Canceled
  | Context_Deadline_Exceeded
  | SDK_Error "int option" "string option" string
  | Other_Error string

record acr_body =
  ab_is_success :: "bool option"
  ab_code :: "string option"
  ab_temp_username :: "string option"
  ab_authorization_token :: "string option"
  ab_expire_time :: "int option"

record acr_response =
  ar_status_code :: "int option"
  ar_body :: "acr_body option"

datatype provider_error =
    Empty_Registry_Identity
  | Empty_Access_Key
  | Client_Creation_Failed
  | Request_Ended client_error
  | Request_Failed_Status int string
  | Request_Failed
  | Empty_Response
  | Response_Status int
  | Empty_Body
  | Unsuccessful string
  | Empty_Username
  | Empty_Token
  | Invalid_Expiration
  | Intentional_Mock_Failure

text \<open>\<open>code := "unknown"; if p != nil && *p != "" { code = *p }\<close>\<close>

definition code_or_unknown :: "string option \<Rightarrow> string" where
  "code_or_unknown c = (case c of Some v \<Rightarrow> (if v \<noteq> [] then v else ''unknown'') | None \<Rightarrow> ''unknown'')"

definition safe_acr_request_error :: "client_error \<Rightarrow> provider_error" where
  "safe_acr_request_error err =
     (case err of
        Context_Canceled \<Rightarrow> Request_Ended err
      | Context_Deadline_Exceeded \<Rightarrow> Request_Ended err
      | SDK_Error status_code code message \<Rightarrow>
          Request_Failed_Status (case status_code of Some v \<Rightarrow> v | None \<Rightarrow> 0) (code_or_unknown code)
      | Other_Error _ \<Rightarrow> Request_Failed)"

text \<open>\<open>time.UnixMilli\<close>\<close>

definition unix_milli :: "int \<Rightarrow> instant" where
  "unix_milli ms = ms * 1000000"

definition token_from_acr_body :: "acr_body option \<Rightarrow> (provider_error, token) result" where
  "token_from_acr_body response_body =
     (case response_body of
        None \<Rightarrow> Inl Empty_Body
      | Some body \<Rightarrow>
          if ab_is_success body \<noteq> Some True
          then Inl (Unsuccessful (code_or_unknown (ab_code body)))
          else (case ab_temp_username body of
              None \<Rightarrow> Inl Empty_Username
            | Some username \<Rightarrow>
                if trim_space username = [] then Inl Empty_Username
                else (case ab_authorization_token body of
                    None \<Rightarrow> Inl Empty_Token
                  | Some password \<Rightarrow>
                      if password = [] then Inl Empty_Token
                      else (case ab_expire_time body of
                          None \<Rightarrow> Inl Invalid_Expiration
                        | Some ms \<Rightarrow>
                            if ms \<le> 0 then Inl Invalid_Expiration
                            else Inr \<lparr>tk_username = username, tk_password = password,
                                      tk_expires_at = unix_milli ms\<rparr>))))"

definition token_from_acr_response :: "acr_response option \<Rightarrow> (provider_error, token) result" where
  "token_from_acr_response response =
     (case response of
        None \<Rightarrow> Inl Empty_Response
      | Some r \<Rightarrow>
          (case ar_status_code r of
             Some code \<Rightarrow>
               if code < 200 \<or> code \<ge> 300 then Inl (Response_Status code)
               else token_from_acr_body (ar_body r)
           | None \<Rightarrow> token_from_acr_body (ar_body r)))"

text \<open>
  \<open>GetAuthorizationToken\<close>: \<open>new_client\<close> is the SDK's client constructor, \<open>invoke\<close> the SDK
  call with the instance and the validity in hours; both read what the outside world answers.
\<close>

record ('c, 'w) acr_env =
  ae_new_client :: "'w \<Rightarrow> request \<Rightarrow> 'c option"
  ae_invoke :: "'w \<Rightarrow> 'c \<Rightarrow> string \<Rightarrow> int \<Rightarrow> (client_error, acr_response option) result \<times> 'w"

definition acr_get_authorization_token ::
  "('c, 'w) acr_env \<Rightarrow> 'w \<Rightarrow> request \<Rightarrow> (provider_error, token) result \<times> 'w" where
  "acr_get_authorization_token env world rq =
     (if key_region (rq_key rq) = [] \<or> key_instance (rq_key rq) = []
      then (Inl Empty_Registry_Identity, world)
      else if rq_access_key_id rq = [] \<or> rq_access_key_secret rq = []
      then (Inl Empty_Access_Key, world)
      else (case ae_new_client env world rq of
          None \<Rightarrow> (Inl Client_Creation_Failed, world)
        | Some client \<Rightarrow>
            (case ae_invoke env world client (key_instance (rq_key rq))
                    authorization_token_validity_hours of
               (Inl err, world') \<Rightarrow> (Inl (safe_acr_request_error err), world')
             | (Inr response, world') \<Rightarrow> (token_from_acr_response response, world'))))"

text \<open>The conditions a response meets exactly when it gives a token.\<close>

definition good_response :: "acr_response \<Rightarrow> bool" where
  "good_response r \<longleftrightarrow>
     (case ar_status_code r of None \<Rightarrow> True | Some code \<Rightarrow> code div 100 = 2) \<and>
     (case ar_body r of
        None \<Rightarrow> False
      | Some b \<Rightarrow> ab_is_success b = Some True
          \<and> (\<exists>u. ab_temp_username b = Some u \<and> trim_space u \<noteq> [])
          \<and> (\<exists>p. ab_authorization_token b = Some p \<and> p \<noteq> [])
          \<and> (\<exists>ms. ab_expire_time b = Some ms \<and> 0 < ms))"

lemma status_class: "(code < 200 \<or> 300 \<le> code) = (code div 100 \<noteq> (2::int))"
  by presburger

text \<open>
  The ACR provider returns a token exactly when the SDK answered with a response of
  HTTP status class 2 (or none recorded), marked successful, with a username that is not blank,
  a token that is not empty and a positive expiration; the token carries these values, the
  expiration turned from milliseconds into an instant.
\<close>

lemma token_from_acr_response_iff:
  "token_from_acr_response response = Inr t \<longleftrightarrow>
     (\<exists>r b ms. response = Some r \<and> good_response r \<and> ar_body r = Some b
        \<and> ab_temp_username b = Some (tk_username t)
        \<and> ab_authorization_token b = Some (tk_password t)
        \<and> ab_expire_time b = Some ms \<and> tk_expires_at t = ms * 1000000)"
  by (cases t)
    (auto simp: token_from_acr_response_def token_from_acr_body_def good_response_def
      unix_milli_def status_class split: option.splits if_splits)

section \<open>The mock provider of the end-to-end controller\<close>

text \<open>\<open>calls\<close> and \<open>remainingFailures\<close> are \<open>atomic.Uint64\<close> counters.\<close>

record mock_token_provider =
  mp_provider_id :: string
  mp_token_ttl :: duration
  mp_calls :: "64 word"
  mp_remaining_failures :: "64 word"

definition new_mock_token_provider :: "string \<Rightarrow> duration \<Rightarrow> 64 word \<Rightarrow> mock_token_provider" where
  "new_mock_token_provider provider_id ttl failures =
     \<lparr>mp_provider_id = provider_id, mp_token_ttl = ttl, mp_calls = 0,
      mp_remaining_failures = failures\<rparr>"

definition mock_password :: "string \<Rightarrow> 64 word \<Rightarrow> string" where
  "mock_password provider_id call = ''mock-token-'' @ provider_id @ ''-'' @ show_nat (unat call)"

text \<open>
  One call at clock reading \<open>now\<close>; \<open>ended\<close> is the error of a context that is already done.
  The compare-and-swap loop takes one failure from the counter unless it is zero.
\<close>

definition mock_get_authorization_token ::
  "mock_token_provider \<Rightarrow> client_error option \<Rightarrow> instant \<Rightarrow> request
     \<Rightarrow> (provider_error, token) result \<times> mock_token_provider" where
  "mock_get_authorization_token p ended now rq =
     (case ended of
        Some err \<Rightarrow> (Inl (Request_Ended err), p)
      | None \<Rightarrow>
          (let call = mp_calls p + 1; p1 = p\<lparr>mp_calls := call\<rparr>
           in if mp_remaining_failures p1 \<noteq> 0
              then (Inl Intentional_Mock_Failure,
                    p1\<lparr>mp_remaining_failures := mp_remaining_failures p1 - 1\<rparr>)
              else (Inr \<lparr>tk_username = ''mock-user'',
                         tk_password = mock_password (mp_provider_id p1) call,
                         tk_expires_at = now + mp_token_ttl p1\<rparr>, p1)))"

text \<open>A sequence of calls, each at its clock reading.\<close>

fun mock_calls ::
  "mock_token_provider \<Rightarrow> instant list \<Rightarrow> request \<Rightarrow> (provider_error, token) result list" where
  "mock_calls p [] rq = []"
| "mock_calls p (now # rest) rq =
     (case mock_get_authorization_token p None now rq of
        (r, p') \<Rightarrow> r # mock_calls p' rest rq)"

lemma mock_call_step:
  assumes "mock_get_authorization_token p None now rq = (r, p')"
  shows "mp_calls p' = mp_calls p + 1" "mp_provider_id p' = mp_provider_id p"
    and "mp_token_ttl p' = mp_token_ttl p"
    and "unat (mp_remaining_failures p') = unat (mp_remaining_failures p) - 1"
    and "mp_remaining_failures p \<noteq> 0 \<Longrightarrow> r = Inl Intentional_Mock_Failure"
    and "mp_remaining_failures p = 0 \<Longrightarrow>
      r = Inr \<lparr>tk_username = ''mock-user'',
               tk_password = mock_password (mp_provider_id p) (mp_calls p + 1),
               tk_expires_at = now + mp_token_ttl p\<rparr>"
  using assms
  by (auto simp: mock_get_authorization_token_def Let_def unat_minus_one split: if_splits)

lemma mock_calls_length: "length (mock_calls p nows rq) = length nows"
  by (induction p nows rq rule: mock_calls.induct) (auto split: prod.splits)

lemma mock_calls_nth:
  assumes "i < length nows" "unat (mp_calls p) + length nows < 2 ^ 64"
  shows "mock_calls p nows rq ! i =
    (if i < unat (mp_remaining_failures p) then Inl Intentional_Mock_Failure
     else Inr \<lparr>tk_username = ''mock-user'',
               tk_password = ''mock-token-'' @ mp_provider_id p @ ''-''
                 @ show_nat (unat (mp_calls p) + i + 1),
               tk_expires_at = nows ! i + mp_token_ttl p\<rparr>)"
  using assms
proof (induction nows arbitrary: p i)
  case Nil
  then show ?case by simp
next
  case (Cons now rest)
  obtain r p' where call: "mock_get_authorization_token p None now rq = (r, p')"
    by (metis surj_pair)
  note step = mock_call_step [OF call]
  have next_call: "unat (mp_calls p') = unat (mp_calls p) + 1"
    unfolding step(1) using Cons.prems(2) by (simp add: unat_word_ariths)
  show ?case
  proof (cases i)
    case 0
    then show ?thesis
      using step(5,6) next_call
      by (cases "mp_remaining_failures p = 0")
        (simp_all add: call mock_password_def step(1) unat_gt_0)
  next
    case (Suc j)
    then show ?thesis
      using Cons.IH [of j p'] Cons.prems next_call
      by (simp add: call step(2,3,4) less_diff_conv)
  qed
qed

text \<open>
  The mock provider of the end-to-end controller fails exactly the configured number of
  first calls, and from then on issues a token per call that expires after the configured
  lifetime; the passwords of two successful calls always differ, as long as there are fewer
  than 2^64 calls.
\<close>

lemma mock_provider_schedule:
  assumes "length nows < 2 ^ 64" "i < length nows"
  shows "case mock_calls (new_mock_token_provider provider_id ttl failures) nows rq ! i of
      Inl err \<Rightarrow> i < unat failures \<and> err = Intentional_Mock_Failure
    | Inr t \<Rightarrow> unat failures \<le> i \<and> tk_expires_at t = nows ! i + ttl
        \<and> tk_username t \<noteq> [] \<and> tk_password t \<noteq> []
        \<and> (\<forall>j u. j < length nows \<and> j \<noteq> i
              \<and> mock_calls (new_mock_token_provider provider_id ttl failures) nows rq ! j = Inr u
            \<longrightarrow> tk_password u \<noteq> tk_password t)"
proof -
  let ?p = "new_mock_token_provider provider_id ttl failures"
  have nth: "mock_calls ?p nows rq ! j =
      (if j < unat failures then Inl Intentional_Mock_Failure
       else Inr \<lparr>tk_username = ''mock-user'',
                 tk_password = ''mock-token-'' @ provider_id @ ''-'' @ show_nat (j + 1),
                 tk_expires_at = nows ! j + ttl\<rparr>)" if "j < length nows" for j
    using mock_calls_nth [of j nows ?p rq] that assms(1)
    by (simp add: new_mock_token_provider_def)
  show ?thesis
    using nth assms(2) by (auto simp: show_nat_inject split: if_splits)
qed

definition sample_request :: request where
  "sample_request =
     \<lparr>rq_key = RegistryKey ''cn-hangzhou'' ''cri-1'', rq_access_key_id = ''ak'',
      rq_access_key_secret = ''sk''\<rparr>"

lemma mock_provider_schedule_witness:
  "mock_calls (new_mock_token_provider ''host'' (30 * second) 1) [0, 5] sample_request ! 1 =
     Inr \<lparr>tk_username = ''mock-user'', tk_password = ''mock-token-host-2'',
          tk_expires_at = 5 + 30 * second\<rparr>
   \<and> tk_password \<lparr>tk_username = ''mock-user'', tk_password = ''mock-token-host-2'',
          tk_expires_at = 5 + 30 * second\<rparr> \<noteq> []"
proof -
  have "show_nat 2 = ''2''" by code_simp
  then have run: "mock_calls (new_mock_token_provider ''host'' (30 * second) 1) [0, 5] sample_request ! 1 =
     Inr \<lparr>tk_username = ''mock-user'', tk_password = ''mock-token-host-2'',
          tk_expires_at = 5 + 30 * second\<rparr>"
    by (simp add: new_mock_token_provider_def mock_get_authorization_token_def mock_password_def)
  show ?thesis
    using mock_provider_schedule [where nows = "[0, 5]" and i = 1 and provider_id = "''host''"
        and ttl = "30 * second" and failures = 1 and rq = sample_request] run by simp
qed

section \<open>The interface of a provider\<close>

text \<open>
  What the scheduler relies on: a token it is handed names a user and has a password. The
  state \<open>'w\<close> is the provider's own and what the world answers it.
\<close>

locale token_provider =
  fixes get :: "'w \<Rightarrow> request \<Rightarrow> ('e, token) result \<times> 'w"
  assumes get_nonempty: "get w rq = (Inr t, w') \<Longrightarrow> tk_username t \<noteq> [] \<and> tk_password t \<noteq> []"



interpretation acr: token_provider "acr_get_authorization_token env" for env
proof
  fix w w' t and rq :: request
  assume "acr_get_authorization_token env w rq = (Inr t, w')"
  then obtain response where "token_from_acr_response response = Inr t"
    by (auto simp: acr_get_authorization_token_def split: if_splits option.splits prod.splits sum.splits)
  then show "tk_username t \<noteq> [] \<and> tk_password t \<noteq> []"
    by (auto simp: token_from_acr_response_def token_from_acr_body_def trim_space_Nil
        split: option.splits if_splits)
qed

interpretation mock: token_provider "\<lambda>p. mock_get_authorization_token p ended now" for ended now
proof
  fix p p' t and rq :: request
  assume "mock_get_authorization_token p ended now rq = (Inr t, p')"
  then show "tk_username t \<noteq> [] \<and> tk_password t \<noteq> []"
    by (auto simp: mock_get_authorization_token_def Let_def mock_password_def
        split: option.splits if_splits)
qed

end
