(* ===== verification/Scheduler.thy ===== *)
theory Scheduler
  imports TokenProviders
begin

text \<open>
  \<open>internal/credential/scheduler.go\<close>: the leader's refresh scheduler. The rate-limited work
  queue of client-go, the publisher of namespace events and the clock are not part of the
  repository: a call of the queue or of the publisher is an \<open>action\<close> in the result of the
  operation that makes it, what the publisher answers and what the clock reads are arguments.
  A refresh gives up the scheduler's state while the provider is called, so it is two
  operations, \<open>refresh_begin\<close> up to the call and \<open>refresh_end\<close> from its return, which
  \<open>refresh\<close> composes around whatever the other goroutines do meanwhile.
\<close>

section \<open>Options\<close>

definition default_refresh_before :: duration where "default_refresh_before = 5 * minute"
definition default_request_timeout :: duration where "default_request_timeout = 15 * second"
definition default_worker_count :: int where "default_worker_count = 2"
definition default_retry_base_delay :: duration where "default_retry_base_delay = 5 * second"
definition default_retry_max_delay :: duration where "default_retry_max_delay = 60 * second"
definition credential_queue_name :: string where "credential_queue_name = ''registry_credentials''"

lemmas default_options =
  default_refresh_before_def default_request_timeout_def default_worker_count_def
  default_retry_base_delay_def default_retry_max_delay_def minute_def second_def

record scheduler_options =
  so_refresh_before :: duration
  so_request_timeout :: duration
  so_worker_count :: int
  so_retry_base_delay :: duration
  so_retry_max_delay :: duration

definition or_default :: "int \<Rightarrow> int \<Rightarrow> int" where
  "or_default v d = (if v = 0 then d else v)"

definition with_defaults :: "scheduler_options \<Rightarrow> scheduler_options" where
  "with_defaults opts =
     \<lparr>so_refresh_before = or_default (so_refresh_before opts) default_refresh_before,
      so_request_timeout = or_default (so_request_timeout opts) default_request_timeout,
      so_worker_count = or_default (so_worker_count opts) default_worker_count,
      so_retry_base_delay = or_default (so_retry_base_delay opts) default_retry_base_delay,
      so_retry_max_delay = or_default (so_retry_max_delay opts) default_retry_max_delay\<rparr>"

datatype options_error =
    Nil_Config_Store | Nil_Credential_Store | Nil_Provider | Nil_Publisher | Nil_Clock
  | Bad_Refresh_Before | Bad_Request_Timeout | Bad_Worker_Count | Bad_Retry_Delays

definition validate_options :: "scheduler_options \<Rightarrow> options_error option" where
  "validate_options opts =
     (if so_refresh_before opts \<le> 0 then Some Bad_Refresh_Before
      else if so_request_timeout opts \<le> 0 then Some Bad_Request_Timeout
      else if so_worker_count opts \<le> 0 then Some Bad_Worker_Count
      else if so_retry_base_delay opts \<le> 0 \<or> so_retry_max_delay opts \<le> 0
        \<or> so_retry_base_delay opts > so_retry_max_delay opts then Some Bad_Retry_Delays
      else None)"

section \<open>State\<close>

text \<open>
  The stores are shared with the configuration controller and the Secret syncer; the maps of
  revisions are guarded by \<open>stateMu\<close>; the change channel holds at most one notification.
\<close>

record scheduler =
  sc_config :: config_store
  sc_credentials :: cred_store
  sc_options :: scheduler_options
  sc_change_pending :: bool
  sc_known :: "(registry_key, registry_config) gomap"
  sc_published :: "(registry_key, 64 word) gomap"
  sc_force :: "(registry_key, 64 word) gomap"

datatype action =
    Q_Add registry_key
  | Q_Add_After registry_key duration
  | Q_Add_Rate_Limited registry_key
  | Q_Forget registry_key
  | Q_Done registry_key
  | Published_All
  | Publish_Failed_With string
  | Installed registry_key "64 word"

definition new_scheduler ::
  "config_store option \<Rightarrow> cred_store option \<Rightarrow> bool \<Rightarrow> bool \<Rightarrow> bool \<Rightarrow> scheduler_options
     \<Rightarrow> (options_error, scheduler) result" where
  "new_scheduler config credentials provider publisher clock opts =
     (case config of
        None \<Rightarrow> Inl Nil_Config_Store
      | Some cs \<Rightarrow>
          (case credentials of
             None \<Rightarrow> Inl Nil_Credential_Store
           | Some cr \<Rightarrow>
               if \<not> provider then Inl Nil_Provider
               else if \<not> publisher then Inl Nil_Publisher
               else if \<not> clock then Inl Nil_Clock
               else (case validate_options (with_defaults opts) of
                   Some err \<Rightarrow> Inl err
                 | None \<Rightarrow>
                     Inr \<lparr>sc_config = cs, sc_credentials = cr, sc_options = with_defaults opts,
                          sc_change_pending = False, sc_known = [], sc_published = [],
                          sc_force = []\<rparr>)))"

definition notify_configuration_changed :: "scheduler \<Rightarrow> scheduler" where
  "notify_configuration_changed s = s\<lparr>sc_change_pending := True\<rparr>"

definition is_published :: "scheduler \<Rightarrow> registry_key \<Rightarrow> 64 word \<Rightarrow> bool" where
  "is_published s key rv \<longleftrightarrow> gm_get0 0 (sc_published s) key = rv"

definition mark_published :: "registry_key \<Rightarrow> 64 word \<Rightarrow> scheduler \<Rightarrow> scheduler" where
  "mark_published key rv s = s\<lparr>sc_published := gm_put key rv (sc_published s)\<rparr>"

definition forget_published_revision :: "registry_key \<Rightarrow> scheduler \<Rightarrow> scheduler" where
  "forget_published_revision key s = s\<lparr>sc_published := gm_del key (sc_published s)\<rparr>"

definition current_force_refresh_revision :: "scheduler \<Rightarrow> registry_key \<Rightarrow> 64 word" where
  "current_force_refresh_revision s key = gm_get0 0 (sc_force s) key"

definition mark_force_refresh :: "registry_key \<Rightarrow> scheduler \<Rightarrow> scheduler" where
  "mark_force_refresh key s =
     s\<lparr>sc_force := gm_put key (current_force_refresh_revision s key + 1) (sc_force s)\<rparr>"

definition clear_force_refresh :: "registry_key \<Rightarrow> 64 word \<Rightarrow> scheduler \<Rightarrow> scheduler" where
  "clear_force_refresh key handled s =
     (if current_force_refresh_revision s key = handled
      then s\<lparr>sc_force := gm_del key (sc_force s)\<rparr> else s)"

definition delete_force_refresh :: "registry_key \<Rightarrow> scheduler \<Rightarrow> scheduler" where
  "delete_force_refresh key s = s\<lparr>sc_force := gm_del key (sc_force s)\<rparr>"

definition delete_credential :: "registry_key \<Rightarrow> scheduler \<Rightarrow> scheduler" where
  "delete_credential key s = s\<lparr>sc_credentials := fst (cred_delete (sc_credentials s) key)\<rparr>"

lemmas revision_ops =
  mark_published_def forget_published_revision_def mark_force_refresh_def
  clear_force_refresh_def delete_force_refresh_def delete_credential_def

definition load_registry :: "scheduler \<Rightarrow> registry_key \<Rightarrow> registry_config option" where
  "load_registry s key =
     (case store_load (sc_config s) of
        None \<Rightarrow> None
      | Some snapshot \<Rightarrow> gm_get (cs_registries snapshot) key)"

definition authentication_changed :: "registry_config \<Rightarrow> registry_config \<Rightarrow> bool" where
  "authentication_changed previous current \<longleftrightarrow>
     rc_access_key_id previous \<noteq> rc_access_key_id current
     \<or> rc_access_key_secret previous \<noteq> rc_access_key_secret current"

section \<open>Configuration changes\<close>

text \<open>The body of the first loop: \<open>acts\<close> collects the calls made so far.\<close>

definition reconcile_registry ::
  "(registry_key, registry_config) gomap \<Rightarrow> registry_key \<times> registry_config
     \<Rightarrow> scheduler \<times> action list \<Rightarrow> scheduler \<times> action list" where
  "reconcile_registry known entry st =
     (case (entry, st) of ((key, registry), (s, acts)) \<Rightarrow>
        (case gm_get known key of
           None \<Rightarrow> (s, acts @ [Q_Add key])
         | Some previous \<Rightarrow>
             if authentication_changed previous registry
             then (mark_force_refresh key s, acts @ [Q_Add key])
             else (s, acts)))"

text \<open>The body of the second loop, over the keys known before.\<close>

definition retire_registry ::
  "(registry_key, registry_config) gomap \<Rightarrow> registry_key
     \<Rightarrow> scheduler \<times> action list \<Rightarrow> scheduler \<times> action list" where
  "retire_registry registries key st =
     (case st of (s, acts) \<Rightarrow>
        (case gm_get registries key of
           Some _ \<Rightarrow> (s, acts)
         | None \<Rightarrow>
             (delete_force_refresh key (forget_published_revision key (delete_credential key s)),
              acts @ [Q_Forget key])))"

definition reconcile_configuration :: "scheduler \<Rightarrow> scheduler \<times> action list" where
  "reconcile_configuration s =
     (case store_load (sc_config s) of
        None \<Rightarrow> (s, [])
      | Some snapshot \<Rightarrow>
          (case fold (retire_registry (cs_registries snapshot)) (gm_keys (sc_known s))
                  (fold (reconcile_registry (sc_known s)) (cs_registries snapshot) (s, [])) of
             (s', acts) \<Rightarrow> (s'\<lparr>sc_known := clone_registries (cs_registries snapshot)\<rparr>, acts)))"

section \<open>Refreshing a credential\<close>

datatype token_error = Token_Empty_Username | Token_Empty_Password | Token_Expires_Soon duration

definition validate_token :: "token \<Rightarrow> instant \<Rightarrow> duration \<Rightarrow> token_error option" where
  "validate_token t now refresh_before =
     (if tk_username t = [] then Some Token_Empty_Username
      else if tk_password t = [] then Some Token_Empty_Password
      else if \<not> tk_expires_at t > now + refresh_before
      then Some (Token_Expires_Soon refresh_before)
      else None)"

datatype 'e refresh_error =
    Provider_Failed 'e
  | Publish_Failed string
  | Token_Rejected token_error

text \<open>\<open>answer\<close> is what the publisher returns if it is called: \<open>None\<close> for success.\<close>

definition publish_credential ::
  "registry_key \<Rightarrow> entry \<Rightarrow> string option \<Rightarrow> scheduler
     \<Rightarrow> scheduler \<times> action list \<times> 'e refresh_error option" where
  "publish_credential key e answer s =
     (if is_published s key (en_revision e) then (s, [], None)
      else (case answer of
          Some err \<Rightarrow> (s, [Publish_Failed_With err], Some (Publish_Failed err))
        | None \<Rightarrow> (mark_published key (en_revision e) s, [Published_All], None)))"

definition forget_key :: "registry_key \<Rightarrow> scheduler \<Rightarrow> scheduler" where
  "forget_key key s =
     delete_force_refresh key (forget_published_revision key (delete_credential key s))"

text \<open>The entry that is current and not yet inside its refresh window, with its refresh time.\<close>

definition usable_entry ::
  "digest \<Rightarrow> scheduler \<Rightarrow> registry_key \<Rightarrow> registry_config \<Rightarrow> instant \<Rightarrow> (entry \<times> instant) option" where
  "usable_entry digest s key registry now =
     (case cred_load (sc_credentials s) key of
        None \<Rightarrow> None
      | Some e \<Rightarrow>
          if matches_registry digest e registry \<and> current_force_refresh_revision s key = 0
          then (let refresh_at = cr_expires_at (en_credential e) - so_refresh_before (sc_options s)
                in if refresh_at > now then Some (e, refresh_at) else None)
          else None)"

datatype 'e begun =
    Returned "'e refresh_error option"
  | Call_Provider request registry_config "64 word"

definition refresh_begin ::
  "digest \<Rightarrow> registry_key \<Rightarrow> instant \<Rightarrow> string option \<Rightarrow> scheduler
     \<Rightarrow> scheduler \<times> action list \<times> 'e begun" where
  "refresh_begin digest key now answer s =
     (case load_registry s key of
        None \<Rightarrow> (forget_key key s, [], Returned None)
      | Some registry \<Rightarrow>
          (case usable_entry digest s key registry now of
             Some (e, refresh_at) \<Rightarrow>
               (case publish_credential key e answer s of
                  (s', acts, Some err) \<Rightarrow> (s', acts, Returned (Some err))
                | (s', acts, None) \<Rightarrow>
                    (s', acts @ [Q_Add_After key (time_sub refresh_at now)], Returned None))
           | None \<Rightarrow>
               (s, [], Call_Provider
                  \<lparr>rq_key = key, rq_access_key_id = rc_access_key_id registry,
                   rq_access_key_secret = rc_access_key_secret registry\<rparr>
                  registry (current_force_refresh_revision s key))))"

definition install_and_publish ::
  "digest \<Rightarrow> registry_key \<Rightarrow> registry_config \<Rightarrow> 64 word \<Rightarrow> token \<Rightarrow> instant \<Rightarrow> string option
     \<Rightarrow> scheduler \<Rightarrow> scheduler \<times> action list \<times> 'e refresh_error option" where
  "install_and_publish digest key current handled t now answer s =
     (case cred_apply digest (sc_credentials s) current
             \<lparr>cr_username = tk_username t, cr_password = tk_password t,
              cr_refreshed_at = now, cr_expires_at = tk_expires_at t\<rparr> of
        (creds, e) \<Rightarrow>
          (case publish_credential key e answer
                  (clear_force_refresh key handled (s\<lparr>sc_credentials := creds\<rparr>)) of
             (s', acts, Some err) \<Rightarrow> (s', Installed key (en_revision e) # acts, Some err)
           | (s', acts, None) \<Rightarrow>
               (s', Installed key (en_revision e) # acts @
                  [Q_Add_After key
                    (time_sub (tk_expires_at t - so_refresh_before (sc_options s)) now)], None)))"

definition refresh_end ::
  "digest \<Rightarrow> registry_key \<Rightarrow> registry_config \<Rightarrow> 64 word \<Rightarrow> ('e, token) result \<Rightarrow> instant
     \<Rightarrow> string option \<Rightarrow> scheduler \<Rightarrow> scheduler \<times> action list \<times> 'e refresh_error option" where
  "refresh_end digest key registry handled response now answer s =
     (case response of
        Inl err \<Rightarrow> (s, [], Some (Provider_Failed err))
      | Inr t \<Rightarrow>
          (case load_registry s key of
             None \<Rightarrow> (forget_key key s, [], None)
           | Some current \<Rightarrow>
               if authentication_changed registry current
               then (mark_force_refresh key s, [Q_Add key], None)
               else (case validate_token t now (so_refresh_before (sc_options s)) of
                   Some err \<Rightarrow> (s, [], Some (Token_Rejected err))
                 | None \<Rightarrow> install_and_publish digest key current handled t now answer s)))"

text \<open>
  One refresh by a worker: the clock is read before the call and after it, the publisher may be
  asked before it or after it, and \<open>meanwhile\<close> is what the rest of the process does to the
  shared state during the call.
\<close>

definition refresh ::
  "digest \<Rightarrow> ('w \<Rightarrow> request \<Rightarrow> ('e, token) result \<times> 'w) \<Rightarrow> registry_key \<Rightarrow> instant \<Rightarrow> instant
     \<Rightarrow> string option \<Rightarrow> (scheduler \<Rightarrow> scheduler) \<Rightarrow> 'w \<Rightarrow> scheduler
     \<Rightarrow> scheduler \<times> action list \<times> 'e refresh_error option \<times> 'w" where
  "refresh digest get key before after answer meanwhile world s =
     (case refresh_begin digest key before answer s of
        (s1, acts, Returned err) \<Rightarrow> (s1, acts, err, world)
      | (s1, acts, Call_Provider rq registry handled) \<Rightarrow>
          (case get world rq of
             (response, world') \<Rightarrow>
               (case refresh_end digest key registry handled response after answer (meanwhile s1) of
                  (s2, acts2, err) \<Rightarrow> (s2, acts @ acts2, err, world'))))"

text \<open>One turn of \<open>runWorker\<close> for a key it got from the queue; \<open>ended\<close> is \<open>ctx.Err() != nil\<close>.\<close>

definition worker_turn ::
  "registry_key \<Rightarrow> bool \<Rightarrow> scheduler \<times> action list \<times> 'e refresh_error option \<times> 'w
     \<Rightarrow> scheduler \<times> action list \<times> 'w" where
  "worker_turn key ended outcome =
     (case outcome of (s, acts, err, world) \<Rightarrow>
        (s, acts @ [Q_Done key]
           @ (case err of
                None \<Rightarrow> [Q_Forget key]
              | Some _ \<Rightarrow> if ended then [Q_Forget key] else [Q_Add_Rate_Limited key]), world))"

definition run_worker ::
  "digest \<Rightarrow> ('w \<Rightarrow> request \<Rightarrow> ('e, token) result \<times> 'w) \<Rightarrow> registry_key \<Rightarrow> instant \<Rightarrow> instant
     \<Rightarrow> string option \<Rightarrow> bool \<Rightarrow> (scheduler \<Rightarrow> scheduler) \<Rightarrow> 'w \<Rightarrow> scheduler
     \<Rightarrow> scheduler \<times> action list \<times> 'w" where
  "run_worker digest get key before after answer ended meanwhile world s =
     worker_turn key ended (refresh digest get key before after answer meanwhile world s)"

section \<open>What each operation changes\<close>

lemma scheduler_ops [simp]:
  "sc_config (forget_key key s) = sc_config s"
  "sc_options (forget_key key s) = sc_options s"
  "sc_config (mark_force_refresh key s) = sc_config s"
  "sc_options (mark_force_refresh key s) = sc_options s"
  "sc_credentials (mark_force_refresh key s) = sc_credentials s"
  "sc_published (mark_force_refresh key s) = sc_published s"
  "sc_config (clear_force_refresh key h s) = sc_config s"
  "sc_options (clear_force_refresh key h s) = sc_options s"
  "sc_credentials (clear_force_refresh key h s) = sc_credentials s"
  "sc_published (clear_force_refresh key h s) = sc_published s"
  "sc_credentials (mark_published key r s) = sc_credentials s"
  "sc_force (mark_published key r s) = sc_force s"
  "sc_config (mark_published key r s) = sc_config s"
  "sc_options (mark_published key r s) = sc_options s"
  by (simp_all add: forget_key_def revision_ops)

lemma load_registry_cong: "sc_config s = sc_config s' \<Longrightarrow> load_registry s key = load_registry s' key"
  by (simp add: load_registry_def)

lemma force_ops [simp]:
  "current_force_refresh_revision (mark_published key r s) k = current_force_refresh_revision s k"
  "current_force_refresh_revision (s\<lparr>sc_credentials := c\<rparr>) k = current_force_refresh_revision s k"
  "current_force_refresh_revision (mark_force_refresh key s) k =
     (if k = key then current_force_refresh_revision s key + 1 else current_force_refresh_revision s k)"
  "current_force_refresh_revision (clear_force_refresh key h s) k =
     (if k = key \<and> current_force_refresh_revision s key = h then 0
      else current_force_refresh_revision s k)"
  by (auto simp: current_force_refresh_revision_def revision_ops gm_get0_def map_laws)

lemma publish_credential_facts:
  assumes "publish_credential key e answer s = (s', acts, err)"
  shows "sc_config s' = sc_config s" "sc_options s' = sc_options s"
    and "sc_credentials s' = sc_credentials s" "sc_force s' = sc_force s"
    and "sc_known s' = sc_known s"
    and "err = None \<Longrightarrow> is_published s' key (en_revision e)"
    and "err = None \<longleftrightarrow> is_published s key (en_revision e) \<or> answer = None"
    and "err \<noteq> None \<Longrightarrow> s' = s"
    and "set acts \<subseteq> insert Published_All (range Publish_Failed_With)"
  using assms
  by (auto simp: publish_credential_def is_published_def mark_published_def gm_get0_def map_laws
      split: if_splits option.splits)

lemma refresh_begin_call_iff:
  fixes s :: scheduler and r :: "'e begun"
  assumes "refresh_begin digest key now answer s = (s', acts, r)"
  shows "r = Call_Provider rq registry handled \<longleftrightarrow>
    load_registry s key = Some registry \<and> handled = current_force_refresh_revision s key
    \<and> rq = \<lparr>rq_key = key, rq_access_key_id = rc_access_key_id registry,
            rq_access_key_secret = rc_access_key_secret registry\<rparr>
    \<and> \<not> (\<exists>e. cred_load (sc_credentials s) key = Some e \<and> matches_registry digest e registry
            \<and> handled = 0
            \<and> now < cr_expires_at (en_credential e) - so_refresh_before (sc_options s))"
  using assms
  by (auto simp: refresh_begin_def usable_entry_def Let_def
      split: option.splits prod.splits if_splits)

text \<open>
  A refresh turns to the provider exactly when the key is configured and the stored
  credential cannot be used: there is none, it was not obtained with the registry's current
  identity and access key, a refresh has been forced, or its refresh window has begun. The
  request carries the registry's current access key.
\<close>

lemma refresh_begin_calls_provider:
  fixes s :: scheduler and r :: "'e begun"
  assumes "refresh_begin digest key now answer s = (s', acts, r)"
  shows "r = Call_Provider rq registry handled \<longleftrightarrow>
    load_registry s key = Some registry \<and> handled = current_force_refresh_revision s key
    \<and> rq = \<lparr>rq_key = key, rq_access_key_id = rc_access_key_id registry,
            rq_access_key_secret = rc_access_key_secret registry\<rparr>
    \<and> \<not> (\<exists>e. cred_load (sc_credentials s) key = Some e \<and> matches_registry digest e registry
            \<and> handled = 0
            \<and> now < cr_expires_at (en_credential e) - so_refresh_before (sc_options s))"
  by (rule refresh_begin_call_iff [OF assms])

text \<open>The wake-up time of a refresh is exact, unless it lies beyond the range of a duration.\<close>

lemma time_sub_exact:
  "u < t \<Longrightarrow> 0 < time_sub t u" "u \<le> t \<Longrightarrow> t - u \<le> max_int64 \<Longrightarrow> time_sub t u = t - u"
  by (simp_all add: time_sub_def max_int64_def min_int64_def)

lemma refresh_begin_add_after:
  assumes "refresh_begin digest key now answer s = (s', acts, r)" "Q_Add_After k d \<in> set acts"
  shows "k = key \<and> 0 < d \<and> (\<exists>registry e. load_registry s key = Some registry
    \<and> cred_load (sc_credentials s) key = Some e \<and> matches_registry digest e registry
    \<and> current_force_refresh_revision s key = 0
    \<and> now < cr_expires_at (en_credential e) - so_refresh_before (sc_options s)
    \<and> d = time_sub (cr_expires_at (en_credential e) - so_refresh_before (sc_options s)) now)"
  using assms publish_credential_facts(9)
  by (fastforce simp: refresh_begin_def usable_entry_def Let_def time_sub_exact
      split: option.splits prod.splits if_splits)

text \<open>When the provider is called: nothing that is stored can be used at the time \<open>now\<close>.\<close>

lemma refresh_begin_call:
  assumes "refresh_begin digest key now answer s = (s', acts, Call_Provider rq registry handled)"
  shows "load_registry s key = Some registry \<and> s' = s \<and> acts = []
    \<and> rq = \<lparr>rq_key = key, rq_access_key_id = rc_access_key_id registry,
        rq_access_key_secret = rc_access_key_secret registry\<rparr>
    \<and> (\<forall>e. cred_load (sc_credentials s) key = Some e \<longrightarrow> \<not> (matches_registry digest e registry
        \<and> current_force_refresh_revision s key = 0
        \<and> now < cr_expires_at (en_credential e) - so_refresh_before (sc_options s)))"
  using assms
  by (auto simp: refresh_begin_def usable_entry_def Let_def split: option.splits prod.splits if_splits)

lemma validate_token_ok:
  "validate_token t now d = None \<longleftrightarrow>
     tk_username t \<noteq> [] \<and> tk_password t \<noteq> [] \<and> now < tk_expires_at t - d"
  by (auto simp: validate_token_def)

lemma install_and_publish_facts:
  fixes err :: "'e refresh_error option"
  assumes "install_and_publish digest key current handled t now answer s = (s', acts, err)"
  obtains e acts' where
    "cred_apply digest (sc_credentials s) current
       \<lparr>cr_username = tk_username t, cr_password = tk_password t,
        cr_refreshed_at = now, cr_expires_at = tk_expires_at t\<rparr> = (sc_credentials s', e)"
    "publish_credential key e answer
       (clear_force_refresh key handled (s\<lparr>sc_credentials := sc_credentials s'\<rparr>)) = (s', acts', err)"
    "acts = Installed key (en_revision e) # acts' @
       (case err of
          Some _ \<Rightarrow> []
        | None \<Rightarrow> [Q_Add_After key
            (time_sub (tk_expires_at t - so_refresh_before (sc_options s)) now)])"
proof -
  let ?c = "\<lparr>cr_username = tk_username t, cr_password = tk_password t,
        cr_refreshed_at = now, cr_expires_at = tk_expires_at t\<rparr>"
  obtain creds e where ap: "cred_apply digest (sc_credentials s) current ?c = (creds, e)"
    by (cases "cred_apply digest (sc_credentials s) current ?c")
  obtain s1 acts' and err1 :: "'e refresh_error option" where pub: "publish_credential key e answer
      (clear_force_refresh key handled (s\<lparr>sc_credentials := creds\<rparr>)) = (s1, acts', err1)"
    by (metis prod_cases3)
  have eqs: "s1 = s'" "err1 = err" "acts = Installed key (en_revision e) # acts' @
       (case err of
          Some _ \<Rightarrow> []
        | None \<Rightarrow> [Q_Add_After key
            (time_sub (tk_expires_at t - so_refresh_before (sc_options s)) now)])"
    using assms by (auto simp: install_and_publish_def ap pub split: option.splits)
  have "sc_credentials s' = creds"
    using publish_credential_facts(3) [OF pub] by (simp add: eqs(1))
  with ap pub eqs show thesis by (intro that [of e acts']) simp_all
qed

lemma refresh_end_cases:
  assumes "refresh_end digest key registry handled response now answer s = (s', acts, err)"
  obtains (provider) e where "response = Inl e" "s' = s" "acts = []" "err = Some (Provider_Failed e)"
  | (gone) "load_registry s key = None" "s' = forget_key key s" "acts = []" "err = None"
  | (stale) t current where "response = Inr t" "load_registry s key = Some current"
      "authentication_changed registry current" "s' = mark_force_refresh key s"
      "acts = [Q_Add key]" "err = None"
  | (rejected) t current why where "response = Inr t" "load_registry s key = Some current"
      "\<not> authentication_changed registry current"
      "validate_token t now (so_refresh_before (sc_options s)) = Some why"
      "s' = s" "acts = []" "err = Some (Token_Rejected why)"
  | (installed) t current where "response = Inr t" "load_registry s key = Some current"
      "\<not> authentication_changed registry current"
      "validate_token t now (so_refresh_before (sc_options s)) = None"
      "install_and_publish digest key current handled t now answer s = (s', acts, err)"
proof (cases response)
  case (Inl e)
  then show thesis using assms by (intro provider) (auto simp: refresh_end_def)
next
  case (Inr t)
  show thesis
  proof (cases "load_registry s key")
    case None
    then show thesis using assms Inr by (intro gone) (auto simp: refresh_end_def)
  next
    case (Some current)
    note result = assms [unfolded refresh_end_def Inr Some sum.case option.case]
    show thesis
    proof (cases "authentication_changed registry current")
      case True
      then show thesis using result Inr Some by (intro stale) auto
    next
      case False
      show thesis
      proof (cases "validate_token t now (so_refresh_before (sc_options s))")
        case None
        then show thesis using result Inr Some False by (intro installed) auto
      next
        case (Some why)
        then show thesis
          using result Inr \<open>load_registry s key = Some current\<close> False
          by (intro rejected) auto
      qed
    qed
  qed
qed

lemma refresh_end_add_after:
  assumes "refresh_end digest key registry handled response now answer s = (s', acts, err)"
    and "Q_Add_After k d \<in> set acts"
  shows "k = key \<and> 0 < d \<and> (\<exists>t. response = Inr t
    \<and> now < tk_expires_at t - so_refresh_before (sc_options s)
    \<and> d = time_sub (tk_expires_at t - so_refresh_before (sc_options s)) now)"
  using assms(1)
proof (cases rule: refresh_end_cases)
  case (installed t current)
  from installed(5) obtain e acts' where pub: "publish_credential key e answer
       (clear_force_refresh key handled (s\<lparr>sc_credentials := sc_credentials s'\<rparr>)) = (s', acts', err)"
    and acts: "acts = Installed key (en_revision e) # acts' @
       (case err of
          Some _ \<Rightarrow> []
        | None \<Rightarrow> [Q_Add_After key
            (time_sub (tk_expires_at t - so_refresh_before (sc_options s)) now)])"
    by (rule install_and_publish_facts)
  have "Q_Add_After k d \<notin> set acts'" using publish_credential_facts(9) [OF pub] by auto
  then show ?thesis
    using assms(2) acts installed(1,4)
    by (auto simp: validate_token_ok time_sub_exact split: option.splits)
qed (use assms(2) in auto)

definition requeues :: "registry_key \<Rightarrow> action \<Rightarrow> bool" where
  "requeues key a =
     (case a of
        Q_Add k \<Rightarrow> k = key
      | Q_Add_After k d \<Rightarrow> k = key \<and> 0 < d
      | Q_Add_Rate_Limited k \<Rightarrow> k = key
      | _ \<Rightarrow> False)"

lemma refresh_begin_requeues:
  assumes "refresh_begin digest key now answer s = (s', acts, Returned None)"
  shows "load_registry s' key = None \<or> (\<exists>a \<in> set acts. requeues key a)"
  using assms
  by (auto simp: refresh_begin_def load_registry_def usable_entry_def Let_def requeues_def
      time_sub_exact split: option.splits prod.splits if_splits)

lemma refresh_end_requeues:
  assumes "refresh_end digest key registry handled response now answer s = (s', acts, None)"
  shows "load_registry s' key = None \<or> (\<exists>a \<in> set acts. requeues key a)"
  using assms
proof (cases rule: refresh_end_cases)
  case gone
  then show ?thesis by (simp add: load_registry_def)
next
  case (installed t current)
  from installed(5) show ?thesis
    by (rule install_and_publish_facts)
      (use installed(4) in \<open>auto simp: requeues_def validate_token_ok time_sub_exact\<close>)
qed (auto simp: requeues_def)

text \<open>
  C7: A worker never drops a key: unless the process is shutting down, a turn for a key ends
  with the key no longer configured or with a call that puts the key back into the queue, at
  once, after a positive delay or with back-off, and the queue is always told that the key is
  done.
\<close>

theorem run_worker_requeues:
  fixes get :: "'w \<Rightarrow> request \<Rightarrow> ('e, token) result \<times> 'w"
  assumes "run_worker digest get key before after answer ended meanwhile world s = (s', acts, world')"
  shows "Q_Done key \<in> set acts
    \<and> (ended \<or> load_registry s' key = None \<or> (\<exists>a \<in> set acts. requeues key a))"
proof -
  obtain acts1 err where run: "refresh digest get key before after answer meanwhile world s
        = (s', acts1, err, world')"
    and acts: "acts = acts1 @ [Q_Done key] @ (case err of
        None \<Rightarrow> [Q_Forget key]
      | Some _ \<Rightarrow> if ended then [Q_Forget key] else [Q_Add_Rate_Limited key])"
    using assms by (auto simp: run_worker_def worker_turn_def split: prod.splits)
  show ?thesis
  proof (cases err)
    case None
    have "load_registry s' key = None \<or> (\<exists>a \<in> set acts1. requeues key a)"
    proof -
      obtain s1 acts0 and r :: "'e begun"
        where begun: "refresh_begin digest key before answer s = (s1, acts0, r)"
        by (metis prod_cases3)
      show ?thesis
      proof (cases r)
        case (Returned e)
        with run None begun have "s1 = s'" "acts0 = acts1" "r = Returned None"
          by (simp_all add: refresh_def)
        with begun show ?thesis using refresh_begin_requeues by blast
      next
        case (Call_Provider rq registry handled)
        then obtain response :: "('e, token) result" and acts2 where
          "refresh_end digest key registry handled response after answer (meanwhile s1)
             = (s', acts2, None)" "acts1 = acts0 @ acts2"
          using run None begun by (auto simp: refresh_def split: prod.splits)
        then show ?thesis using refresh_end_requeues by fastforce
      qed
    qed
    then show ?thesis using acts by auto
  qed (use acts in \<open>auto simp: requeues_def\<close>)
qed

text \<open>
  C11: When a refresh asks to be woken up, it is woken at the moment its credential's refresh
  window begins. If the stored credential is current, no refresh is forced and its window had
  not begun when the clock was read first, the delay ends at the stored expiration less the
  configured margin, counted from that reading; otherwise it ends at the expiration of the
  token that the provider returned for the configured access key, less the margin, counted
  from the second reading, after the call. The delay is positive, and it is exact unless it
  reaches the range of a 64-bit duration.
\<close>

theorem refresh_wakes_at_window:
  fixes get :: "'w \<Rightarrow> request \<Rightarrow> ('e, token) result \<times> 'w"
  assumes "refresh digest get key before after answer meanwhile world s = (s', acts, err, world')"
    and "\<And>u. sc_options (meanwhile u) = sc_options u"
    and "Q_Add_After k d \<in> set acts"
  shows "k = key \<and> 0 < d \<and> (\<exists>registry. load_registry s key = Some registry \<and>
    ((\<exists>e. cred_load (sc_credentials s) key = Some e \<and> matches_registry digest e registry
        \<and> current_force_refresh_revision s key = 0
        \<and> before < cr_expires_at (en_credential e) - so_refresh_before (sc_options s)
        \<and> d = time_sub (cr_expires_at (en_credential e) - so_refresh_before (sc_options s)) before
        \<and> (d < max_int64 \<longrightarrow>
             before + d = cr_expires_at (en_credential e) - so_refresh_before (sc_options s)))
     \<or> ((\<forall>e. cred_load (sc_credentials s) key = Some e \<longrightarrow> \<not> (matches_registry digest e registry
            \<and> current_force_refresh_revision s key = 0
            \<and> before < cr_expires_at (en_credential e) - so_refresh_before (sc_options s)))
        \<and> (\<exists>t. fst (get world \<lparr>rq_key = key, rq_access_key_id = rc_access_key_id registry,
                rq_access_key_secret = rc_access_key_secret registry\<rparr>) = Inr t
            \<and> d = time_sub (tk_expires_at t - so_refresh_before (sc_options s)) after
            \<and> (d < max_int64 \<longrightarrow> after + d = tk_expires_at t - so_refresh_before (sc_options s))))))"
proof -
  have exact: "now + d = x - b"
    if "d = time_sub (x - b) now" "now < x - b" "d < max_int64" for now x b :: int
    using that by (auto simp: time_sub_def min_int64_def max_int64_def)
  obtain s1 acts0 and r :: "'e begun"
    where begun: "refresh_begin digest key before answer s = (s1, acts0, r)"
    by (metis prod_cases3)
  consider (early) "Q_Add_After k d \<in> set acts0"
    | (late) rq registry handled acts2 and response :: "('e, token) result" where
        "r = Call_Provider rq registry handled"
        "Q_Add_After k d \<in> set acts2" "get world rq = (response, world')"
        "refresh_end digest key registry handled response after answer (meanwhile s1) = (s', acts2, err)"
    using assms(1,3) begun by (auto simp: refresh_def split: begun.splits prod.splits)
  then show ?thesis
  proof cases
    case early
    from refresh_begin_add_after [OF begun this] show ?thesis
      using exact by blast
  next
    case late
    note call = refresh_begin_call [OF begun [unfolded late(1)]]
    from refresh_end_add_after [OF late(4,2)] obtain t where t: "response = Inr t" "k = key" "0 < d"
        "after < tk_expires_at t - so_refresh_before (sc_options s)"
        "d = time_sub (tk_expires_at t - so_refresh_before (sc_options s)) after"
      using call by (auto simp: assms(2))
    have "fst (get world rq) = Inr t" using late(3) t(1) by simp
    with call t exact [OF t(5,4)] show ?thesis by blast
  qed
qed

text \<open>
  C10: A publishing error is retried without calling the provider again: once a credential has
  been installed and only its publishing failed, the next turn for the key before the refresh
  window asks the publisher again, succeeds with it, and makes no provider call. The installed
  token's digest is not empty, as a hexadecimal SHA-256 value is not.
\<close>

theorem publish_failure_retried_without_provider:
  fixes err :: "'e refresh_error option"
  assumes "refresh_end digest key registry (current_force_refresh_revision s key) (Inr t) now
      (Some why) s = (s', acts, err)"
    and "Publish_Failed_With why \<in> set acts"
    and "load_registry s key = Some current" "config_key current = key"
    and "registry_authentication_hash digest current \<noteq> []"
    and "later < tk_expires_at t - so_refresh_before (sc_options s)"
  shows "err = Some (Publish_Failed why)
    \<and> (\<exists>s'' d. refresh_begin digest key later None s'
          = (s'', [Published_All, Q_Add_After key d], Returned (None :: 'e refresh_error option))
        \<and> d = time_sub (tk_expires_at t - so_refresh_before (sc_options s)) later
        \<and> sc_credentials s'' = sc_credentials s')"
  using assms(1)
proof (cases rule: refresh_end_cases)
  case (installed t' current')
  then have eqs: "t' = t" "current' = current" using assms(3) by auto
  from installed(5) obtain e acts' where
    ap: "cred_apply digest (sc_credentials s) current
        \<lparr>cr_username = tk_username t, cr_password = tk_password t,
         cr_refreshed_at = now, cr_expires_at = tk_expires_at t\<rparr> = (sc_credentials s', e)"
    and pub: "publish_credential key e (Some why)
       (clear_force_refresh key (current_force_refresh_revision s key)
          (s\<lparr>sc_credentials := sc_credentials s'\<rparr>)) = (s', acts', err)"
    and acts: "acts = Installed key (en_revision e) # acts' @
       (case err of
          Some _ \<Rightarrow> []
        | None \<Rightarrow> [Q_Add_After key
            (time_sub (tk_expires_at t - so_refresh_before (sc_options s)) now)])"
    unfolding eqs by (rule install_and_publish_facts)
  note facts = cred_apply_facts [OF ap]
  have fail: "err = Some (Publish_Failed why)" "acts' = [Publish_Failed_With why]"
    and s': "s' = clear_force_refresh key (current_force_refresh_revision s key)
          (s\<lparr>sc_credentials := sc_credentials s'\<rparr>)"
    and unpublished: "\<not> is_published s' key (en_revision e)"
    using pub acts assms(2) by (auto simp: publish_credential_def split: if_splits)
  have conf: "load_registry s' key = Some current"
    using assms(3) by (subst s') (simp add: load_registry_def)
  have opts: "sc_options s' = sc_options s" by (subst s') simp
  have "current_force_refresh_revision s' key = 0" by (subst s') simp
  moreover have "cred_load (sc_credentials s') key = Some e"
    using facts(1) assms(4) by simp
  moreover have "matches_registry digest e current"
    using facts(3) assms(5) by (simp add: matches_registry_def registry_authentication_hash_def)
  ultimately have "usable_entry digest s' key current later
      = Some (e, tk_expires_at t - so_refresh_before (sc_options s))"
    using assms(6) by (simp add: usable_entry_def opts facts(2) Let_def)
  then show ?thesis
    using fail(1) unpublished conf
    by (simp add: refresh_begin_def publish_credential_def)
qed (use assms(2) in auto)

text \<open>
  C8: A forced refresh is never lost: if, while a worker waits for the provider, the key's force
  counter moves away from the value the worker saw, then after the worker is done either the
  key is no longer configured or the counter is still set, so that the next turn for the key
  calls the provider again whatever credential is stored. The counter must not have reached
  its last value.
\<close>

theorem forced_refresh_not_lost:
  fixes err :: "'e refresh_error option" and r :: "'e begun"
  assumes "refresh_end digest key registry handled response now answer s = (s', acts, err)"
    and "current_force_refresh_revision s key \<noteq> handled"
    and "current_force_refresh_revision s key \<noteq> 0" "current_force_refresh_revision s key \<noteq> - 1"
    and "load_registry s' key = Some current"
    and "refresh_begin digest key later answer' s' = (s'', acts', r)"
  shows "r = Call_Provider
      \<lparr>rq_key = key, rq_access_key_id = rc_access_key_id current,
       rq_access_key_secret = rc_access_key_secret current\<rparr>
      current (current_force_refresh_revision s' key)
    \<and> current_force_refresh_revision s' key \<noteq> 0"
proof -
  have "current_force_refresh_revision s' key \<noteq> 0"
    using assms(1)
  proof (cases rule: refresh_end_cases)
    case gone
    then have "load_registry s' key = None" by (simp add: load_registry_def)
    with assms(5) show ?thesis by simp
  next
    case stale
    have "current_force_refresh_revision s key + 1 \<noteq> 0"
      using assms(4) by (metis add.inverse_unique add.commute)
    with stale show ?thesis by simp
  next
    case (installed t current')
    from installed(5) obtain e acts1 where "publish_credential key e answer
        (clear_force_refresh key handled (s\<lparr>sc_credentials := sc_credentials s'\<rparr>)) = (s', acts1, err)"
      by (rule install_and_publish_facts)
    from publish_credential_facts(4) [OF this] show ?thesis
      using assms(2,3) by (simp add: clear_force_refresh_def current_force_refresh_revision_def)
  qed (use assms(3) in auto)
  then show ?thesis
    using refresh_begin_call_iff [OF assms(6)] assms(5) by blast
qed

section \<open>What a configuration change does\<close>

definition must_force ::
  "(registry_key, registry_config) gomap \<Rightarrow> (registry_key, registry_config) gomap
     \<Rightarrow> registry_key \<Rightarrow> bool" where
  "must_force known registries key \<longleftrightarrow>
     (case (gm_get known key, gm_get registries key) of
        (Some previous, Some registry) \<Rightarrow> authentication_changed previous registry
      | _ \<Rightarrow> False)"

lemma reconcile_registries_fold:
  assumes "gm_wf entries"
    and "fold (reconcile_registry known) entries (s, acts) = (s', acts')"
  shows "sc_config s' = sc_config s \<and> sc_options s' = sc_options s \<and> sc_known s' = sc_known s
    \<and> sc_credentials s' = sc_credentials s \<and> sc_published s' = sc_published s
    \<and> (\<forall>k. current_force_refresh_revision s' k = current_force_refresh_revision s k
          + (if must_force known entries k then 1 else 0))
    \<and> (\<forall>k. k \<notin> fst ` set entries \<longrightarrow> gm_get (sc_force s') k = gm_get (sc_force s) k)
    \<and> set acts' = set acts \<union> {Q_Add k | k. k \<in> set (gm_keys entries)
          \<and> (gm_get known k = None \<or> must_force known entries k)}"
  using assms
proof (induction entries arbitrary: s acts)
  case Nil
  then show ?case by (simp add: must_force_def gm_keys_def split: option.splits)
next
  case (Cons entry entries)
  obtain key registry where entry: "entry = (key, registry)" by (cases entry)
  obtain s1 acts1 where one: "reconcile_registry known entry (s, acts) = (s1, acts1)"
    by (metis surj_pair)
  have notin: "key \<notin> fst ` set entries" "gm_wf entries"
    using Cons.prems(1) entry by (auto simp: gm_wf_def)
  have gone: "gm_get entries key = None" using notin(1) by (simp add: map_of_eq_None_iff)
  have rest: "fold (reconcile_registry known) entries (s1, acts1) = (s', acts')"
    using Cons.prems(2) one by simp
  note IH = Cons.IH [OF notin(2) rest]
  have force: "must_force known ((key, registry) # entries) k =
      (if k = key then (case gm_get known key of None \<Rightarrow> False
          | Some p \<Rightarrow> authentication_changed p registry)
       else must_force known entries k)" for k
    by (simp add: must_force_def split: option.splits)
  have fk: "\<not> must_force known entries key" by (simp add: must_force_def gone split: option.splits)
  show ?case
  proof (cases "gm_get known key")
    case None
    then have "s1 = s" "acts1 = acts @ [Q_Add key]"
      using one by (simp_all add: reconcile_registry_def entry)
    with IH None fk show ?thesis
      by (auto simp: force gm_keys_def entry)
  next
    case (Some p)
    show ?thesis
    proof (cases "authentication_changed p registry")
      case True
      then have eqs: "s1 = mark_force_refresh key s" "acts1 = acts @ [Q_Add key]"
        using one Some by (simp_all add: reconcile_registry_def entry)
      have "gm_get (sc_force s1) k = gm_get (sc_force s) k" if "k \<noteq> key" for k
        using that by (simp add: eqs mark_force_refresh_def map_laws)
      moreover have "sc_known s1 = sc_known s" by (simp add: eqs mark_force_refresh_def)
      ultimately show ?thesis using IH True Some fk
        by (auto simp: force gm_keys_def entry eqs)
    next
      case False
      then have "s1 = s" "acts1 = acts"
        using one Some by (simp_all add: reconcile_registry_def entry)
      moreover have "k \<noteq> key" if "gm_get known k = None" for k using that Some by auto
      ultimately show ?thesis using IH Some False fk
        by (auto simp: force gm_keys_def entry) (metis fst_conv image_eqI)
    qed
  qed
qed

lemma forget_key_facts [simp]:
  "cred_load (sc_credentials (forget_key key s)) k =
     (if k = key then None else cred_load (sc_credentials s) k)"
  "gm_get (sc_published (forget_key key s)) k = (if k = key then None else gm_get (sc_published s) k)"
  "gm_get (sc_force (forget_key key s)) k = (if k = key then None else gm_get (sc_force s) k)"
  "sc_known (forget_key key s) = sc_known s"
  "cst_next_revision (sc_credentials (forget_key key s)) = cst_next_revision (sc_credentials s)"
  by (simp_all add: forget_key_def revision_ops cred_load_delete map_laws)

lemma retire_registries_fold:
  assumes "fold (retire_registry registries) keys (s, acts) = (s', acts')"
  shows "sc_config s' = sc_config s \<and> sc_options s' = sc_options s \<and> sc_known s' = sc_known s
    \<and> cst_next_revision (sc_credentials s') = cst_next_revision (sc_credentials s)
    \<and> (\<forall>k. (gm_get registries k \<noteq> None \<or> k \<notin> set keys) \<longrightarrow>
          cred_load (sc_credentials s') k = cred_load (sc_credentials s) k
          \<and> gm_get (sc_published s') k = gm_get (sc_published s) k
          \<and> gm_get (sc_force s') k = gm_get (sc_force s) k)
    \<and> (\<forall>k. gm_get registries k = None \<and> k \<in> set keys \<longrightarrow>
          cred_load (sc_credentials s') k = None
          \<and> gm_get (sc_published s') k = None \<and> gm_get (sc_force s') k = None)
    \<and> set acts' = set acts \<union> {Q_Forget k | k. k \<in> set keys \<and> gm_get registries k = None}"
  using assms
proof (induction keys arbitrary: s acts)
  case Nil
  then show ?case by simp
next
  case (Cons key keys)
  obtain s1 acts1 where one: "retire_registry registries key (s, acts) = (s1, acts1)"
    by (metis surj_pair)
  have rest: "fold (retire_registry registries) keys (s1, acts1) = (s', acts')"
    using Cons.prems one by simp
  note IH = Cons.IH [OF rest]
  show ?case
  proof (cases "gm_get registries key")
    case None
    then have "s1 = forget_key key s" "acts1 = acts @ [Q_Forget key]"
      using one by (simp_all add: retire_registry_def forget_key_def)
    with IH None show ?thesis by (auto split: if_splits)
  next
    case (Some r)
    then have "s1 = s" "acts1 = acts" using one by (simp_all add: retire_registry_def)
    with IH Some show ?thesis by auto
  qed
qed

text \<open>
  C9: After the scheduler has compared a new configuration with the one it knew, it knows the
  new registries; for every registry that left, no credential, published revision or force
  counter remains and the queue's back-off for it is forgotten; a registry that was added or
  whose access key changed is queued, the latter with its force counter advanced by one; and
  nothing is changed for any other registry.
\<close>

theorem reconcile_configuration_effect:
  assumes "store_load (sc_config s) = Some snapshot" "gm_wf (cs_registries snapshot)"
    and "reconcile_configuration s = (s', acts)"
  shows "sc_known s' = cs_registries snapshot \<and> sc_config s' = sc_config s
    \<and> (\<forall>k. if gm_get (sc_known s) k \<noteq> None \<and> gm_get (cs_registries snapshot) k = None
        then cred_load (sc_credentials s') k = None \<and> gm_get (sc_published s') k = None
          \<and> current_force_refresh_revision s' k = 0
        else cred_load (sc_credentials s') k = cred_load (sc_credentials s) k
          \<and> gm_get (sc_published s') k = gm_get (sc_published s) k
          \<and> current_force_refresh_revision s' k = current_force_refresh_revision s k
              + (if must_force (sc_known s) (cs_registries snapshot) k then 1 else 0))
    \<and> set acts =
        {Q_Add k | k. gm_get (cs_registries snapshot) k \<noteq> None
          \<and> (gm_get (sc_known s) k = None \<or> must_force (sc_known s) (cs_registries snapshot) k)}
        \<union> {Q_Forget k | k. gm_get (sc_known s) k \<noteq> None \<and> gm_get (cs_registries snapshot) k = None}"
proof -
  let ?regs = "cs_registries snapshot"
  obtain s1 acts1 where added: "fold (reconcile_registry (sc_known s)) ?regs (s, []) = (s1, acts1)"
    by (metis surj_pair)
  obtain s2 acts2 where retired:
    "fold (retire_registry ?regs) (gm_keys (sc_known s)) (s1, acts1) = (s2, acts2)"
    by (metis surj_pair)
  have result: "s' = s2\<lparr>sc_known := ?regs\<rparr>" "acts = acts2"
    using assms(3) by (simp_all add: reconcile_configuration_def assms(1) [simplified] added retired)
  note A = reconcile_registries_fold [OF assms(2) added]
  note R = retire_registries_fold [OF retired]
  have force: "current_force_refresh_revision (s2\<lparr>sc_known := ?regs\<rparr>) k
      = current_force_refresh_revision s2 k" for k
    by (simp add: current_force_refresh_revision_def)
  have unforced: "\<not> must_force (sc_known s) ?regs k" if "gm_get ?regs k = None" for k
    using that by (simp add: must_force_def split: option.splits)
  have same_force: "current_force_refresh_revision s2 k = current_force_refresh_revision s1 k"
    if "gm_get (sc_force s2) k = gm_get (sc_force s1) k" for k
    using that by (simp add: current_force_refresh_revision_def gm_get0_def)
  have no_force: "current_force_refresh_revision s2 k = 0" if "gm_get (sc_force s2) k = None" for k
    using that by (simp add: current_force_refresh_revision_def gm_get0_def)
  have per_key: "if gm_get (sc_known s) k \<noteq> None \<and> gm_get ?regs k = None
        then cred_load (sc_credentials s2) k = None \<and> gm_get (sc_published s2) k = None
          \<and> current_force_refresh_revision s2 k = 0
        else cred_load (sc_credentials s2) k = cred_load (sc_credentials s) k
          \<and> gm_get (sc_published s2) k = gm_get (sc_published s) k
          \<and> current_force_refresh_revision s2 k = current_force_refresh_revision s k
              + (if must_force (sc_known s) ?regs k then 1 else 0)" for k
  proof (cases "gm_get (sc_known s) k \<noteq> None \<and> gm_get ?regs k = None")
    case True
    then show ?thesis using R no_force by (simp add: gm_keys_get)
  next
    case False
    then have "gm_get ?regs k \<noteq> None \<or> k \<notin> set (gm_keys (sc_known s))"
      by (auto simp: gm_keys_get)
    then have "cred_load (sc_credentials s2) k = cred_load (sc_credentials s1) k
        \<and> gm_get (sc_published s2) k = gm_get (sc_published s1) k
        \<and> gm_get (sc_force s2) k = gm_get (sc_force s1) k"
      using R by blast
    then show ?thesis unfolding if_not_P [OF False] using A same_force by simp
  qed
  show ?thesis
    using A R per_key unforced by (simp add: result force gm_keys_get)
qed

text \<open>A scheduler with the sample configuration, as the leader starts it.\<close>

definition sample_digest :: digest where
  "sample_digest ai = ai_region ai @ ''/'' @ ai_instance ai @ ''/'' @ ai_access_key_id ai @ ''/''
     @ ai_access_key_secret ai"

definition zero_options :: scheduler_options where
  "zero_options =
     \<lparr>so_refresh_before = 0, so_request_timeout = 0, so_worker_count = 0,
      so_retry_base_delay = 0, so_retry_max_delay = 0\<rparr>"

definition sample_scheduler :: scheduler where
  "sample_scheduler =
     \<lparr>sc_config = fst (store_apply empty_store sample_snapshot), sc_credentials = empty_cred_store,
      sc_options = with_defaults zero_options, sc_change_pending = False, sc_known = [],
      sc_published = [], sc_force = []\<rparr>"

definition sample_key :: registry_key where "sample_key = RegistryKey ''hz'' ''cri''"

definition sample_current :: registry_config where
  "sample_current = sample_registry\<lparr>rc_domains := [''a.io'', ''b.io'']\<rparr>"

definition sample_token :: token where
  "sample_token = \<lparr>tk_username = ''u'', tk_password = ''p'', tk_expires_at = 60 * minute\<rparr>"

definition sample_get :: "unit \<Rightarrow> request \<Rightarrow> (unit, token) result \<times> unit" where
  "sample_get w rq = (Inr sample_token, w)"

lemmas sample_defs = sample_scheduler_def zero_options_def sample_key_def sample_current_def
  sample_token_def sample_get_def

lemma sample_begin:
  "refresh_begin sample_digest sample_key 0 None sample_scheduler = (sample_scheduler, [],
     Call_Provider \<lparr>rq_key = sample_key, rq_access_key_id = ''id'', rq_access_key_secret = ''sk''\<rparr>
       sample_current 0 :: unit begun)"
  by code_simp

lemma refresh_begin_calls_provider_witness:
  "load_registry sample_scheduler sample_key = Some sample_current
   \<and> current_force_refresh_revision sample_scheduler sample_key = 0"
  using refresh_begin_calls_provider [OF sample_begin, THEN iffD1, OF refl] by simp

theorem run_worker_requeues_witness:
  "\<exists>a \<in> set (fst (snd (run_worker sample_digest sample_get sample_key 0 5 None False id ()
      sample_scheduler))). requeues sample_key a"
proof -
  obtain s' acts world' where run: "run_worker sample_digest sample_get sample_key 0 5 None False id ()
      sample_scheduler = (s', acts, world')"
    by (metis prod_cases3)
  have "load_registry (fst (run_worker sample_digest sample_get sample_key 0 5 None False id ()
      sample_scheduler)) sample_key \<noteq> None"
    by code_simp
  then show ?thesis using run_worker_requeues [OF run] run by auto
qed

lemma sample_refresh_acts:
  "fst (snd (refresh sample_digest sample_get sample_key 0 5 None id () sample_scheduler))
     = [Installed sample_key 1, Published_All, Q_Add_After sample_key (55 * minute - 5)]"
  by code_simp

theorem refresh_wakes_at_window_witness:
  "5 + (55 * minute - 5) = tk_expires_at sample_token - so_refresh_before (sc_options sample_scheduler)"
proof -
  obtain s' acts err world' where run: "refresh sample_digest sample_get sample_key 0 5 None id ()
      sample_scheduler = (s', acts, err, world')"
    by (metis prod_cases4)
  have mem: "Q_Add_After sample_key (55 * minute - 5) \<in> set acts"
    using sample_refresh_acts run by simp
  have small: "55 * minute - 5 < max_int64" by (simp add: max_int64_def minute_def second_def)
  have "cred_load (sc_credentials sample_scheduler) sample_key = None" by code_simp
  then show ?thesis
    using refresh_wakes_at_window [OF run _ mem] small by (auto simp: sample_get_def)
qed

theorem publish_failure_retried_without_provider_witness:
  "snd (snd (refresh_end sample_digest sample_key sample_current 0 (Inr sample_token) 5 (Some ''down'')
       sample_scheduler)) = Some (Publish_Failed ''down'' :: unit refresh_error)"
proof -
  let ?r = "refresh_end sample_digest sample_key sample_current
      (current_force_refresh_revision sample_scheduler sample_key) (Inr sample_token) 5
      (Some ''down'') sample_scheduler
    :: scheduler \<times> action list \<times> unit refresh_error option"
  obtain s' acts err where run: "?r = (s', acts, err)" by (metis prod_cases3)
  have "fst (snd ?r) = [Installed sample_key 1, Publish_Failed_With ''down'']" by code_simp
  then have mem: "Publish_Failed_With ''down'' \<in> set acts" using run by simp
  have "current_force_refresh_revision sample_scheduler sample_key = 0" by code_simp
  moreover have "err = Some (Publish_Failed ''down'')"
  proof (rule publish_failure_retried_without_provider
      [OF run mem, of sample_current 6, THEN conjunct1])
    show "load_registry sample_scheduler sample_key = Some sample_current" by code_simp
    show "config_key sample_current = sample_key" by code_simp
    show "registry_authentication_hash sample_digest sample_current \<noteq> []" by code_simp
    show "6 < tk_expires_at sample_token - so_refresh_before (sc_options sample_scheduler)"
      by code_simp
  qed
  ultimately show ?thesis using run by simp
qed

theorem forced_refresh_not_lost_witness:
  "current_force_refresh_revision (fst (refresh_end sample_digest sample_key sample_current 0
       (Inr sample_token) 5 None (mark_force_refresh sample_key sample_scheduler)
     :: scheduler \<times> action list \<times> unit refresh_error option)) sample_key \<noteq> 0"
proof -
  let ?s = "mark_force_refresh sample_key sample_scheduler"
  obtain s' acts and err :: "unit refresh_error option"
    where run: "refresh_end sample_digest sample_key sample_current 0
       (Inr sample_token) 5 None ?s = (s', acts, err)" by (metis prod_cases3)
  obtain s'' acts'' and r :: "unit begun"
    where next_begin: "refresh_begin sample_digest sample_key 6 None s' = (s'', acts'', r)"
    by (metis prod_cases3)
  have revs: "current_force_refresh_revision ?s sample_key \<noteq> 0"
    "current_force_refresh_revision ?s sample_key \<noteq> - 1" by code_simp+
  have "load_registry (fst (refresh_end sample_digest sample_key sample_current 0
       (Inr sample_token) 5 None ?s :: scheduler \<times> action list \<times> unit refresh_error option)) sample_key
     = Some sample_current" by code_simp
  then have conf: "load_registry s' sample_key = Some sample_current" using run by simp
  show ?thesis
    using forced_refresh_not_lost [OF run revs(1,1,2) conf next_begin] run by simp
qed

theorem reconcile_configuration_effect_witness:
  "sc_known (fst (reconcile_configuration sample_scheduler)) = cs_registries sample_snapshot
   \<and> Q_Add sample_key \<in> set (snd (reconcile_configuration sample_scheduler))"
proof -
  obtain s' acts where run: "reconcile_configuration sample_scheduler = (s', acts)" by (metis surj_pair)
  let ?snap = "sample_snapshot\<lparr>cs_generation := 1\<rparr>"
  have "store_load (sc_config sample_scheduler) = Some ?snap"
    by (simp add: sample_scheduler_def store_apply_def empty_store_def Let_def)
  moreover have "gm_wf (cs_registries ?snap)" by code_simp
  moreover have "gm_get (cs_registries ?snap) sample_key \<noteq> None"
    "gm_get (sc_known sample_scheduler) sample_key = None" by code_simp+
  ultimately show ?thesis
    using reconcile_configuration_effect [OF _ _ run, of ?snap] run by simp
qed

section \<open>Construction\<close>

text \<open>
  A scheduler is built exactly when its five collaborators are given and the options,
  zero ones replaced by their defaults, are positive with a base delay not above the maximal
  one; it then has these options and nothing known, published or forced.
\<close>

lemma new_scheduler_iff:
  "new_scheduler config credentials provider publisher clock opts = Inr s \<longleftrightarrow>
     (\<exists>cs cr. config = Some cs \<and> credentials = Some cr \<and> provider \<and> publisher \<and> clock
       \<and> 0 \<le> so_refresh_before opts \<and> 0 \<le> so_request_timeout opts \<and> 0 \<le> so_worker_count opts
       \<and> 0 \<le> so_retry_base_delay opts \<and> 0 \<le> so_retry_max_delay opts
       \<and> or_default (so_retry_base_delay opts) (5 * second)
           \<le> or_default (so_retry_max_delay opts) (60 * second)
       \<and> s = \<lparr>sc_config = cs, sc_credentials = cr, sc_options = with_defaults opts,
              sc_change_pending = False, sc_known = [], sc_published = [], sc_force = []\<rparr>)"
  by (auto simp: new_scheduler_def validate_options_def with_defaults_def or_default_def
      default_options split: option.splits if_splits)

text \<open>With any provider of the interface, a token is only ever rejected for its lifetime.\<close>

context token_provider
begin

lemma rejected_for_lifetime:
  assumes "refresh digest get key before after answer meanwhile world s
      = (s', acts, Some (Token_Rejected why), world')"
  shows "\<exists>d. why = Token_Expires_Soon d"
proof -
  obtain s1 acts0 and r :: "'e begun"
    where begun: "refresh_begin digest key before answer s = (s1, acts0, r)"
    by (metis prod_cases3)
  have no_reject: "r \<noteq> Returned (Some (Token_Rejected why))"
    using begun by (auto simp: refresh_begin_def publish_credential_def
        split: option.splits prod.splits if_splits)
  then obtain rq registry handled response acts2 where call: "get world rq = (response, world')"
    and finish: "refresh_end digest key registry handled response after answer (meanwhile s1)
        = (s', acts2, Some (Token_Rejected why))"
    using assms begun by (auto simp: refresh_def split: begun.splits prod.splits)
  from finish show ?thesis
  proof (cases rule: refresh_end_cases)
    case (rejected t current why')
    then show ?thesis using get_nonempty [of world rq t world'] call
      by (auto simp: validate_token_def split: if_splits)
  next
    case (installed t current)
    from installed(5) show ?thesis
      by (rule install_and_publish_facts)
        (auto simp: publish_credential_def split: if_splits option.splits)
  qed auto
qed

end

text \<open>
  With the ACR provider, the scheduler rejects a token for one reason only: that it expires
  inside the refresh window. The checks for an empty username and an empty password never
  fire, as the provider has made them.
\<close>

lemma acr_token_rejected_for_lifetime:
  assumes "refresh digest (acr_get_authorization_token env) key before after answer meanwhile world s
      = (s', acts, Some (Token_Rejected why), world')"
  shows "\<exists>d. why = Token_Expires_Soon d"
  using assms by (rule acr.rejected_for_lifetime)

text \<open>A service that answers every call with a token that expires at once.\<close>

definition sample_acr_env :: "(unit, unit) acr_env" where
  "sample_acr_env =
     \<lparr>ae_new_client = (\<lambda>w rq. Some ()),
      ae_invoke = (\<lambda>w c instance hours.
        (Inr (Some \<lparr>ar_status_code = Some 200, ar_body = Some \<lparr>ab_is_success = Some True,
          ab_code = None, ab_temp_username = Some ''u'', ab_authorization_token = Some ''p'',
          ab_expire_time = Some 1\<rparr>\<rparr>), w))\<rparr>"

lemma acr_token_rejected_for_lifetime_witness:
  "\<exists>d. fst (snd (snd (refresh sample_digest (acr_get_authorization_token sample_acr_env) sample_key
      0 5 None id () sample_scheduler))) = Some (Token_Rejected (Token_Expires_Soon d))"
proof -
  let ?r = "refresh sample_digest (acr_get_authorization_token sample_acr_env) sample_key
      0 5 None id () sample_scheduler"
  obtain s' acts err world' where run: "?r = (s', acts, err, world')" by (metis prod_cases4)
  have "fst (snd (snd ?r)) = Some (Token_Rejected (Token_Expires_Soon (5 * minute)))" by code_simp
  then have "?r = (s', acts, Some (Token_Rejected (Token_Expires_Soon (5 * minute))), world')"
    using run by simp
  from acr_token_rejected_for_lifetime [OF this] run \<open>fst (snd (snd ?r)) = _\<close> show ?thesis by simp
qed

end
