(* ===== verification/BuildSpec.thy ===== *)
theory BuildSpec
  imports SecretBuilder Scheduler "HOL-Library.Multiset"
begin

text \<open>
  What \<open>Build\<close> promises, and the proof that it does: each configured domain carries the
  credential of the one registry that owns it, current or retained, and nothing else is in
  the documents; the documents do not depend on the order in which maps are visited, neither
  the configured registries nor the raw entries of the existing Secret, exactly as long as
  registries that share a key of the registry state also share the state.
\<close>

section \<open>Writes into a map\<close>

definition put_all :: "('k \<times> 'v) list \<Rightarrow> ('k, 'v) gomap \<Rightarrow> ('k, 'v) gomap" where
  "put_all ws m = fold (\<lambda>(k, v). gm_put k v) ws m"

lemma put_all_simps [simp]:
  "put_all [] m = m"
  "put_all ((k, v) # ws) m = put_all ws (gm_put k v m)"
  "put_all (ws @ ws') m = put_all ws' (put_all ws m)"
  by (simp_all add: put_all_def)

lemma put_all_const: "fold (\<lambda>k. gm_put k v) ks m = put_all (map (\<lambda>k. (k, v)) ks) m"
  by (induction ks arbitrary: m) auto

lemma gm_wf_put_all [simp]: "gm_wf m \<Longrightarrow> gm_wf (put_all ws m)"
  by (induction ws arbitrary: m) auto

definition functional :: "('k \<times> 'v) list \<Rightarrow> bool" where
  "functional ws \<longleftrightarrow> (\<forall>(k, v) \<in> set ws. \<forall>(k', v') \<in> set ws. k = k' \<longrightarrow> v = v')"

lemma functionalD: "functional ws \<Longrightarrow> (k, v) \<in> set ws \<Longrightarrow> (k, v') \<in> set ws \<Longrightarrow> v = v'"
  by (auto simp: functional_def)

lemma put_all_get_other: "k \<notin> fst ` set ws \<Longrightarrow> gm_get (put_all ws m) k = gm_get m k"
  by (induction ws arbitrary: m) (auto simp: map_laws)

lemma put_all_get:
  assumes "functional ws"
  shows "gm_get (put_all ws m) k = Some v \<longleftrightarrow>
    (k, v) \<in> set ws \<or> (k \<notin> fst ` set ws \<and> gm_get m k = Some v)"
  using assms
proof (induction ws arbitrary: m)
  case (Cons w ws)
  obtain a b where w: "w = (a, b)" by (cases w)
  have fn: "functional ws" using Cons.prems by (auto simp: functional_def)
  have same: "b' = b" if "(a, b') \<in> set ws" for b'
    using functionalD [OF Cons.prems, of a b' b] that w by simp
  show ?case
  proof (cases "k \<in> fst ` set ws")
    case True
    then show ?thesis
      using Cons.IH [OF fn, of "gm_put a b m"] same w by (auto simp: map_laws split: if_splits)
  next
    case False
    then show ?thesis
      using Cons.IH [OF fn, of "gm_put a b m"] w
      by (auto simp: map_laws image_iff split: if_splits)
  qed
qed simp

lemma put_all_cong:
  assumes "functional ws" "set ws' = set ws"
  shows "gm_get (put_all ws' []) = gm_get (put_all ws [])"
proof
  fix k
  have fn: "functional ws'" using assms by (simp add: functional_def)
  show "gm_get (put_all ws' []) k = gm_get (put_all ws []) k"
  proof (cases "gm_get (put_all ws []) k")
    case None
    have "gm_get (put_all ws' []) k \<noteq> Some v" for v
      using put_all_get [OF fn, of "[]" k v] put_all_get [OF assms(1), of "[]" k v] None assms(2)
      by simp
    with None show ?thesis by (cases "gm_get (put_all ws' []) k") auto
  next
    case (Some v)
    then show ?thesis
      using put_all_get [OF fn, of "[]" k v] put_all_get [OF assms(1), of "[]" k v] assms(2) by simp
  qed
qed

section \<open>What each registry contributes\<close>

definition current_credential ::
  "codec \<Rightarrow> (registry_key, entry) gomap \<Rightarrow> registry_key \<times> registry_config \<Rightarrow> credential option" where
  "current_credential cd credentials item =
     (case gm_get credentials (fst item) of
        None \<Rightarrow> None
      | Some e \<Rightarrow>
          if matches_registry (codec_digest cd) e (snd item) then Some (en_credential e) else None)"

definition domain_writes :: "docker_config \<Rightarrow> string \<Rightarrow> (string \<times> docker_auth) option" where
  "domain_writes existing d =
     (case gm_get (dc_auths existing) d of
        None \<Rightarrow> None
      | Some a \<Rightarrow> if auth_valid a then Some (d, a) else None)"

definition retained_auths ::
  "docker_config \<times> persisted_state \<Rightarrow> registry_config \<Rightarrow> (string \<times> docker_auth) list" where
  "retained_auths docs registry =
     (case gm_get (ps_registries (snd docs)) (key_string (config_key registry)) of
        None \<Rightarrow> []
      | Some rs \<Rightarrow>
          if \<not> state_usable rs then []
          else List.map_filter (domain_writes (fst docs)) (rc_domains registry))"

definition retained_states ::
  "docker_config \<times> persisted_state \<Rightarrow> registry_config \<Rightarrow> (string \<times> registry_state) list" where
  "retained_states docs registry =
     (if retained_auths docs registry = [] then []
      else (case gm_get (ps_registries (snd docs)) (key_string (config_key registry)) of
          None \<Rightarrow> []
        | Some rs \<Rightarrow> [(key_string (config_key registry), rs)]))"

definition auth_writes ::
  "codec \<Rightarrow> (registry_key, entry) gomap \<Rightarrow> docker_config \<times> persisted_state
     \<Rightarrow> registry_key \<times> registry_config \<Rightarrow> (string \<times> docker_auth) list" where
  "auth_writes cd credentials docs item =
     (case current_credential cd credentials item of
        Some c \<Rightarrow> map (\<lambda>d. (d, docker_auth_of c)) (rc_domains (snd item))
      | None \<Rightarrow> retained_auths docs (snd item))"

definition state_writes ::
  "codec \<Rightarrow> (registry_key, entry) gomap \<Rightarrow> docker_config \<times> persisted_state
     \<Rightarrow> registry_key \<times> registry_config \<Rightarrow> (string \<times> registry_state) list" where
  "state_writes cd credentials docs item =
     (case current_credential cd credentials item of
        Some c \<Rightarrow> [(key_string (config_key (snd item)), registry_state_of cd (snd item) c)]
      | None \<Rightarrow> retained_states docs (snd item))"

text \<open>The documents read from the existing Secret, empty when there is nothing to read.\<close>

definition existing_docs :: "codec \<Rightarrow> secret option \<Rightarrow> docker_config \<times> persisted_state" where
  "existing_docs cd existing =
     (case existing of
        None \<Rightarrow> empty_documents
      | Some s \<Rightarrow> (case parse_existing cd s of (docker, state, _, _) \<Rightarrow> (docker, state)))"

definition write_docs ::
  "(string \<times> docker_auth) list \<Rightarrow> (string \<times> registry_state) list
     \<Rightarrow> docker_config \<times> persisted_state \<Rightarrow> docker_config \<times> persisted_state" where
  "write_docs aws sws docs =
     (case docs of (docker, state) \<Rightarrow>
        (docker\<lparr>dc_auths := put_all aws (dc_auths docker)\<rparr>,
         state\<lparr>ps_registries := put_all sws (ps_registries state)\<rparr>))"

lemma write_docs_simps [simp]:
  "write_docs [] [] docs = docs"
  "write_docs aws' sws' (write_docs aws sws docs) = write_docs (aws @ aws') (sws @ sws') docs"
  by (simp_all add: write_docs_def split: prod.splits)

lemma add_credential_writes:
  "add_credential cd registry c docs =
     write_docs (map (\<lambda>d. (d, docker_auth_of c)) (rc_domains registry))
       [(key_string (config_key registry), registry_state_of cd registry c)] docs"
  by (simp add: add_credential_def write_docs_def put_all_const split: prod.splits)

section \<open>The loops\<close>

lemma build_registry_fold:
  "fold (build_registry cd credentials) items (docs, pending) =
     (write_docs
        (concat (map (auth_writes cd credentials none)
          (filter (\<lambda>i. current_credential cd credentials i \<noteq> None) items)))
        (concat (map (state_writes cd credentials none)
          (filter (\<lambda>i. current_credential cd credentials i \<noteq> None) items))) docs,
      pending @ map snd (filter (\<lambda>i. current_credential cd credentials i = None) items))"
proof (induction items arbitrary: docs pending)
  case (Cons item items)
  obtain key registry where item: "item = (key, registry)" by (cases item)
  show ?case
  proof (cases "current_credential cd credentials item")
    case None
    then have "build_registry cd credentials item (docs, pending) = (docs, pending @ [registry])"
      by (auto simp: build_registry_def current_credential_def item split: option.splits if_splits)
    with None Cons.IH show ?thesis by (simp add: item)
  next
    case (Some c)
    then have "build_registry cd credentials item (docs, pending) =
        (add_credential cd registry c docs, pending)"
      by (auto simp: build_registry_def current_credential_def item split: option.splits if_splits)
    with Some Cons.IH show ?thesis
      by (simp add: item add_credential_writes auth_writes_def state_writes_def)
  qed
qed simp

definition domain_problems ::
  "registry_config \<Rightarrow> docker_config \<Rightarrow> string \<Rightarrow> build_error list" where
  "domain_problems registry existing d =
     (case gm_get (dc_auths existing) d of
        None \<Rightarrow> []
      | Some a \<Rightarrow> if auth_valid a then [] else [Invalid_Existing_Auth (config_key registry) d])"

lemma retain_domain_fold:
  "fold (retain_domain registry existing) domains (docker, retained, problems) =
     (docker\<lparr>dc_auths := put_all (List.map_filter (domain_writes existing) domains) (dc_auths docker)\<rparr>,
      retained \<or> List.map_filter (domain_writes existing) domains \<noteq> [],
      problems @ concat (map (domain_problems registry existing) domains))"
proof (induction domains arbitrary: docker retained problems)
  case (Cons d domains)
  have one: "retain_domain registry existing d (docker, retained, problems) =
     (docker\<lparr>dc_auths := put_all (case domain_writes existing d of None \<Rightarrow> [] | Some w \<Rightarrow> [w])
        (dc_auths docker)\<rparr>, retained \<or> domain_writes existing d \<noteq> None,
      problems @ domain_problems registry existing d)"
    by (simp add: retain_domain_def domain_writes_def domain_problems_def split: option.splits)
  show ?case
    by (simp add: one Cons.IH map_filter_simps split: option.splits)
qed (simp add: map_filter_simps)

text \<open>The problems a pending registry reports do not depend on what was written before it.\<close>

definition retained_problems ::
  "docker_config \<times> persisted_state \<Rightarrow> registry_config \<Rightarrow> build_error list" where
  "retained_problems existing registry =
     snd (retain_pending registry (fst existing) (snd existing) empty_documents)"

lemma retain_pending_writes:
  "retain_pending registry (fst existing) (snd existing) docs =
     (write_docs (retained_auths existing registry) (retained_states existing registry) docs,
      retained_problems existing registry)"
proof -
  obtain docker state where docs: "docs = (docker, state)" by (cases docs)
  show ?thesis
  proof (cases "gm_get (ps_registries (snd existing)) (key_string (config_key registry))")
    case None
    then show ?thesis
      by (simp add: retain_pending_def retained_auths_def retained_states_def
          retained_problems_def Let_def)
  next
    case (Some rs)
    then show ?thesis
      by (simp add: retain_pending_def retained_auths_def retained_states_def Let_def docs
          write_docs_def retain_domain_fold retained_problems_def empty_documents_def)
  qed
qed

lemma retain_step_fold:
  "fold (retain_step (fst existing) (snd existing)) pending (docs, problems) =
     (write_docs (concat (map (retained_auths existing) pending))
        (concat (map (retained_states existing) pending)) docs,
      problems @ concat (map (retained_problems existing) pending))"
proof (induction pending arbitrary: docs problems)
  case (Cons registry pending)
  have one: "retain_step (fst existing) (snd existing) registry (docs, problems) =
     (write_docs (retained_auths existing registry) (retained_states existing registry) docs,
      problems @ retained_problems existing registry)"
    by (simp add: retain_step_def retain_pending_writes)
  show ?case by (simp add: one Cons.IH)
qed simp

section \<open>The documents\<close>

definition is_current :: "codec \<Rightarrow> (registry_key, entry) gomap \<Rightarrow> registry_key \<times> registry_config \<Rightarrow> bool" where
  "is_current cd credentials item \<longleftrightarrow> current_credential cd credentials item \<noteq> None"

text \<open>The order of the writes: the registries with a current credential, then the pending ones.\<close>

definition ordered ::
  "codec \<Rightarrow> (registry_key, entry) gomap \<Rightarrow> registry_map \<Rightarrow> registry_map" where
  "ordered cd credentials items =
     filter (is_current cd credentials) items @ filter (\<lambda>i. \<not> is_current cd credentials i) items"

lemma set_ordered [simp]: "set (ordered cd credentials items) = set items"
  by (auto simp: ordered_def)

lemma retained_none:
  "ps_registries (snd docs) = [] \<Longrightarrow> retained_auths docs r = [] \<and> retained_states docs r = []"
  by (simp add: retained_auths_def retained_states_def)

lemma build_documents_writes:
  "fst (build_documents cd snapshot credentials existing) =
     write_docs
       (concat (map (auth_writes cd credentials (existing_docs cd existing))
          (ordered cd credentials (cs_registries snapshot))))
       (concat (map (state_writes cd credentials (existing_docs cd existing))
          (ordered cd credentials (cs_registries snapshot)))) empty_documents"
proof -
  let ?regs = "cs_registries snapshot"
  let ?cur = "filter (is_current cd credentials) ?regs"
  let ?pend = "filter (\<lambda>i. \<not> is_current cd credentials i) ?regs"
  let ?ex = "existing_docs cd existing"
  have pend: "auth_writes cd credentials ?ex i = retained_auths ?ex (snd i) \<and>
      state_writes cd credentials ?ex i = retained_states ?ex (snd i)"
    if "\<not> is_current cd credentials i" for i
    using that by (auto simp: is_current_def auth_writes_def state_writes_def)
  let ?aws = "concat (map (auth_writes cd credentials ?ex) ?cur)"
  let ?sws = "concat (map (state_writes cd credentials ?ex) ?cur)"
  have first: "fold (build_registry cd credentials) ?regs (empty_documents, []) =
     (write_docs ?aws ?sws empty_documents, map snd ?pend)"
    using build_registry_fold [of cd credentials ?regs empty_documents "[]" ?ex]
    by (simp add: is_current_def [abs_def])
  have split: "concat (map (auth_writes cd credentials ?ex) (ordered cd credentials ?regs)) =
      ?aws @ concat (map (retained_auths ?ex) (map snd ?pend))"
    "concat (map (state_writes cd credentials ?ex) (ordered cd credentials ?regs)) =
      ?sws @ concat (map (retained_states ?ex) (map snd ?pend))"
    using pend by (auto simp: ordered_def comp_def intro!: arg_cong [where f = concat] map_cong)
  have none_kept: "concat (map (retained_auths ?ex) rs) = [] \<and> concat (map (retained_states ?ex) rs) = []"
    if "ps_registries (snd ?ex) = []" for rs
    using retained_none [OF that] by simp
  show ?thesis
  proof (cases existing)
    case None
    then have "ps_registries (snd ?ex) = []" by (simp add: existing_docs_def empty_documents_def)
    then have none: "concat (map (retained_auths ?ex) (map snd ?pend)) = []"
      "concat (map (retained_states ?ex) (map snd ?pend)) = []"
      using none_kept by blast+
    have "fst (build_documents cd snapshot credentials existing) = write_docs ?aws ?sws empty_documents"
      using first by (simp add: build_documents_unfold None)
    then show ?thesis by (simp only: split none append_Nil2)
  next
    case (Some s)
    obtain docker state present problems
      where parsed: "parse_existing cd s = (docker, state, present, problems)"
      by (metis prod_cases4)
    then have ex: "?ex = (docker, state)" by (simp add: existing_docs_def Some)
    show ?thesis
    proof (cases "map snd ?pend = [] \<or> \<not> present")
      case True
      then have "map snd ?pend = [] \<or> ps_registries (snd ?ex) = []"
        using parsed ex by (auto simp: parse_existing_unfold Let_def split: if_splits prod.splits)
      then have none: "concat (map (retained_auths ?ex) (map snd ?pend)) = []"
        "concat (map (retained_states ?ex) (map snd ?pend)) = []"
        using none_kept [of "map snd ?pend"] by (metis list.map(1) concat.simps(1))+
      have "fst (build_documents cd snapshot credentials existing) = write_docs ?aws ?sws empty_documents"
        using True first parsed by (auto simp: build_documents_unfold Some)
      then show ?thesis by (simp only: split none append_Nil2)
    next
      case False
      have "fst (build_documents cd snapshot credentials existing) =
          fst (fold (retain_step (fst ?ex) (snd ?ex)) (map snd ?pend)
            (write_docs ?aws ?sws empty_documents, problems))"
        using False first parsed ex by (simp add: build_documents_unfold Some)
      then show ?thesis by (simp only: split retain_step_fold write_docs_simps fst_conv)
    qed
  qed
qed

section \<open>Each domain carries its owner's credential\<close>

lemma retained_auths_mem:
  "(d, a) \<in> set (retained_auths docs r) \<longleftrightarrow>
     d \<in> set (rc_domains r) \<and> gm_get (dc_auths (fst docs)) d = Some a \<and> auth_valid a
     \<and> (\<exists>rs. gm_get (ps_registries (snd docs)) (key_string (config_key r)) = Some rs
          \<and> state_usable rs)"
  by (force simp: retained_auths_def map_filter_def domain_writes_def
      split: option.splits if_splits)

lemma auth_writes_mem:
  "(d, a) \<in> set (auth_writes cd credentials docs item) \<longleftrightarrow>
     (case current_credential cd credentials item of
        Some c \<Rightarrow> d \<in> set (rc_domains (snd item)) \<and> a = docker_auth_of c
      | None \<Rightarrow> (d, a) \<in> set (retained_auths docs (snd item)))"
  by (auto simp: auth_writes_def split: option.splits)

lemma auth_writes_domain:
  "(d, a) \<in> set (auth_writes cd credentials docs item) \<Longrightarrow> d \<in> set (rc_domains (snd item))"
  by (auto simp: auth_writes_mem retained_auths_mem split: option.splits)

lemma registries_wf_owner:
  assumes "registries_wf env m" "(k, r) \<in> set m" "(k', r') \<in> set m"
    and "d \<in> set (rc_domains r)" "d \<in> set (rc_domains r')"
  shows "k = k' \<and> r = r'"
proof -
  have "set (rc_domains r) \<inter> set (rc_domains r') \<noteq> {}" using assms(4,5) by blast
  then have k: "k = k'" using assms(1-3) by (fastforce simp: registries_wf_def)
  then have "gm_get m k = Some r" "gm_get m k = Some r'"
    using assms(1-3) gm_get_mem [of m] by (auto simp: registries_wf_def)
  with k show ?thesis by simp
qed

lemma auth_writes_functional:
  assumes "registries_wf env m" "set items = set m"
  shows "functional (concat (map (auth_writes cd credentials docs) items))"
  unfolding functional_def
proof (clarsimp simp: assms(2))
  fix d a a' k r k' r'
  assume item: "(k, r) \<in> set m" "(d, a) \<in> set (auth_writes cd credentials docs (k, r))"
    and item': "(k', r') \<in> set m" "(d, a') \<in> set (auth_writes cd credentials docs (k', r'))"
  then have "k = k' \<and> r = r'"
    using registries_wf_owner [OF assms(1) item(1) item'(1)] auth_writes_domain by fastforce
  then show "a = a'"
    using item(2) item'(2) by (auto simp: auth_writes_mem retained_auths_mem split: option.splits)
qed

lemma build_auths_writes:
  "dc_auths (fst (fst (build_documents cd snapshot credentials existing))) =
     put_all (concat (map (auth_writes cd credentials (existing_docs cd existing))
          (ordered cd credentials (cs_registries snapshot)))) []"
  by (simp add: build_documents_writes write_docs_def empty_documents_def)

lemma build_states_writes:
  "ps_registries (snd (fst (build_documents cd snapshot credentials existing))) =
     put_all (concat (map (state_writes cd credentials (existing_docs cd existing))
          (ordered cd credentials (cs_registries snapshot)))) []"
  "ps_version (snd (fst (build_documents cd snapshot credentials existing))) = state_version"
  by (simp_all add: build_documents_writes write_docs_def empty_documents_def)

lemma build_auths:
  assumes "registries_wf env (cs_registries snapshot)"
  shows "gm_get (dc_auths (fst (fst (build_documents cd snapshot credentials existing)))) d = Some a
    \<longleftrightarrow> (\<exists>item \<in> set (cs_registries snapshot).
          (d, a) \<in> set (auth_writes cd credentials (existing_docs cd existing) item))"
  using put_all_get [where m = "[]" and k = d and v = a,
      OF auth_writes_functional [OF assms set_ordered [of cd credentials], of cd credentials
        "existing_docs cd existing"]]
  by (simp add: build_auths_writes)

text \<open>
  C2: In the Docker config that \<open>Build\<close> produces, a domain has an entry exactly when some
  configured registry owns it and either that registry's stored credential was obtained with
  its configured identity and access key, in which case the entry is this credential's, or it
  has none such and the existing Secret holds a usable state for the registry and a valid
  auth for the domain, in which case this old auth is retained unchanged. No other
  registry's credential, and no domain that left the configuration, can appear.
\<close>

theorem build_auths_spec:
  assumes "registries_wf env (cs_registries snapshot)"
  shows "gm_get (dc_auths (fst (fst (build_documents cd snapshot credentials existing)))) d = Some a
    \<longleftrightarrow> (\<exists>(key, registry) \<in> set (cs_registries snapshot). d \<in> set (rc_domains registry) \<and>
          (case current_credential cd credentials (key, registry) of
             Some c \<Rightarrow> a = docker_auth_of c
           | None \<Rightarrow>
               gm_get (dc_auths (fst (existing_docs cd existing))) d = Some a \<and> auth_valid a
               \<and> (\<exists>rs. gm_get (ps_registries (snd (existing_docs cd existing))) (key_string key) = Some rs
                    \<and> state_usable rs)))"
proof -
  have key: "config_key r = k" if "(k, r) \<in> set (cs_registries snapshot)" for k r
    using assms that by (auto simp: registries_wf_def)
  have item: "(d, a) \<in> set (auth_writes cd credentials (existing_docs cd existing) (k, r)) \<longleftrightarrow>
      d \<in> set (rc_domains r) \<and>
          (case current_credential cd credentials (k, r) of
             Some c \<Rightarrow> a = docker_auth_of c
           | None \<Rightarrow>
               gm_get (dc_auths (fst (existing_docs cd existing))) d = Some a \<and> auth_valid a
               \<and> (\<exists>rs. gm_get (ps_registries (snd (existing_docs cd existing))) (key_string k) = Some rs
                    \<and> state_usable rs))"
    if "(k, r) \<in> set (cs_registries snapshot)" for k r
    using key [OF that] by (cases "current_credential cd credentials (k, r)")
      (simp_all add: auth_writes_mem retained_auths_mem)
  show ?thesis
    unfolding build_auths [OF assms] using item by (intro bex_cong refl) (clarsimp split del: option.split)
qed

section \<open>The order of maps does not matter\<close>

definition plain_keys :: "registry_map \<Rightarrow> bool" where
  "plain_keys m \<longleftrightarrow> (\<forall>(k, r) \<in> set m. CHR ''/'' \<notin> set (key_region k))"

lemma state_writes_key:
  "(s, rs) \<in> set (state_writes cd credentials docs item) \<Longrightarrow> s = key_string (config_key (snd item))"
  by (auto simp: state_writes_def retained_states_def split: option.splits if_splits)

lemma state_writes_unique:
  "(s, rs) \<in> set (state_writes cd credentials docs item) \<Longrightarrow>
   (s', rs') \<in> set (state_writes cd credentials docs item) \<Longrightarrow> rs = rs'"
  by (auto simp: state_writes_def retained_states_def split: option.splits if_splits)

lemma state_writes_functional:
  assumes "registries_wf env m" "plain_keys m" "set items = set m"
  shows "functional (concat (map (state_writes cd credentials docs) items))"
  unfolding functional_def
proof (clarsimp simp: assms(3))
  fix s rs rs' k r k' r'
  assume item: "(k, r) \<in> set m" "(s, rs) \<in> set (state_writes cd credentials docs (k, r))"
    and item': "(k', r') \<in> set m" "(s, rs') \<in> set (state_writes cd credentials docs (k', r'))"
  have "key_string (config_key r) = key_string (config_key r')"
    using state_writes_key [OF item(2)] state_writes_key [OF item'(2)] by simp
  moreover have keys: "config_key r = k" "config_key r' = k'"
    using item(1) item'(1) assms(1) by (auto simp: registries_wf_def)
  ultimately have "k = k'"
    using key_string_inject [of k k'] item(1) item'(1) assms(2) by (auto simp: plain_keys_def)
  have "gm_wf m" using assms(1) by (simp add: registries_wf_def)
  then have "gm_get m k = Some r" "gm_get m k' = Some r'"
    using item(1) item'(1) by (simp_all add: gm_get_mem)
  with \<open>k = k'\<close> have "r = r'" by simp
  show "rs = rs'"
    by (rule state_writes_unique [OF item(2)])
      (use item'(2) \<open>k = k'\<close> \<open>r = r'\<close> in simp)
qed

lemma writes_cong:
  assumes "gm_get credentials' = gm_get credentials"
  shows "auth_writes cd credentials' docs item = auth_writes cd credentials docs item"
    and "state_writes cd credentials' docs item = state_writes cd credentials docs item"
  using assms by (simp_all add: auth_writes_def state_writes_def current_credential_def)

lemma same_lookup_set:
  assumes "gm_wf m" "gm_wf m'" "gm_get m = gm_get m'"
  shows "set m = set m'"
  using assms map_of_inject_set [of m m'] by (simp add: gm_wf_def)

lemma build_sorted_docs:
  assumes "registries_wf env (cs_registries snapshot)" "plain_keys (cs_registries snapshot)"
    and "registries_wf env (cs_registries snapshot')"
    and "gm_get (cs_registries snapshot') = gm_get (cs_registries snapshot)"
    and "gm_get credentials' = gm_get credentials"
  shows "gm_sorted (dc_auths (fst (fst (build_documents cd snapshot' credentials' existing)))) =
      gm_sorted (dc_auths (fst (fst (build_documents cd snapshot credentials existing))))"
    and "gm_sorted (ps_registries (snd (fst (build_documents cd snapshot' credentials' existing)))) =
      gm_sorted (ps_registries (snd (fst (build_documents cd snapshot credentials existing))))"
proof -
  let ?ex = "existing_docs cd existing"
  have regs: "set (cs_registries snapshot') = set (cs_registries snapshot)"
    by (rule same_lookup_set) (use assms in \<open>auto simp: registries_wf_def\<close>)
  note cong = writes_cong [OF assms(5), of cd ?ex]
  show "gm_sorted (dc_auths (fst (fst (build_documents cd snapshot' credentials' existing)))) =
      gm_sorted (dc_auths (fst (fst (build_documents cd snapshot credentials existing))))"
    unfolding build_auths_writes
  proof (rule gm_sorted_cong)
    show "gm_get (put_all (concat (map (auth_writes cd credentials' ?ex)
          (ordered cd credentials' (cs_registries snapshot')))) []) =
        gm_get (put_all (concat (map (auth_writes cd credentials ?ex)
          (ordered cd credentials (cs_registries snapshot)))) [])"
      by (rule put_all_cong [OF auth_writes_functional [OF assms(1) set_ordered]])
        (simp add: regs cong)
  qed simp_all
  show "gm_sorted (ps_registries (snd (fst (build_documents cd snapshot' credentials' existing)))) =
      gm_sorted (ps_registries (snd (fst (build_documents cd snapshot credentials existing))))"
    unfolding build_states_writes
  proof (rule gm_sorted_cong)
    show "gm_get (put_all (concat (map (state_writes cd credentials' ?ex)
          (ordered cd credentials' (cs_registries snapshot')))) []) =
        gm_get (put_all (concat (map (state_writes cd credentials ?ex)
          (ordered cd credentials (cs_registries snapshot)))) [])"
      by (rule put_all_cong [OF state_writes_functional [OF assms(1,2) set_ordered]])
        (simp add: regs cong)
  qed simp_all
qed

lemma gm_sorted_Nil_iff: "gm_sorted m = [] \<longleftrightarrow> m = []"
  by (metis set_gm_sorted set_empty)

lemma build_content:
  "fst (build cd snapshot credentials existing) =
     (let docs = fst (build_documents cd snapshot credentials existing)
      in case state_json cd (snd docs) of
           None \<Rightarrow> empty_content
         | Some j \<Rightarrow>
             \<lparr>ct_docker_json = cd_text cd (docker_json (fst docs)), ct_state_json = cd_text cd j,
              ct_has_auth = dc_auths (fst docs) \<noteq> []\<rparr>)"
  by (simp add: build_unfold render_def Let_def split: prod.splits option.splits)

section \<open>The order of the raw entries does not matter\<close>

text \<open>A range loop visits each entry exactly once, in an order of its own.\<close>

definition visits_all :: "visit_order \<Rightarrow> bool" where
  "visits_all vo \<longleftrightarrow> (\<forall>raw. mset (vo_auths vo raw) = mset raw \<and> mset (vo_registries vo raw) = mset raw)"

lemma visits_all_as_stored [simp]: "visits_all as_stored"
  by (simp add: visits_all_def)

definition decoded_entry :: "(json \<Rightarrow> 'a \<times> bool) \<Rightarrow> string \<times> json \<Rightarrow> (string \<times> 'a) option" where
  "decoded_entry decode entry =
     (if snd (decode (snd entry)) then Some (fst entry, fst (decode (snd entry))) else None)"

lemma collect_entry_fold:
  "fold (collect_entry decode problem) raw (m, problems) =
     (put_all (List.map_filter (decoded_entry decode) raw) m,
      problems @ replicate (length (filter (\<lambda>entry. decoded_entry decode entry = None) raw)) problem)"
proof (induction raw arbitrary: m problems)
  case (Cons entry raw)
  obtain key j where entry: "entry = (key, j)" by (cases entry)
  obtain v ok where decoded: "decode j = (v, ok)" by (cases "decode j")
  show ?case
    using Cons.IH
    by (cases ok) (simp_all add: entry decoded collect_entry_def decoded_entry_def map_filter_simps)
qed (simp add: map_filter_simps)

lemma decoded_functional:
  assumes "gm_wf raw"
  shows "functional (List.map_filter (decoded_entry decode) raw)"
proof -
  have same: "j = j'" if "(k, j) \<in> set raw" "(k, j') \<in> set raw" for k j j'
    using that assms gm_get_mem [of raw k j] gm_get_mem [of raw k j'] by simp
  show ?thesis
    unfolding functional_def
    by (auto simp: map_filter_def decoded_entry_def split: if_splits dest: same)
qed

lemma collect_entry_visits:
  assumes "gm_wf raw" "mset raw' = mset raw"
  shows "gm_get (fst (fold (collect_entry decode problem) raw' ([], problems)))
      = gm_get (fst (fold (collect_entry decode problem) raw ([], problems)))"
    and "snd (fold (collect_entry decode problem) raw' (m, problems))
      = snd (fold (collect_entry decode problem) raw (m, problems))"
proof -
  have "set raw' = set raw" using assms(2) by (rule mset_eq_setD)
  then have "set (List.map_filter (decoded_entry decode) raw')
      = set (List.map_filter (decoded_entry decode) raw)"
    by (simp add: map_filter_def)
  then show "gm_get (fst (fold (collect_entry decode problem) raw' ([], problems)))
      = gm_get (fst (fold (collect_entry decode problem) raw ([], problems)))"
    unfolding collect_entry_fold fst_conv by (rule put_all_cong [OF decoded_functional [OF assms(1)]])
  have "mset (filter P raw') = mset (filter P raw)" for P using assms(2) by simp
  then have "length (filter P raw') = length (filter P raw)" for P by (metis size_mset)
  then show "snd (fold (collect_entry decode problem) raw' (m, problems))
      = snd (fold (collect_entry decode problem) raw (m, problems))"
    by (simp add: collect_entry_fold)
qed

text \<open>The raw entries come out of the decoder as a map.\<close>

lemma decode_raw_map_wf:
  "pred_option gm_wf previous \<Longrightarrow> pred_option gm_wf (fst (decode_raw_map j previous))"
  by (auto simp: decode_raw_map_def simp flip: put_all_def split: json.splits option.splits)

lemma fold_invariant_all:
  assumes "Q st" "\<And>x st. Q st \<Longrightarrow> Q (f x st)"
  shows "Q (fold f xs st)"
  using assms by (induction xs arbitrary: st) auto

lemma decode_docker_envelope_wf: "pred_option gm_wf (fst (decode_docker_envelope j))"
  unfolding decode_docker_envelope_def decode_struct_def
  by (cases j) (auto intro!: fold_invariant_all [where Q = "\<lambda>st. pred_option gm_wf (fst st)"]
      simp: decode_raw_map_wf case_prod_unfold)

lemma decode_state_envelope_wf: "pred_option gm_wf (snd (fst (decode_state_envelope j)))"
  unfolding decode_state_envelope_def decode_struct_def
  by (cases j) (auto intro!: fold_invariant_all [where Q = "\<lambda>st. pred_option gm_wf (snd (fst st))"]
      simp: decode_raw_map_wf case_prod_unfold)

text \<open>Two readings of the existing Secret that differ only in how their maps are enumerated.\<close>

definition same_reading ::
  "docker_config \<times> persisted_state \<times> bool \<times> build_error list
     \<Rightarrow> docker_config \<times> persisted_state \<times> bool \<times> build_error list \<Rightarrow> bool" where
  "same_reading x y \<longleftrightarrow>
     gm_get (dc_auths (fst x)) = gm_get (dc_auths (fst y))
     \<and> gm_get (ps_registries (fst (snd x))) = gm_get (ps_registries (fst (snd y)))
     \<and> snd (snd x) = snd (snd y)"

lemma existing_auths_visits:
  assumes "visits_all vo"
  shows "gm_get (fst (existing_auths vo cd s)) = gm_get (fst (existing_auths as_stored cd s))"
    and "snd (existing_auths vo cd s) = snd (existing_auths as_stored cd s)"
proof -
  have visits: "mset (vo_auths vo raw) = mset raw" for raw using assms by (simp add: visits_all_def)
  obtain found ok where read: "unmarshal cd decode_docker_envelope None
      (gm_get0 [] (se_data s) docker_config_json_key) = (found, ok)" by fastforce
  have wf: "pred_option gm_wf (fst (unmarshal cd decode_docker_envelope None doc))" for doc
    by (simp add: unmarshal_def decode_docker_envelope_wf split: option.splits)
  have [simp]: "gm_wf raw" if "found = Some raw" for raw
    using wf [of "gm_get0 [] (se_data s) docker_config_json_key"] read that by simp
  then show "gm_get (fst (existing_auths vo cd s)) = gm_get (fst (existing_auths as_stored cd s))"
    "snd (existing_auths vo cd s) = snd (existing_auths as_stored cd s)"
    by (cases found; cases ok; simp add: existing_auths_def read collect_entry_visits [OF _ visits])+
qed

lemma existing_states_visits:
  assumes "visits_all vo"
  shows "gm_get (fst (existing_states vo cd s problems)) = gm_get (fst (existing_states as_stored cd s problems))"
    and "snd (existing_states vo cd s problems) = snd (existing_states as_stored cd s problems)"
proof -
  have visits: "mset (vo_registries vo raw) = mset raw" for raw using assms by (simp add: visits_all_def)
  obtain version found ok where read: "unmarshal cd decode_state_envelope (0, None)
      (gm_get0 [] (se_annotations s) state_annotation_key) = ((version, found), ok)"
    by (metis surj_pair)
  have wf: "pred_option gm_wf (snd (fst (unmarshal cd decode_state_envelope (0, None) doc)))" for doc
    by (simp add: unmarshal_def decode_state_envelope_wf split: option.splits)
  have [simp]: "gm_wf raw" if "found = Some raw" for raw
    using wf [of "gm_get0 [] (se_annotations s) state_annotation_key"] read that by simp
  then show "gm_get (fst (existing_states vo cd s problems)) = gm_get (fst (existing_states as_stored cd s problems))"
    "snd (existing_states vo cd s problems) = snd (existing_states as_stored cd s problems)"
    by (cases found; cases ok; simp add: existing_states_def read collect_entry_visits [OF _ visits])+
qed

lemma parse_existing_visits:
  assumes "visits_all vo"
  shows "same_reading (parse_existing_visiting vo cd s) (parse_existing cd s)"
  using existing_auths_visits [OF assms, of cd s] existing_states_visits [OF assms, of cd s]
  by (simp add: parse_existing_def parse_existing_visiting_def same_reading_def case_prod_unfold)

lemma retain_step_cong:
  assumes "gm_get (dc_auths docker') = gm_get (dc_auths docker)"
    and "gm_get (ps_registries state') = gm_get (ps_registries state)"
  shows "retain_step docker' state' = retain_step docker state"
proof -
  have "retain_domain registry docker' = retain_domain registry docker" for registry
    by (simp add: retain_domain_def assms(1) fun_eq_iff)
  then have "retain_pending registry docker' state' = retain_pending registry docker state" for registry
    unfolding retain_pending_def by (simp only: assms)
  then show ?thesis
    by (intro ext) (simp only: retain_step_def)
qed

text \<open>\<open>Build\<close> looks entries of the existing Secret up; their order decides nothing.\<close>

lemma build_visits:
  assumes "visits_all vo"
  shows "build_visiting vo cd snapshot credentials existing = build cd snapshot credentials existing"
proof -
  have "build_documents_visiting vo cd snapshot credentials existing
      = build_documents cd snapshot credentials existing"
  proof (cases existing)
    case (Some s)
    obtain docker state present problems where parsed: "parse_existing cd s = (docker, state, present, problems)"
      by (metis prod_cases4)
    obtain docker' state' present' problems'
      where visited: "parse_existing_visiting vo cd s = (docker', state', present', problems')"
      by (metis prod_cases4)
    have "present' = present" "problems' = problems"
      "gm_get (dc_auths docker') = gm_get (dc_auths docker)"
      "gm_get (ps_registries state') = gm_get (ps_registries state)"
      using parse_existing_visits [OF assms, of cd s]
      by (simp_all add: parsed visited same_reading_def)
    with retain_step_cong [of docker' docker state' state] show ?thesis
      by (simp add: parsed visited Some build_documents_visiting_def build_documents_unfold cong: if_cong)
  qed (simp add: build_documents_visiting_def build_documents_unfold)
  then show ?thesis by (simp add: build_visiting_def build_unfold)
qed

text \<open>
  C6: \<open>Build\<close> is deterministic: every order in which its loops visit the configured registries
  and the raw Docker auths and raw states of the existing Secret gives byte for byte the same
  content, provided that no region ID contains a slash (the condition that the rendered
  registry keys be distinct). The stored credentials are only looked up.
\<close>

theorem build_deterministic:
  assumes "registries_wf env (cs_registries snapshot)" "plain_keys (cs_registries snapshot)"
    and "registries_wf env (cs_registries snapshot')"
    and "gm_equiv (cs_registries snapshot') (cs_registries snapshot)"
    and "gm_equiv credentials' credentials"
    and "visits_all vo" "visits_all vo'"
  shows "fst (build_visiting vo' cd snapshot' credentials' existing)
    = fst (build_visiting vo cd snapshot credentials existing)"
proof -
  note sorted = build_sorted_docs [OF assms(1-3), of credentials' credentials cd existing,
      OF assms(4,5) [unfolded gm_equiv_iff]]
  have empty: "dc_auths (fst (fst (build_documents cd snapshot' credentials' existing))) = [] \<longleftrightarrow>
      dc_auths (fst (fst (build_documents cd snapshot credentials existing))) = []"
    using sorted(1) by (metis gm_sorted_Nil_iff)
  have docker: "docker_json (fst (fst (build_documents cd snapshot' credentials' existing))) =
      docker_json (fst (fst (build_documents cd snapshot credentials existing)))"
    by (simp add: docker_json_def sorted)
  have state: "state_json cd (snd (fst (build_documents cd snapshot' credentials' existing))) =
      state_json cd (snd (fst (build_documents cd snapshot credentials existing)))"
    unfolding state_json_def sorted build_states_writes(2) ..
  show ?thesis
    unfolding build_visits [OF assms(6)] build_visits [OF assms(7)] build_content Let_def docker state empty ..
qed

section \<open>Registries that share a key of the registry state\<close>

text \<open>The registry state that one enumeration of the registries leads to, without an old Secret.\<close>

definition state_visiting ::
  "codec \<Rightarrow> configuration_snapshot \<Rightarrow> (registry_key, entry) gomap \<Rightarrow> registry_map
     \<Rightarrow> string \<Rightarrow> registry_state option" where
  "state_visiting cd snapshot credentials items =
     gm_get (ps_registries (snd (fst
       (build_documents cd (snapshot\<lparr>cs_registries := items\<rparr>) credentials None))))"

definition current_states ::
  "codec \<Rightarrow> (registry_key, entry) gomap \<Rightarrow> registry_map \<Rightarrow> (string \<times> registry_state) list" where
  "current_states cd credentials items =
     List.map_filter (\<lambda>item. map_option (\<lambda>c. (key_string (config_key (snd item)),
       registry_state_of cd (snd item) c)) (current_credential cd credentials item)) items"

lemma state_visiting_writes:
  "state_visiting cd snapshot credentials items = gm_get (put_all (current_states cd credentials items) [])"
proof -
  have none: "existing_docs cd None = empty_documents" by (simp add: existing_docs_def)
  have writes: "state_writes cd credentials empty_documents item =
      (case current_credential cd credentials item of None \<Rightarrow> []
        | Some c \<Rightarrow> [(key_string (config_key (snd item)), registry_state_of cd (snd item) c)])" for item
    by (simp add: state_writes_def empty_documents_def retained_none split: option.splits)
  have pending: "concat (map (state_writes cd credentials empty_documents)
      (filter (\<lambda>i. \<not> is_current cd credentials i) items)) = []"
    by (induction items) (auto simp: writes is_current_def)
  have "concat (map (state_writes cd credentials empty_documents)
      (filter (is_current cd credentials) items)) = current_states cd credentials items"
    by (induction items) (auto simp: writes is_current_def current_states_def map_filter_simps split: option.splits)
  then show ?thesis
    by (simp add: state_visiting_def build_states_writes none ordered_def pending)
qed

lemma current_states_mem:
  "(s, rs) \<in> set (current_states cd credentials items) \<longleftrightarrow>
     (\<exists>(k, r) \<in> set items. \<exists>c. current_credential cd credentials (k, r) = Some c
        \<and> s = key_string (config_key r) \<and> rs = registry_state_of cd r c)"
  by (force simp: current_states_def map_filter_def)

lemma state_of_last:
  assumes "current_credential cd credentials (k, r) = Some c"
  shows "state_visiting cd snapshot credentials (items @ [(k, r)]) (key_string (config_key r))
    = Some (registry_state_of cd r c)"
  using assms
  by (simp add: state_visiting_writes current_states_def map_filter_def map_laws)

lemma mset_to_last: "x \<in> set xs \<Longrightarrow> mset (remove1 x xs @ [x]) = mset xs"
  by simp


section \<open>Examples\<close>

text \<open>A codec that renders every document alike and reads none; enough where no old Secret is read.\<close>

definition blank_codec :: codec where
  "blank_codec =
     \<lparr>cd_text = (\<lambda>_. ''{}''), cd_tree = (\<lambda>_. None), cd_format_time = (\<lambda>_. ''t''),
      cd_parse_time = (\<lambda>_. None), cd_sha256_hex = (\<lambda>_. ''00'')\<rparr>"

definition sample_entry :: "instant \<Rightarrow> registry_config \<Rightarrow> entry" where
  "sample_entry expires r =
     \<lparr>en_credential = \<lparr>cr_username = ''u'', cr_password = rc_region r, cr_refreshed_at = 0,
        cr_expires_at = expires\<rparr>, en_revision = 1,
      en_authentication_hash = registry_authentication_hash (codec_digest blank_codec) r\<rparr>"

definition sample_credentials :: "(registry_key, entry) gomap" where
  "sample_credentials = [(sample_key, sample_entry second sample_current)]"

lemma sample_registries_wf: "registries_wf sample_env (cs_registries sample_snapshot)"
  using parse_wf [OF parse_sample] by (simp add: snapshot_wf_def)

theorem build_auths_spec_witness:
  "gm_get (dc_auths (fst (fst (build_documents blank_codec sample_snapshot sample_credentials None))))
     ''a.io'' = Some \<lparr>da_username = ''u'', da_password = ''hz'', da_auth = encoded_auth ''u'' ''hz''\<rparr>"
proof -
  have "current_credential blank_codec sample_credentials (sample_key, sample_current) =
      Some (en_credential (sample_entry second sample_current))" by code_simp
  moreover have "(sample_key, sample_current) \<in> set (cs_registries sample_snapshot)"
    by (simp add: sample_snapshot_def sample_key_def sample_current_def)
  ultimately show ?thesis
    using build_auths_spec [OF sample_registries_wf, of blank_codec sample_credentials None "''a.io''"]
    by (force simp: sample_current_def sample_entry_def docker_auth_of_def sample_registry_def)
qed

text \<open>A codec that reads one text, and a Secret that carries it as its Docker config.\<close>

definition reading_codec :: codec where
  "reading_codec = blank_codec\<lparr>cd_tree := (\<lambda>s. if s = ''D'' then Some (JObj [(''auths'', JObj
     [(''a.io'', auth_json \<lparr>da_username = ''u'', da_password = ''p'', da_auth = encoded_auth ''u'' ''p''\<rparr>),
      (''b.io'', JNull)])]) else None)\<rparr>"

definition two_auths_secret :: secret where
  "two_auths_secret =
     \<lparr>se_namespace = ''prod'', se_name = ''pull'', se_uid = ''1'', se_resource_version = ''7'',
      se_deleting = False, se_type = ''Opaque'', se_data = [(docker_config_json_key, ''D'')],
      se_labels = [], se_annotations = []\<rparr>"

definition backwards :: visit_order where
  "backwards = \<lparr>vo_auths = rev, vo_registries = rev\<rparr>"

theorem build_deterministic_witness:
  "fst (build_visiting backwards reading_codec
      (sample_snapshot\<lparr>cs_registries := rev (cs_registries sample_snapshot)\<rparr>) [] (Some two_auths_secret))
    = fst (build_visiting as_stored reading_codec sample_snapshot [] (Some two_auths_secret))"
proof (rule build_deterministic [OF sample_registries_wf])
  show "plain_keys (cs_registries sample_snapshot)"
    by (simp add: plain_keys_def sample_snapshot_def)
  show "registries_wf sample_env (cs_registries
      (sample_snapshot\<lparr>cs_registries := rev (cs_registries sample_snapshot)\<rparr>))"
    using sample_registries_wf by (simp add: registries_wf_def gm_wf_def rev_map [symmetric])
  show "gm_equiv (cs_registries
      (sample_snapshot\<lparr>cs_registries := rev (cs_registries sample_snapshot)\<rparr>))
      (cs_registries sample_snapshot)" by code_simp
  show "visits_all backwards" by (simp add: visits_all_def backwards_def)
qed simp_all

text \<open>Two registries the parser accepts whose rendered keys are the same.\<close>

definition slash_left :: registry_config where
  "slash_left =
     \<lparr>rc_region = ''a'', rc_instance = ''b/c'', rc_access_key_id = ''id'',
      rc_access_key_secret = ''sk'', rc_domains = [''a.io'']\<rparr>"

definition slash_right :: registry_config where
  "slash_right =
     \<lparr>rc_region = ''a/b'', rc_instance = ''c'', rc_access_key_id = ''id'',
      rc_access_key_secret = ''sk'', rc_domains = [''b.io'']\<rparr>"

definition slash_map :: registry_map where
  "slash_map = [(config_key slash_left, slash_left), (config_key slash_right, slash_right)]"

definition slash_credentials :: "(registry_key, entry) gomap" where
  "slash_credentials =
     [(config_key slash_left, sample_entry second slash_left),
      (config_key slash_right, sample_entry (2 * second) slash_right)]"

definition slash_env :: parse_env where
  "slash_env = sample_env\<lparr>yaml_registries := (\<lambda>_. Some [slash_left, slash_right])\<rparr>"


section \<open>The auth field\<close>

lemma encoded_auth_decode: "base64_decode (encoded_auth username password) = username @ '':'' @ password"
  by (simp add: encoded_auth_def)

lemma split_at_colon:
  assumes "u @ CHR '':'' # p = u' @ CHR '':'' # p'" "CHR '':'' \<notin> set u" "CHR '':'' \<notin> set u'"
  shows "u = u' \<and> p = p'"
  using assms
proof (induction u arbitrary: u')
  case Nil
  then show ?case by (cases u') auto
next
  case (Cons c u)
  then show ?case by (cases u') auto
qed

text \<open>
  C15: The auth field decodes to username, colon, password, and it identifies both as long as
  the username has no colon: two credentials with the same auth field are the same.
\<close>

theorem encoded_auth_inject:
  assumes "CHR '':'' \<notin> set username" "CHR '':'' \<notin> set username'"
  shows "base64_decode (encoded_auth username password) = username @ '':'' @ password
    \<and> (encoded_auth username password = encoded_auth username' password' \<longleftrightarrow>
        username = username' \<and> password = password')"
  using split_at_colon [OF _ assms] by (auto simp: encoded_auth_def)

theorem encoded_auth_inject_witness:
  "encoded_auth ''u'' ''p'' \<noteq> encoded_auth ''u'' ''q''"
  using encoded_auth_inject [of "''u''" "''u''" "''p''" "''q''"] by simp

end
