(* ===== verification/SecretSyncer.thy ===== *)
theory SecretSyncer
  imports BuildSpec
begin

text \<open>
  \<open>internal/registrysecret/syncer.go\<close>: one reconciliation of the managed Secret of a
  namespace. The Kubernetes client is not part of the repository: what it answers is an
  argument, and the calls that change the cluster, with the conflict report, are
  \<open>secret_action\<close>s in the result. The syncer's own state is the map of reported conflicts.
\<close>

datatype kube_error = Not_Found | Already_Exists | Update_Conflict | Api_Error string

record secret_syncer =
  ss_config :: config_store
  ss_credentials :: cred_store
  ss_secret_name :: string
  ss_conflicts :: "(string, string) gomap"

datatype secret_action =
    Create_Secret secret
  | Update_Secret secret
  | Delete_Secret secret string string
  | Report_Conflict string string

datatype sync_error =
    Get_Namespace_Failed kube_error
  | Get_Secret_Failed kube_error
  | Delete_Failed kube_error
  | Build_Failed "build_error list"
  | Delete_Empty_Failed kube_error
  | Create_Failed kube_error
  | Update_Failed kube_error

datatype syncer_error =
    Nil_Client | Nil_Syncer_Config_Store | Nil_Syncer_Credential_Store | Empty_Secret_Name
  | Nil_Event_Recorder

definition new_secret_syncer ::
  "bool \<Rightarrow> config_store option \<Rightarrow> cred_store option \<Rightarrow> string \<Rightarrow> bool
     \<Rightarrow> (syncer_error, secret_syncer) result" where
  "new_secret_syncer client config credentials name recorder =
     (if \<not> client then Inl Nil_Client
      else (case config of
          None \<Rightarrow> Inl Nil_Syncer_Config_Store
        | Some cs \<Rightarrow>
            (case credentials of
               None \<Rightarrow> Inl Nil_Syncer_Credential_Store
             | Some cr \<Rightarrow>
                 if name = [] then Inl Empty_Secret_Name
                 else if \<not> recorder then Inl Nil_Event_Recorder
                 else Inr \<lparr>ss_config = cs, ss_credentials = cr, ss_secret_name = name,
                           ss_conflicts = []\<rparr>)))"

definition is_managed :: "secret option \<Rightarrow> bool" where
  "is_managed s \<longleftrightarrow>
     (case s of
        None \<Rightarrow> False
      | Some x \<Rightarrow>
          gm_get0 [] (se_labels x) application_name_label_key = controller_identity
          \<and> gm_get0 [] (se_labels x) managed_by_label_key = controller_identity)"

definition is_usable_for_service_account :: "secret \<Rightarrow> bool" where
  "is_usable_for_service_account s \<longleftrightarrow>
     is_managed (Some s) \<and> \<not> se_deleting s \<and> se_type s = secret_type_docker_config_json
     \<and> gm_get0 [] (se_data s) docker_config_json_key \<noteq> []"

definition clone_string_map :: "(string, string) gomap \<Rightarrow> (string, string) gomap" where
  "clone_string_map source = fold (\<lambda>(k, v). gm_put k v) source []"

definition apply_content :: "secret \<Rightarrow> content \<Rightarrow> secret" where
  "apply_content s c =
     s\<lparr>se_type := secret_type_docker_config_json,
       se_data := [(docker_config_json_key, ct_docker_json c)],
       se_labels := gm_put managed_by_label_key controller_identity
         (gm_put application_name_label_key controller_identity (clone_string_map (se_labels s))),
       se_annotations := gm_put state_annotation_key (ct_state_json c)
         (clone_string_map (se_annotations s))\<rparr>"

definition new_secret :: "string \<Rightarrow> string \<Rightarrow> content \<Rightarrow> secret" where
  "new_secret namespace name c =
     apply_content
       \<lparr>se_namespace = namespace, se_name = name, se_uid = [], se_resource_version = [],
        se_deleting = False, se_type = [], se_data = [], se_labels = [], se_annotations = []\<rparr> c"

definition secret_matches :: "secret \<Rightarrow> content \<Rightarrow> bool" where
  "secret_matches s c \<longleftrightarrow>
     se_type s = secret_type_docker_config_json
     \<and> length (se_data s) = 1
     \<and> gm_get0 [] (se_data s) docker_config_json_key = ct_docker_json c
     \<and> gm_get0 [] (se_labels s) application_name_label_key = controller_identity
     \<and> gm_get0 [] (se_labels s) managed_by_label_key = controller_identity
     \<and> gm_get0 [] (se_annotations s) state_annotation_key = ct_state_json c"

definition clear_conflict :: "string \<Rightarrow> secret_syncer \<Rightarrow> secret_syncer" where
  "clear_conflict namespace s = s\<lparr>ss_conflicts := gm_del namespace (ss_conflicts s)\<rparr>"

text \<open>\<open>deleteObserved\<close>: the delete carries the observed UID and resource version.\<close>

definition delete_observed :: "secret \<Rightarrow> secret_action" where
  "delete_observed s = Delete_Secret s (se_uid s) (se_resource_version s)"

text \<open>An error of a delete, unless the object was gone already.\<close>

definition unless_gone :: "(kube_error \<Rightarrow> sync_error) \<Rightarrow> kube_error option \<Rightarrow> sync_error option" where
  "unless_gone wrap answer =
     (case answer of
        None \<Rightarrow> None
      | Some err \<Rightarrow> if err = Not_Found then None else Some (wrap err))"

definition build_error_of :: "build_error list \<Rightarrow> sync_error option" where
  "build_error_of problems = (if problems = [] then None else Some (Build_Failed problems))"

text \<open>
  The part of \<open>SyncNamespaceSecret\<close> after the ownership check: \<open>existing\<close> is the managed
  Secret, if there is one, and \<open>answer\<close> what the client returns for the write.
\<close>

definition sync_managed ::
  "codec \<Rightarrow> configuration_snapshot \<Rightarrow> (registry_key, entry) gomap \<Rightarrow> string \<Rightarrow> string
     \<Rightarrow> secret option \<Rightarrow> kube_error option \<Rightarrow> secret_action list \<times> sync_error option" where
  "sync_managed cd snapshot credentials namespace name existing answer =
     (case build cd snapshot credentials existing of
        (content, problems) \<Rightarrow>
          if \<not> has_auth content then
            (if problems \<noteq> [] then ([], build_error_of problems)
             else (case existing of
                 None \<Rightarrow> ([], None)
               | Some current \<Rightarrow>
                   ([delete_observed current], unless_gone Delete_Empty_Failed answer)))
          else (case existing of
              None \<Rightarrow>
                ([Create_Secret (new_secret namespace name content)],
                 case answer of Some err \<Rightarrow> Some (Create_Failed err) | None \<Rightarrow> build_error_of problems)
            | Some current \<Rightarrow>
                if secret_matches current content then ([], build_error_of problems)
                else ([Update_Secret (apply_content current content)],
                      case answer of
                        Some err \<Rightarrow> Some (Update_Failed err)
                      | None \<Rightarrow> build_error_of problems)))"

text \<open>\<open>err != nil && !apierrors.IsNotFound(err)\<close> for the read of the Secret.\<close>

definition get_failure :: "(kube_error, secret) result \<Rightarrow> kube_error option" where
  "get_failure r =
     (case r of Inl err \<Rightarrow> if err = Not_Found then None else Some err | Inr _ \<Rightarrow> None)"

definition found :: "(kube_error, secret) result \<Rightarrow> secret option" where
  "found r = (case r of Inl _ \<Rightarrow> None | Inr current \<Rightarrow> Some current)"

text \<open>Outside the target namespaces, only a managed Secret is removed.\<close>

definition sync_untargeted ::
  "secret option \<Rightarrow> kube_error option \<Rightarrow> secret_action list \<times> sync_error option" where
  "sync_untargeted existing answer =
     (case existing of
        None \<Rightarrow> ([], None)
      | Some current \<Rightarrow>
          if \<not> is_managed (Some current) then ([], None)
          else ([delete_observed current], unless_gone Delete_Failed answer))"

text \<open>A Secret of another owner: reported once for each UID.\<close>

definition report_conflict :: "string \<Rightarrow> secret \<Rightarrow> secret_syncer \<Rightarrow> secret_syncer \<times> secret_action list" where
  "report_conflict namespace current s =
     (s\<lparr>ss_conflicts := gm_put namespace (se_uid current) (ss_conflicts s)\<rparr>,
      if gm_get (ss_conflicts s) namespace = Some (se_uid current) then []
      else [Report_Conflict namespace (se_uid current)])"

definition sync_namespace_secret ::
  "codec \<Rightarrow> string \<Rightarrow> kube_error option \<Rightarrow> (kube_error, secret) result \<Rightarrow> kube_error option
     \<Rightarrow> secret_syncer \<Rightarrow> secret_syncer \<times> secret_action list \<times> sync_error option" where
  "sync_namespace_secret cd namespace namespace_answer secret_answer answer s =
     (case store_load (ss_config s) of
        None \<Rightarrow> (s, [], None)
      | Some snapshot \<Rightarrow>
          (case namespace_answer of
             Some err \<Rightarrow>
               if err = Not_Found then (clear_conflict namespace s, [], None)
               else (s, [], Some (Get_Namespace_Failed err))
           | None \<Rightarrow>
               (case get_failure secret_answer of
                  Some err \<Rightarrow> (s, [], Some (Get_Secret_Failed err))
                | None \<Rightarrow>
                    if \<not> matches_namespace snapshot namespace
                    then (clear_conflict namespace s, sync_untargeted (found secret_answer) answer)
                    else (case found secret_answer of
                        Some current \<Rightarrow>
                          if \<not> is_managed (Some current)
                          then (case report_conflict namespace current s of
                              (s', acts) \<Rightarrow> (s', acts, None))
                          else (clear_conflict namespace s,
                                sync_managed cd snapshot (cred_snapshot (ss_credentials s)) namespace
                                  (ss_secret_name s) (Some current) answer)
                      | None \<Rightarrow>
                          (clear_conflict namespace s,
                           sync_managed cd snapshot (cred_snapshot (ss_credentials s)) namespace
                             (ss_secret_name s) None answer)))))"

end
