(* ===== verification/Converge.thy ===== *)
theory Converge
  imports Prelude
begin

text \<open>
  The contract of a level-triggered reconciler: it compares an observed object with the wanted
  one and makes at most one write, after which, whatever bookkeeping fields the API server
  adds to the stored object, it finds nothing more to do. The Secret syncer and the
  ServiceAccount syncer both satisfy it.
\<close>

datatype 'o change = No_Write | Write 'o | Remove

locale converging =
  fixes decide :: "'c \<Rightarrow> 'o option \<Rightarrow> 'o change"
    and stored :: "'o \<Rightarrow> 'o \<Rightarrow> bool"
    and good :: "'c \<Rightarrow> 'o option \<Rightarrow> bool"
  assumes write_settles:
      "good c x \<Longrightarrow> decide c x = Write v \<Longrightarrow> stored v v' \<Longrightarrow> decide c (Some v') = No_Write"
    and remove_settles: "good c x \<Longrightarrow> decide c x = Remove \<Longrightarrow> decide c None = No_Write"
begin

text \<open>The object after a successful write, stored by \<open>server\<close>.\<close>

definition after :: "('o \<Rightarrow> 'o) \<Rightarrow> 'c \<Rightarrow> 'o option \<Rightarrow> 'o option" where
  "after server c x =
     (case decide c x of No_Write \<Rightarrow> x | Write v \<Rightarrow> Some (server v) | Remove \<Rightarrow> None)"

lemma settles:
  assumes "good c x" "\<And>v. stored v (server v)"
  shows "decide c (after server c x) = No_Write"
  using write_settles [OF assms(1) _ assms(2)] remove_settles [OF assms(1)]
  by (simp add: after_def split: change.splits)

lemma settled_for_good:
  assumes "good c x" "\<And>v. stored v (server v)"
  shows "(after server c ^^ n) (after server c x) = after server c x"
proof (induction n)
  case (Suc n)
  then show ?case using settles [OF assms] by (simp add: after_def [of server c "after server c x"])
qed simp

end

end
