(* ===== verification/SyncSpec.thy ===== *)
theory SyncSpec
  imports SecretSyncer Converge
begin

text \<open>
  What a reconciliation of the managed Secret guarantees: it never touches a Secret of
  another owner, it makes at most one write, a retention problem never deletes, and it
  converges: after its write, the next reconciliation finds nothing to do. The last rests on
  the round trip of the rendered documents through the Secret.
\<close>

section \<open>Rendered documents are read back\<close>

definition docs_read_back :: "codec \<Rightarrow> docker_config \<times> persisted_state \<Rightarrow> bool" where
  "docs_read_back cd docs \<longleftrightarrow>
     reads_back cd (docker_json (fst docs))
     \<and> (\<forall>j. state_json cd (snd docs) = Some j \<longrightarrow> reads_back cd j)
     \<and> (\<forall>(key, rs) \<in> set (ps_registries (snd docs)).
          cd_parse_time cd (cd_format_time cd (rs_refreshed_at rs)) = Some (rs_refreshed_at rs)
          \<and> cd_parse_time cd (cd_format_time cd (rs_expires_at rs)) = Some (rs_expires_at rs))"

lemma fold_names:
  "fold_name ''auths'' = ''auths''" "fold_name ''username'' = ''username''"
  "fold_name ''password'' = ''password''" "fold_name ''auth'' = ''auth''"
  "fold_name ''version'' = ''version''" "fold_name ''registries'' = ''registries''"
  "fold_name ''refreshedAt'' = ''refreshedat''" "fold_name ''expiresAt'' = ''expiresat''"
  "fold_name ''stateHash'' = ''statehash''"
  by code_simp+

lemma decode_auth_json [simp]: "decode_auth (auth_json a) = (a, True)"
  by (simp add: decode_auth_def auth_json_def decode_struct_def fold_names decode_string_def)

lemma decode_docker_json:
  "decode_docker_envelope (docker_json d) =
     (Some (put_all (map (\<lambda>(domain, a). (domain, auth_json a)) (gm_sorted (dc_auths d))) []), True)"
  by (simp add: decode_docker_envelope_def docker_json_def decode_struct_def fold_names
      decode_raw_map_def put_all_def)

lemma gm_wf_functional: "gm_wf m \<Longrightarrow> functional m"
  by (auto simp: functional_def gm_wf_def) (metis map_of_eq_Some_iff option.inject)

lemma put_all_wf_get:
  assumes "gm_wf ws"
  shows "gm_get (put_all ws []) = gm_get ws"
proof
  fix k
  show "gm_get (put_all ws []) k = gm_get ws k"
    using put_all_get [OF gm_wf_functional [OF assms], of "[]" k] gm_get_mem [OF assms, of k]
    by (cases "gm_get (put_all ws []) k"; cases "gm_get ws k") force+
qed

lemma gm_wf_map_values: "gm_wf (map (\<lambda>(k, v). (k, f k v)) m) = gm_wf m"
  by (simp add: gm_wf_def comp_def case_prod_beta)

lemma collect_entries:
  assumes "\<And>k raw. (k, raw) \<in> set raws \<Longrightarrow> decode raw = (val k raw, True)"
  shows "fold (collect_entry decode problem) raws (m, problems) =
     (put_all (map (\<lambda>(k, raw). (k, val k raw)) raws) m, problems)"
  using assms
proof (induction raws arbitrary: m)
  case (Cons e raws)
  obtain k raw where e: "e = (k, raw)" by (cases e)
  have "collect_entry decode problem e (m, problems) = (gm_put k (val k raw) m, problems)"
    using Cons.prems [of k raw] by (simp add: collect_entry_def e)
  with Cons show ?case by (simp add: e)
qed simp

text \<open>Decoding every entry of a rendered map gives a map with the same lookups.\<close>

lemma decode_rendered_map:
  fixes m :: "(string, 'v) gomap"
  assumes "gm_wf m" and "\<And>k v. (k, v) \<in> set m \<Longrightarrow> decode (enc v) = (v, True)"
  shows "\<exists>m'. fold (collect_entry decode problem)
        (put_all (map (\<lambda>(k, v). (k, enc v)) (gm_sorted m)) []) ([], problems) = (m', problems)
      \<and> gm_get m' = gm_get m"
proof -
  let ?raws = "put_all (map (\<lambda>(k, v). (k, enc v)) (gm_sorted m)) []"
  have wf: "gm_wf (map (\<lambda>(k, v). (k, enc v)) (gm_sorted m))"
    using assms(1) by (simp add: gm_wf_map_values)
  have get: "gm_get ?raws = gm_get (map (\<lambda>(k, v). (k, enc v)) (gm_sorted m))"
    by (rule put_all_wf_get [OF wf])
  have wf_raws: "gm_wf ?raws" by simp
  have raws: "set ?raws = (\<lambda>(k, v). (k, enc v)) ` set m"
    using same_lookup_set [OF wf_raws wf get] by simp
  have dec: "decode raw = (fst (decode raw), True)" if "(k, raw) \<in> set ?raws" for k raw
    using that assms(2) unfolding raws by auto
  let ?m' = "put_all (map (\<lambda>(k, raw). (k, fst (decode raw))) ?raws) []"
  have folded: "fold (collect_entry decode problem) ?raws ([], problems) = (?m', problems)"
    by (rule collect_entries) (rule dec)
  have wf': "gm_wf (map (\<lambda>(k, raw). (k, fst (decode raw))) ?raws)"
    using wf_raws by (simp add: gm_wf_map_values)
  have "set (map (\<lambda>(k, raw). (k, fst (decode raw))) ?raws) = set m"
    unfolding set_map raws image_image
    using assms(2) by (force simp: image_iff)
  then have "gm_get (map (\<lambda>(k, raw). (k, fst (decode raw))) ?raws) = gm_get m"
    using map_of_inject_set wf' assms(1) unfolding gm_wf_def by blast
  then have "gm_get ?m' = gm_get m" using put_all_wf_get [OF wf'] by simp
  with folded show ?thesis by blast
qed

lemma state_entries_values:
  "state_entries_json cd m = Some js \<Longrightarrow>
     (\<forall>(k, rs) \<in> set m. state_entry_json cd rs \<noteq> None)
     \<and> js = map (\<lambda>(k, rs). (k, the (state_entry_json cd rs))) m"
  by (induction cd m arbitrary: js rule: state_entries_json.induct) (auto split: option.splits)

lemma decode_state_entry_json:
  assumes "state_entry_json cd rs = Some j"
    and "cd_parse_time cd (cd_format_time cd (rs_refreshed_at rs)) = Some (rs_refreshed_at rs)"
    and "cd_parse_time cd (cd_format_time cd (rs_expires_at rs)) = Some (rs_expires_at rs)"
  shows "decode_state_entry cd j = (rs, True)"
  using assms
  by (auto simp: state_entry_json_def marshal_time_def decode_state_entry_def fold_names
      decode_time_def decode_string_def split: if_splits)

text \<open>Reading a Secret that carries the rendered documents.\<close>

lemma parse_rendered:
  assumes "docs_read_back cd docs" "state_json cd (snd docs) = Some j"
    and "gm_wf (dc_auths (fst docs))" "gm_wf (ps_registries (snd docs))"
    and "ps_version (snd docs) = state_version"
    and "gm_get (se_data s) docker_config_json_key = Some (cd_text cd (docker_json (fst docs)))"
    and "gm_get (se_annotations s) state_annotation_key = Some (cd_text cd j)"
  shows "\<exists>auths states. parse_existing cd s =
      (\<lparr>dc_auths = auths\<rparr>, \<lparr>ps_version = state_version, ps_registries = states\<rparr>, True, [])
    \<and> gm_get auths = gm_get (dc_auths (fst docs)) \<and> gm_get states = gm_get (ps_registries (snd docs))"
proof -
  have docker: "unmarshal cd decode_docker_envelope None (cd_text cd (docker_json (fst docs))) =
     (Some (put_all (map (\<lambda>(domain, a). (domain, auth_json a)) (gm_sorted (dc_auths (fst docs)))) []), True)"
    using assms(1) by (simp add: unmarshal_def docs_read_back_def reads_back_def decode_docker_json)
  obtain auths where auths: "fold (collect_entry decode_auth Auth_Entry_Invalid)
        (put_all (map (\<lambda>(domain, a). (domain, auth_json a)) (gm_sorted (dc_auths (fst docs)))) [])
        ([], []) = (auths, [])"
    and auths_get: "gm_get auths = gm_get (dc_auths (fst docs))"
    using decode_rendered_map [OF assms(3), of decode_auth auth_json] by auto
  let ?states = "ps_registries (snd docs)"
  let ?render = "\<lambda>rs. the (state_entry_json cd rs)"
  obtain js where js: "state_entries_json cd (gm_sorted ?states) = Some js"
    and j: "j = JObj [(''version'', JInt state_version), (''registries'', JObj js)]"
    using assms(2,5) by (auto simp: state_json_def split: option.splits)
  note vals = state_entries_values [OF js]
  have js_eq: "js = map (\<lambda>(k, rs). (k, ?render rs)) (gm_sorted ?states)" using vals by blast
  have small: "min_int64 \<le> state_version" "state_version \<le> max_int64"
    by (simp_all add: state_version_def min_int64_def max_int64_def)
  have state: "unmarshal cd decode_state_envelope (0, None) (cd_text cd j) =
     ((state_version, Some (put_all js [])), True)"
    using assms(1,2) small
    by (simp add: unmarshal_def docs_read_back_def reads_back_def j decode_state_envelope_def
        decode_struct_def fold_names decode_int_def decode_raw_map_def put_all_def)
  have entry: "decode_state_entry cd (?render rs) = (rs, True)" if "(k, rs) \<in> set ?states" for k rs
  proof -
    have "(k, rs) \<in> set (gm_sorted ?states)" using that by simp
    then have "state_entry_json cd rs \<noteq> None" using vals by blast
    then obtain e where "state_entry_json cd rs = Some e" by blast
    then show ?thesis
      using decode_state_entry_json [of cd rs e] assms(1) that by (auto simp: docs_read_back_def)
  qed
  obtain states where states: "fold (collect_entry (decode_state_entry cd) State_Entry_Invalid)
        (put_all js []) ([], []) = (states, [])"
    and states_get: "gm_get states = gm_get ?states"
    using decode_rendered_map [OF assms(4), of "decode_state_entry cd" ?render] entry js_eq by blast
  show ?thesis
    using docker auths auths_get state states states_get assms(6,7)
    by (intro exI [of _ auths] exI [of _ states]) (simp add: parse_existing_unfold Let_def gm_get0_def)
qed

section \<open>Building again from the written Secret\<close>

lemma build_content_cong:
  assumes "registries_wf env (cs_registries snapshot)" "plain_keys (cs_registries snapshot)"
    and "\<And>item. item \<in> set (cs_registries snapshot) \<Longrightarrow>
      set (auth_writes cd credentials (existing_docs cd e') item)
        = set (auth_writes cd credentials (existing_docs cd e) item)
      \<and> set (state_writes cd credentials (existing_docs cd e') item)
        = set (state_writes cd credentials (existing_docs cd e) item)"
  shows "fst (build cd snapshot credentials e') = fst (build cd snapshot credentials e)"
proof -
  let ?regs = "ordered cd credentials (cs_registries snapshot)"
  have auths: "gm_sorted (put_all (concat (map (auth_writes cd credentials (existing_docs cd e')) ?regs)) []) =
      gm_sorted (put_all (concat (map (auth_writes cd credentials (existing_docs cd e)) ?regs)) [])"
    by (intro gm_sorted_cong put_all_cong [OF auth_writes_functional [OF assms(1) set_ordered]])
      (use assms(3) in auto)
  have states: "gm_sorted (put_all (concat (map (state_writes cd credentials (existing_docs cd e')) ?regs)) []) =
      gm_sorted (put_all (concat (map (state_writes cd credentials (existing_docs cd e)) ?regs)) [])"
    by (intro gm_sorted_cong put_all_cong [OF state_writes_functional [OF assms(1,2) set_ordered]])
      (use assms(3) in auto)
  have empty: "dc_auths (fst (fst (build_documents cd snapshot credentials e'))) = [] \<longleftrightarrow>
      dc_auths (fst (fst (build_documents cd snapshot credentials e))) = []"
    using auths by (metis build_auths_writes gm_sorted_Nil_iff)
  have docker: "docker_json (fst (fst (build_documents cd snapshot credentials e'))) =
      docker_json (fst (fst (build_documents cd snapshot credentials e)))"
    by (simp add: docker_json_def build_auths_writes auths)
  have state: "state_json cd (snd (fst (build_documents cd snapshot credentials e'))) =
      state_json cd (snd (fst (build_documents cd snapshot credentials e)))"
    unfolding state_json_def build_states_writes states ..
  show ?thesis unfolding build_content Let_def docker state empty ..
qed

lemma build_states:
  assumes "registries_wf env (cs_registries snapshot)" "plain_keys (cs_registries snapshot)"
  shows "gm_get (ps_registries (snd (fst (build_documents cd snapshot credentials existing)))) s = Some rs
    \<longleftrightarrow> (\<exists>item \<in> set (cs_registries snapshot).
          (s, rs) \<in> set (state_writes cd credentials (existing_docs cd existing) item))"
  using put_all_get [where m = "[]" and k = s and v = rs,
      OF state_writes_functional [OF assms set_ordered [of cd credentials], of cd credentials
        "existing_docs cd existing"]]
  by (simp add: build_states_writes)

lemma key_string_item:
  assumes "registries_wf env m" "plain_keys m" "(k, r) \<in> set m" "item \<in> set m"
    and "key_string (config_key (snd item)) = key_string k"
  shows "item = (k, r)"
proof -
  obtain k' r' where item: "item = (k', r')" by (cases item)
  have keys: "config_key r' = k'" using assms(1,4) item by (auto simp: registries_wf_def)
  have "k' = k"
    using key_string_inject [of k' k] assms(2-5) keys item by (auto simp: plain_keys_def)
  moreover have "gm_wf m" using assms(1) by (simp add: registries_wf_def)
  ultimately have "gm_get m k = Some r'" "gm_get m k = Some r"
    using assms(3,4) item by (simp_all add: gm_get_mem)
  with \<open>k' = k\<close> item show ?thesis by simp
qed

text \<open>A pending registry's retained entries are found again in the documents built from them.\<close>

lemma retained_again:
  fixes snapshot :: configuration_snapshot and existing :: "secret option"
  assumes wf: "registries_wf env (cs_registries snapshot)" "plain_keys (cs_registries snapshot)"
    and item: "(k, r) \<in> set (cs_registries snapshot)" "current_credential cd credentials (k, r) = None"
    and auths: "gm_get (dc_auths (fst ex)) =
      gm_get (dc_auths (fst (fst (build_documents cd snapshot credentials existing))))"
    and states: "gm_get (ps_registries (snd ex)) =
      gm_get (ps_registries (snd (fst (build_documents cd snapshot credentials existing))))"
  shows "set (retained_auths ex r) = set (retained_auths (existing_docs cd existing) r)"
    and "set (retained_states ex r) = set (retained_states (existing_docs cd existing) r)"
proof -
  let ?old = "existing_docs cd existing"
  have key: "config_key r = k" using wf(1) item(1) by (auto simp: registries_wf_def)
  have auth: "gm_get (dc_auths (fst ex)) d = Some a \<longleftrightarrow> (d, a) \<in> set (retained_auths ?old r)"
    if "d \<in> set (rc_domains r)" for d a
  proof -
    have own: "item' = (k, r)"
      if "item' \<in> set (cs_registries snapshot)" "(d, a) \<in> set (auth_writes cd credentials ?old item')"
      for item'
      using registries_wf_owner [OF wf(1) item(1), of "fst item'" "snd item'" d]
        auth_writes_domain [OF that(2)] that(1) \<open>d \<in> set (rc_domains r)\<close> by simp
    have "auth_writes cd credentials ?old (k, r) = retained_auths ?old r"
      by (simp add: auth_writes_def item(2))
    then show ?thesis
      unfolding auths build_auths [OF wf(1)] using own item(1) by metis
  qed
  have state: "gm_get (ps_registries (snd ex)) (key_string k) = Some rs \<longleftrightarrow>
      (key_string k, rs) \<in> set (retained_states ?old r)" for rs
  proof -
    have own: "item' = (k, r)"
      if "item' \<in> set (cs_registries snapshot)"
        "(key_string k, rs) \<in> set (state_writes cd credentials ?old item')" for item'
      using key_string_item [OF wf item(1) that(1)] state_writes_key [OF that(2)] by simp
    have "state_writes cd credentials ?old (k, r) = retained_states ?old r"
      by (simp add: state_writes_def item(2))
    then show ?thesis
      unfolding states build_states [OF wf] using own item(1) by metis
  qed
  have usable: "(\<exists>rs. gm_get (ps_registries (snd ex)) (key_string k) = Some rs \<and> state_usable rs)"
    if "retained_auths ?old r \<noteq> []"
  proof -
    obtain d a where "(d, a) \<in> set (retained_auths ?old r)"
      using \<open>retained_auths ?old r \<noteq> []\<close> by (metis list.set_sel(1) surj_pair)
    then obtain rs where "gm_get (ps_registries (snd ?old)) (key_string k) = Some rs" "state_usable rs"
      by (auto simp: retained_auths_mem key)
    then show ?thesis using that state by (auto simp: retained_states_def key)
  qed
  show same: "set (retained_auths ex r) = set (retained_auths ?old r)"
  proof (intro set_eqI iffI)
    fix w assume w: "w \<in> set (retained_auths ex r)"
    obtain d a where p: "w = (d, a)" by (cases w)
    show "w \<in> set (retained_auths ?old r)"
      using auth [of d a] w unfolding p retained_auths_mem [of d a ex] by blast
  next
    fix w assume w: "w \<in> set (retained_auths ?old r)"
    obtain d a where p: "w = (d, a)" by (cases w)
    have "retained_auths ?old r \<noteq> []" using w by auto
    from usable [OF this] show "w \<in> set (retained_auths ex r)"
      using auth [of d a] w unfolding p retained_auths_mem [of d a ex] key
      by (auto simp: retained_auths_mem)
  qed
  have empty: "retained_auths ex r = [] \<longleftrightarrow> retained_auths ?old r = []"
    using same by (metis set_empty)
  show "set (retained_states ex r) = set (retained_states ?old r)"
  proof (cases "retained_auths ?old r = []")
    case True
    then show ?thesis using empty by (simp add: retained_states_def)
  next
    case False
    then obtain rs where rs: "gm_get (ps_registries (snd ex)) (key_string k) = Some rs"
      using usable by blast
    then have "(key_string k, rs) \<in> set (retained_states ?old r)" using state by blast
    then have "retained_states ?old r = [(key_string k, rs)]"
      by (auto simp: retained_states_def key split: option.splits if_splits)
    moreover have "retained_states ex r = [(key_string k, rs)]"
      using False empty rs by (simp add: retained_states_def key)
    ultimately show ?thesis by simp
  qed
qed

section \<open>Convergence\<close>

text \<open>The API server keeps what the controller wrote; it may fill in identity fields.\<close>

definition stored_as :: "secret \<Rightarrow> secret \<Rightarrow> bool" where
  "stored_as s s' \<longleftrightarrow> se_type s' = se_type s \<and> se_data s' = se_data s
     \<and> se_labels s' = se_labels s \<and> se_annotations s' = se_annotations s"

lemma gm_get0_put [simp]:
  "gm_get0 z (gm_put k v m) k' = (if k' = k then v else gm_get0 z m k')"
  by (simp add: gm_get0_def map_laws)

lemma clone_string_map_get [simp]:
  assumes "gm_wf m"
  shows "gm_get (clone_string_map m) = gm_get m"
  using put_all_wf_get [OF assms] by (simp add: clone_string_map_def put_all_def)

lemma label_keys_differ: "application_name_label_key \<noteq> managed_by_label_key"
  by (simp add: application_name_label_key_def managed_by_label_key_def)

lemma stored_matches:
  assumes "stored_as (apply_content s c) s'"
  shows "secret_matches s' c" "is_managed (Some s')"
    and "gm_get (se_data s') docker_config_json_key = Some (ct_docker_json c)"
    and "gm_get (se_annotations s') state_annotation_key = Some (ct_state_json c)"
  using assms label_keys_differ
  by (simp_all add: stored_as_def apply_content_def secret_matches_def is_managed_def gm_get0_def
      map_laws)

lemma build_again:
  assumes "registries_wf env (cs_registries snapshot)" "plain_keys (cs_registries snapshot)"
    and "docs_read_back cd (fst (build_documents cd snapshot credentials existing))"
    and "has_auth (fst (build cd snapshot credentials existing))"
    and "gm_get (se_data s') docker_config_json_key =
      Some (ct_docker_json (fst (build cd snapshot credentials existing)))"
    and "gm_get (se_annotations s') state_annotation_key =
      Some (ct_state_json (fst (build cd snapshot credentials existing)))"
  shows "fst (build cd snapshot credentials (Some s')) = fst (build cd snapshot credentials existing)"
proof -
  let ?docs = "fst (build_documents cd snapshot credentials existing)"
  obtain j where j: "state_json cd (snd ?docs) = Some j"
    using assms(4) by (auto simp: build_content Let_def has_auth_def empty_content_def split: option.splits)
  have content: "ct_docker_json (fst (build cd snapshot credentials existing)) = cd_text cd (docker_json (fst ?docs))"
    "ct_state_json (fst (build cd snapshot credentials existing)) = cd_text cd j"
    by (simp_all add: build_content Let_def j)
  have wf: "gm_wf (dc_auths (fst ?docs))" "gm_wf (ps_registries (snd ?docs))"
    by (simp_all add: build_auths_writes build_states_writes)
  obtain auths states where parsed: "parse_existing cd s' =
      (\<lparr>dc_auths = auths\<rparr>, \<lparr>ps_version = state_version, ps_registries = states\<rparr>, True, [])"
    and gets: "gm_get auths = gm_get (dc_auths (fst ?docs))"
      "gm_get states = gm_get (ps_registries (snd ?docs))"
    using parse_rendered [OF assms(3) j wf build_states_writes(2), of s'] assms(5,6) content by auto
  let ?ex = "existing_docs cd (Some s')"
  have ex: "?ex = (\<lparr>dc_auths = auths\<rparr>, \<lparr>ps_version = state_version, ps_registries = states\<rparr>)"
    by (simp add: existing_docs_def parsed)
  show ?thesis
  proof (rule build_content_cong [OF assms(1,2)])
    fix item assume item: "item \<in> set (cs_registries snapshot)"
    obtain k r where p: "item = (k, r)" by (cases item)
    show "set (auth_writes cd credentials ?ex item)
        = set (auth_writes cd credentials (existing_docs cd existing) item)
      \<and> set (state_writes cd credentials ?ex item)
        = set (state_writes cd credentials (existing_docs cd existing) item)"
    proof (cases "current_credential cd credentials (k, r)")
      case None
      have "set (retained_auths ?ex r) = set (retained_auths (existing_docs cd existing) r)"
        "set (retained_states ?ex r) = set (retained_states (existing_docs cd existing) r)"
        using retained_again [OF assms(1,2) item [unfolded p] None, of ?ex existing]
        by (simp_all add: ex gets)
      with None show ?thesis by (simp add: p auth_writes_def state_writes_def)
    qed (simp add: p auth_writes_def state_writes_def)
  qed
qed

text \<open>What \<open>sync_managed\<close> decides, for the managed Secret it observes.\<close>

type_synonym secret_goal =
  "codec \<times> configuration_snapshot \<times> (registry_key, entry) gomap \<times> string \<times> string"

definition write_of :: "secret_action list \<Rightarrow> secret change" where
  "write_of acts =
     (case acts of
        Create_Secret s # _ \<Rightarrow> Write s
      | Update_Secret s # _ \<Rightarrow> Write s
      | Delete_Secret s uid rv # _ \<Rightarrow> Remove
      | _ \<Rightarrow> No_Write)"

definition secret_decide :: "secret_goal \<Rightarrow> secret option \<Rightarrow> secret change" where
  "secret_decide goal existing =
     (case goal of (cd, snapshot, credentials, namespace, name) \<Rightarrow>
        write_of (fst (sync_managed cd snapshot credentials namespace name existing None)))"

definition secret_good :: "secret_goal \<Rightarrow> secret option \<Rightarrow> bool" where
  "secret_good goal existing \<longleftrightarrow>
     (case goal of (cd, snapshot, credentials, namespace, name) \<Rightarrow>
        (\<exists>env. registries_wf env (cs_registries snapshot)) \<and> plain_keys (cs_registries snapshot)
        \<and> docs_read_back cd (fst (build_documents cd snapshot credentials existing)))"

lemma sync_managed_acts:
  "fst (sync_managed cd snapshot credentials namespace name existing answer) =
     (let content = fst (build cd snapshot credentials existing);
          problems = snd (build cd snapshot credentials existing)
      in if \<not> has_auth content then
           (case existing of
              None \<Rightarrow> []
            | Some current \<Rightarrow> if problems \<noteq> [] then [] else [delete_observed current])
         else (case existing of
             None \<Rightarrow> [Create_Secret (new_secret namespace name content)]
           | Some current \<Rightarrow>
               if secret_matches current content then []
               else [Update_Secret (apply_content current content)]))"
  by (auto simp: sync_managed_def Let_def split: prod.splits option.splits)

lemma sync_managed_settled:
  assumes "fst (build cd snapshot credentials (Some s)) = c" "has_auth c" "secret_matches s c"
  shows "fst (sync_managed cd snapshot credentials namespace name (Some s) answer) = []"
  using assms by (simp add: sync_managed_acts Let_def)

text \<open>Without an existing Secret, only current credentials can give an auth.\<close>

lemma no_auth_without_existing:
  assumes "registries_wf env (cs_registries snapshot)"
    and "\<not> has_auth (fst (build cd snapshot credentials (Some s)))"
    and "snd (build cd snapshot credentials (Some s)) = []"
  shows "\<not> has_auth (fst (build cd snapshot credentials None))"
proof
  let ?new = "dc_auths (fst (fst (build_documents cd snapshot credentials None)))"
  let ?old = "dc_auths (fst (fst (build_documents cd snapshot credentials (Some s))))"
  assume "has_auth (fst (build cd snapshot credentials None))"
  then have "?new \<noteq> []"
    by (auto simp: build_content Let_def has_auth_def empty_content_def split: option.splits)
  then obtain d a rest where "?new = (d, a) # rest" by (metis list.exhaust surj_pair)
  then have "gm_get ?new d = Some a" by simp
  then obtain item where item: "item \<in> set (cs_registries snapshot)"
    "(d, a) \<in> set (auth_writes cd credentials (existing_docs cd None) item)"
    unfolding build_auths [OF assms(1)] by blast
  have "retained_auths (existing_docs cd None) r = []" for r
    by (simp add: existing_docs_def empty_documents_def retained_auths_def)
  then have "(d, a) \<in> set (auth_writes cd credentials (existing_docs cd (Some s)) item)"
    using item(2) by (auto simp: auth_writes_def split: option.splits)
  then have "gm_get ?old d = Some a" unfolding build_auths [OF assms(1)] using item(1) by blast
  then have "?old \<noteq> []" by auto
  moreover have "state_json cd (snd (fst (build_documents cd snapshot credentials (Some s)))) \<noteq> None"
    using assms(3) by (auto simp: build_unfold render_def split: prod.splits option.splits)
  ultimately show False
    using assms(2) by (auto simp: build_content Let_def has_auth_def split: option.splits)
qed

interpretation secrets: converging secret_decide stored_as secret_good
proof
  fix goal x v v'
  assume good: "secret_good goal x" and decided: "secret_decide goal x = Write v" and st: "stored_as v v'"
  obtain cd snapshot credentials namespace name
    where goal: "goal = (cd, snapshot, credentials, namespace, name)" by (metis prod_cases5)
  obtain env where wf: "registries_wf env (cs_registries snapshot)" "plain_keys (cs_registries snapshot)"
    and rb: "docs_read_back cd (fst (build_documents cd snapshot credentials x))"
    using good by (auto simp: secret_good_def goal)
  let ?c = "fst (build cd snapshot credentials x)"
  obtain base where base: "v = apply_content base ?c" and auth: "has_auth ?c"
    using decided
    by (auto simp: secret_decide_def goal sync_managed_acts Let_def write_of_def new_secret_def
        delete_observed_def split: option.splits if_splits)
  note m = stored_matches [OF st [unfolded base]]
  from build_again [OF wf rb auth m(3,4)] auth m(1)
  show "secret_decide goal (Some v') = No_Write"
    by (simp add: secret_decide_def goal sync_managed_settled write_of_def)
next
  fix goal x
  assume good: "secret_good goal x" and decided: "secret_decide goal x = Remove"
  obtain cd snapshot credentials namespace name
    where goal: "goal = (cd, snapshot, credentials, namespace, name)" by (metis prod_cases5)
  obtain env where wf: "registries_wf env (cs_registries snapshot)"
    using good by (auto simp: secret_good_def goal)
  obtain s where "x = Some s" "\<not> has_auth (fst (build cd snapshot credentials (Some s)))"
    "snd (build cd snapshot credentials (Some s)) = []"
    using decided
    by (auto simp: secret_decide_def goal sync_managed_acts Let_def write_of_def
        split: option.splits if_splits)
  with no_auth_without_existing [OF wf, of cd credentials s]
  show "secret_decide goal None = No_Write"
    by (simp add: secret_decide_def goal sync_managed_acts Let_def write_of_def)
qed

section \<open>What a reconciliation guarantees\<close>

lemma sync_managed_length: "length (fst (sync_managed cd snapshot credentials ns name existing answer)) \<le> 1"
  by (auto simp: sync_managed_acts Let_def split: option.splits)

lemma sync_namespace_secret_loaded:
  assumes "store_load (ss_config s) = Some snapshot" "get_failure answer = None"
  shows "sync_namespace_secret cd namespace None answer w s =
     (if \<not> matches_namespace snapshot namespace
      then (clear_conflict namespace s, sync_untargeted (found answer) w)
      else (case found answer of
          Some current \<Rightarrow>
            if \<not> is_managed (Some current)
            then (fst (report_conflict namespace current s), snd (report_conflict namespace current s), None)
            else (clear_conflict namespace s,
                  sync_managed cd snapshot (cst_current (ss_credentials s)) namespace
                    (ss_secret_name s) (Some current) w)
        | None \<Rightarrow>
            (clear_conflict namespace s,
             sync_managed cd snapshot (cst_current (ss_credentials s)) namespace
               (ss_secret_name s) None w)))"
  using assms by (simp add: sync_namespace_secret_def split: option.splits prod.splits)

lemma sync_namespace_secret_unloaded:
  "store_load (ss_config s) = None \<or> nsa \<noteq> None \<or> get_failure answer \<noteq> None \<Longrightarrow>
     fst (snd (sync_namespace_secret cd namespace nsa answer w s)) = []"
  by (auto simp: sync_namespace_secret_def split: option.splits)

text \<open>A reconciliation leaves the configuration, the credentials and the Secret name alone.\<close>

lemma sync_keeps_inputs:
  assumes "sync_namespace_secret cd namespace nsa answer w s = (s', acts, err)"
  shows "ss_config s' = ss_config s" "ss_credentials s' = ss_credentials s"
    "ss_secret_name s' = ss_secret_name s"
  using assms
  by (auto simp: sync_namespace_secret_def clear_conflict_def report_conflict_def
      split: if_splits option.splits prod.splits)

lemma untargeted_calls:
  "length (fst (sync_untargeted e w)) \<le> 1"
  "\<not> is_managed e \<Longrightarrow> sync_untargeted e w = ([], None)"
  by (auto simp: sync_untargeted_def is_managed_def split: option.splits)

text \<open>A namespace that is a target of the loaded configuration.\<close>

definition is_target :: "secret_syncer \<Rightarrow> string \<Rightarrow> bool" where
  "is_target s namespace \<longleftrightarrow>
     (\<exists>snapshot. store_load (ss_config s) = Some snapshot \<and> matches_namespace snapshot namespace)"

lemma foreign_outcome:
  assumes "\<not> is_managed (Some current)"
  shows "sync_namespace_secret cd namespace None (Inr current) w s =
     (if store_load (ss_config s) = None then (s, [], None)
      else if is_target s namespace
      then (fst (report_conflict namespace current s), snd (report_conflict namespace current s), None)
      else (clear_conflict namespace s, [], None))"
proof (cases "store_load (ss_config s)")
  case (Some snapshot)
  have "get_failure (Inr current) = None" by (simp add: get_failure_def)
  then show ?thesis
    using sync_namespace_secret_loaded [OF Some, of "Inr current" cd namespace w] assms Some
    by (simp add: found_def is_target_def untargeted_calls)
qed (simp add: sync_namespace_secret_def)

text \<open>
  C17: A reconciliation makes at most one call that changes the cluster, and it never touches a
  Secret of another owner. When the Secret it observes in a target namespace lacks either
  ownership label, it reports the conflict exactly if this UID is not the one on record for the
  namespace, puts the UID on record, leaves the records of the other namespaces alone and
  returns no error; from then on it reports nothing while it observes that Secret. In a
  namespace that is no target it does nothing to the Secret.
\<close>

theorem foreign_secret_untouched:
  assumes "sync_namespace_secret cd namespace nsa answer w s = (s', acts, err)"
  shows "length acts \<le> 1
    \<and> (\<forall>current. answer = Inr current \<and> \<not> is_managed (Some current) \<longrightarrow>
        (if nsa = None \<and> is_target s namespace
         then acts = (if gm_get (ss_conflicts s) namespace = Some (se_uid current) then []
                      else [Report_Conflict namespace (se_uid current)])
           \<and> gm_get (ss_conflicts s') namespace = Some (se_uid current)
           \<and> (\<forall>other. other \<noteq> namespace \<longrightarrow> gm_get (ss_conflicts s') other = gm_get (ss_conflicts s) other)
           \<and> err = None
         else acts = [])
        \<and> fst (snd (sync_namespace_secret cd namespace nsa answer w' s')) = [])"
proof (cases "store_load (ss_config s) = None \<or> nsa \<noteq> None \<or> get_failure answer \<noteq> None")
  case True
  then have "acts = []" "\<not> (nsa = None \<and> is_target s namespace \<and> get_failure answer = None)"
    using sync_namespace_secret_unloaded [OF True, of cd namespace w] assms by (auto simp: is_target_def)
  moreover have "store_load (ss_config s') = None \<or> nsa \<noteq> None \<or> get_failure answer \<noteq> None"
    using True sync_keeps_inputs(1) [OF assms] by simp
  note sync_namespace_secret_unloaded [OF this, of cd namespace w']
  ultimately show ?thesis by (auto simp: get_failure_def)
next
  case False
  then obtain snapshot where loaded: "store_load (ss_config s) = Some snapshot" by auto
  have fail: "get_failure answer = None" and nsa: "nsa = None" using False by auto
  have "acts = fst (snd (sync_namespace_secret cd namespace None answer w s))"
    using assms nsa by simp
  moreover have "length (snd (report_conflict namespace c s)) \<le> 1" for c
    by (simp add: report_conflict_def)
  ultimately have one: "length acts \<le> 1"
    using untargeted_calls(1) sync_managed_length
    by (auto simp: sync_namespace_secret_loaded [OF loaded fail] found_def split: sum.splits)
  have same: "is_target s' namespace = is_target s namespace" "store_load (ss_config s') = Some snapshot"
    using sync_keeps_inputs(1) [OF assms] loaded by (simp_all add: is_target_def)
  have foreign: "(if nsa = None \<and> is_target s namespace
         then acts = (if gm_get (ss_conflicts s) namespace = Some (se_uid current) then []
                      else [Report_Conflict namespace (se_uid current)])
           \<and> gm_get (ss_conflicts s') namespace = Some (se_uid current)
           \<and> (\<forall>other. other \<noteq> namespace \<longrightarrow> gm_get (ss_conflicts s') other = gm_get (ss_conflicts s) other)
           \<and> err = None
         else acts = [])
        \<and> fst (snd (sync_namespace_secret cd namespace nsa answer w' s')) = []"
    if answer: "answer = Inr current" and other_owner: "\<not> is_managed (Some current)" for current
  proof -
    have run: "(s', acts, err) = (if is_target s namespace
        then (fst (report_conflict namespace current s), snd (report_conflict namespace current s), None)
        else (clear_conflict namespace s, [], None))"
      using assms loaded by (simp add: nsa answer foreign_outcome [OF other_owner])
    have again: "fst (snd (sync_namespace_secret cd namespace None answer w' s')) =
        (if is_target s namespace then snd (report_conflict namespace current s') else [])"
      using same by (simp add: answer foreign_outcome [OF other_owner])
    show ?thesis
    proof (cases "is_target s namespace")
      case True
      then show ?thesis using run again by (simp add: nsa report_conflict_def map_laws)
    qed (use run again in \<open>simp add: nsa\<close>)
  qed
  show ?thesis by (intro conjI [OF one] allI impI foreign) auto
qed

text \<open>A syncer with the sample configuration, and a Secret of another owner.\<close>

definition sample_syncer :: secret_syncer where
  "sample_syncer =
     \<lparr>ss_config = fst (store_apply empty_store sample_snapshot),
      ss_credentials = \<lparr>cst_current = sample_credentials, cst_next_revision = 1\<rparr>,
      ss_secret_name = ''pull'', ss_conflicts = []\<rparr>"

definition foreign_secret :: secret where
  "foreign_secret =
     \<lparr>se_namespace = ''prod'', se_name = ''pull'', se_uid = ''1'', se_resource_version = ''7'',
      se_deleting = False, se_type = ''Opaque'', se_data = [], se_labels = [], se_annotations = []\<rparr>"

lemma foreign_unmanaged: "\<not> is_managed (Some foreign_secret)" by code_simp

theorem foreign_secret_untouched_witness:
  "fst (snd (sync_namespace_secret blank_codec ''prod'' None (Inr foreign_secret) None sample_syncer))
     = [Report_Conflict ''prod'' ''1'']"
proof -
  obtain s' acts err where run: "sync_namespace_secret blank_codec ''prod'' None (Inr foreign_secret)
      None sample_syncer = (s', acts, err)" by (metis prod_cases3)
  have "is_target sample_syncer ''prod''"
    by (simp add: is_target_def sample_syncer_def store_apply_def empty_store_def Let_def) code_simp
  moreover have "gm_get (ss_conflicts sample_syncer) ''prod'' = None" "se_uid foreign_secret = ''1''"
    by (simp_all add: sample_syncer_def foreign_secret_def)
  ultimately show ?thesis
    using foreign_secret_untouched [OF run] foreign_unmanaged by (simp add: run)
qed

text \<open>
  C18: A problem with retained credentials never removes the managed Secret of a target
  namespace: whenever \<open>Build\<close> reports a retention error, the reconciliation makes no delete
  call, and it returns the build error unless a write it made failed.
\<close>

theorem retention_error_keeps_secret:
  assumes "sync_namespace_secret cd namespace None answer w s = (s', acts, err)"
    and "store_load (ss_config s) = Some snapshot" "get_failure answer = None"
    and "matches_namespace snapshot namespace"
    and "found answer = None \<or> is_managed (found answer)"
    and "build cd snapshot (cst_current (ss_credentials s)) (found answer) = (c, problems)"
    and "problems \<noteq> []"
  shows "(\<forall>x uid rv. Delete_Secret x uid rv \<notin> set acts)
    \<and> (w = None \<longrightarrow> err = Some (Build_Failed problems)) \<and> err \<noteq> None"
proof -
  have run: "sync_namespace_secret cd namespace None answer w s =
      (clear_conflict namespace s,
       sync_managed cd snapshot (cst_current (ss_credentials s)) namespace (ss_secret_name s)
         (found answer) w)"
    using sync_namespace_secret_loaded [OF assms(2,3), of cd namespace w] assms(4,5)
    by (auto split: option.splits)
  have managed: "sync_managed cd snapshot (cst_current (ss_credentials s)) namespace (ss_secret_name s)
      (found answer) w = (acts, err)"
    using assms(1) run by simp
  show ?thesis
    using managed assms(6,7)
    by (auto simp: sync_managed_def build_error_of_def split: if_splits option.splits)
qed

text \<open>The Secret a create or an update writes.\<close>

definition written :: "secret_action list \<Rightarrow> secret option" where
  "written acts =
     (case acts of
        Create_Secret x # _ \<Rightarrow> Some x | Update_Secret x # _ \<Rightarrow> Some x | _ \<Rightarrow> None)"

text \<open>
  C19: A Secret that a reconciliation creates or updates carries exactly the content \<open>Build\<close>
  gives for the current configuration and credentials, with at least one auth; it is of the
  Docker config type with that one data key, has both ownership labels, and keeps every other
  label and annotation of the Secret it updates. It matches its content, so writing it again
  is not needed.
\<close>

theorem written_secret_content:
  assumes "sync_namespace_secret cd namespace None answer w s = (s', acts, err)"
    and "written acts = Some x"
    and "\<And>current. answer = Inr current \<Longrightarrow> gm_wf (se_labels current) \<and> gm_wf (se_annotations current)"
  shows "\<exists>snapshot c. store_load (ss_config s) = Some snapshot \<and> matches_namespace snapshot namespace
    \<and> c = fst (build cd snapshot (cst_current (ss_credentials s)) (found answer)) \<and> has_auth c
    \<and> secret_matches x c \<and> is_managed (Some x)
    \<and> se_data x = [(docker_config_json_key, ct_docker_json c)]
    \<and> (\<forall>current. answer = Inr current \<longrightarrow>
          (\<forall>l. l \<noteq> application_name_label_key \<and> l \<noteq> managed_by_label_key \<longrightarrow>
             gm_get (se_labels x) l = gm_get (se_labels current) l)
          \<and> (\<forall>a. a \<noteq> state_annotation_key \<longrightarrow>
             gm_get (se_annotations x) a = gm_get (se_annotations current) a))"
proof -
  have some: "acts \<noteq> []" using assms(2) by (auto simp: written_def)
  have "\<not> (store_load (ss_config s) = None \<or> get_failure answer \<noteq> None)"
  proof
    assume "store_load (ss_config s) = None \<or> get_failure answer \<noteq> None"
    then have "fst (snd (sync_namespace_secret cd namespace None answer w s)) = []"
      by (intro sync_namespace_secret_unloaded) blast
    with assms(1) some show False by simp
  qed
  then obtain snapshot where loaded: "store_load (ss_config s) = Some snapshot"
    by (cases "store_load (ss_config s)") auto
  have fail: "get_failure answer = None"
    using \<open>\<not> (store_load (ss_config s) = None \<or> get_failure answer \<noteq> None)\<close> by simp
  let ?c = "fst (build cd snapshot (cst_current (ss_credentials s)) (found answer))"
  note run = sync_namespace_secret_loaded [OF loaded fail, of cd namespace w]
  have target: "matches_namespace snapshot namespace"
    using assms(1,2) unfolding run
    by (auto simp: sync_untargeted_def delete_observed_def written_def split: if_splits option.splits)
  have managed: "acts = fst (sync_managed cd snapshot (cst_current (ss_credentials s)) namespace
      (ss_secret_name s) (found answer) w)"
    using assms(1,2) target unfolding run
    by (auto simp: report_conflict_def written_def split: if_splits option.splits)
  obtain base where x: "x = apply_content base ?c" and auth: "has_auth ?c"
    and base: "\<And>current. answer = Inr current \<Longrightarrow> base = current"
    using assms(2) unfolding managed sync_managed_acts
    by (auto simp: Let_def written_def new_secret_def delete_observed_def found_def
        split: option.splits if_splits sum.splits)
  have "stored_as (apply_content base ?c) x" by (simp add: stored_as_def x)
  note m = stored_matches [OF this]
  have keep: "gm_get (se_labels x) l = gm_get (se_labels current) l"
    if "answer = Inr current" "l \<noteq> application_name_label_key" "l \<noteq> managed_by_label_key" for current l
    using that base [OF that(1)] assms(3) [OF that(1)] by (simp add: x apply_content_def map_laws)
  have keep': "gm_get (se_annotations x) a = gm_get (se_annotations current) a"
    if "answer = Inr current" "a \<noteq> state_annotation_key" for current a
    using that base [OF that(1)] assms(3) [OF that(1)] by (simp add: x apply_content_def map_laws)
  show ?thesis
    using loaded target auth m(1,2) keep keep'
    by (intro exI [of _ snapshot] exI [of _ ?c]) (simp add: x apply_content_def)
qed

text \<open>What the next reconciliation observes when the calls of the previous one succeeded.\<close>

definition cluster_after ::
  "secret_action list \<Rightarrow> (kube_error, secret) result \<Rightarrow> (kube_error, secret) result \<Rightarrow> bool" where
  "cluster_after acts before after \<longleftrightarrow>
     (case write_of acts of
        No_Write \<Rightarrow> after = before
      | Write x \<Rightarrow> (case after of Inr x' \<Rightarrow> stored_as x x' | Inl _ \<Rightarrow> False)
      | Remove \<Rightarrow> after = Inl Not_Found)"

lemma cluster_after_answers:
  assumes "cluster_after acts answer answer'" and "get_failure answer = None"
  shows "get_failure answer' = None"
  using assms by (auto simp: cluster_after_def get_failure_def split: change.splits sum.splits)

text \<open>A namespace that is no longer a target: the managed Secret is gone or was never there.\<close>

lemma untargeted_settles:
  assumes "acts = fst (sync_untargeted (found answer) None)" and "cluster_after acts answer answer'"
  shows "fst (sync_untargeted (found answer') w) = []"
  using assms
  by (auto simp: cluster_after_def sync_untargeted_def write_of_def delete_observed_def found_def
      split: option.splits if_splits sum.splits)

text \<open>A Secret of another owner: it stays, and its conflict is on record.\<close>

lemma conflict_settles:
  assumes "(s', acts) = report_conflict namespace current s" and "cluster_after acts answer answer'"
  shows "answer' = answer \<and> report_conflict namespace current s' = (s', [])"
  using assms
  by (auto simp: cluster_after_def report_conflict_def write_of_def map_laws split: if_splits)

text \<open>A managed or missing Secret: the write it needed settles it, by the laws of \<open>secrets\<close>.\<close>

lemma managed_decides_nothing:
  fixes cd snapshot credentials namespace secret_name
  defines "goal \<equiv> (cd, snapshot, credentials, namespace, secret_name)"
  assumes good: "secret_good goal (found answer)"
    and acts: "acts = fst (sync_managed cd snapshot credentials namespace secret_name (found answer) None)"
    and after: "cluster_after acts answer answer'"
    and own: "found answer = None \<or> is_managed (found answer)"
  shows "secret_decide goal (found answer') = No_Write
    \<and> (found answer' = None \<or> is_managed (found answer'))"
proof -
  have decide: "secret_decide goal (found answer) = write_of acts"
    by (simp add: secret_decide_def acts goal_def)
  show ?thesis
  proof (cases "write_of acts")
    case No_Write
    then have "answer' = answer" using after by (simp add: cluster_after_def)
    with No_Write decide own show ?thesis by simp
  next
    case (Write x)
    then obtain x' where x': "answer' = Inr x'" "stored_as x x'"
      using after by (auto simp: cluster_after_def split: sum.splits)
    obtain base c where "x = apply_content base c"
      using Write acts
      by (auto simp: write_of_def sync_managed_acts Let_def new_secret_def delete_observed_def
          split: option.splits if_splits)
    then have "is_managed (Some x')" using stored_matches(2) x'(2) by simp
    moreover have "secret_decide goal (Some x') = No_Write"
      by (rule secrets.write_settles [OF good _ x'(2)]) (simp add: decide Write)
    ultimately show ?thesis by (simp add: x'(1) found_def)
  next
    case Remove
    then have "answer' = Inl Not_Found" using after by (simp add: cluster_after_def)
    moreover have "secret_decide goal None = No_Write"
      by (rule secrets.remove_settles [OF good]) (simp add: decide Remove)
    ultimately show ?thesis by (simp add: found_def)
  qed
qed

lemma decides_nothing_quiet:
  assumes "secret_decide (cd, snapshot, credentials, namespace, secret_name) current = No_Write"
  shows "fst (sync_managed cd snapshot credentials namespace secret_name current w) = []"
  using assms
  by (auto simp: secret_decide_def sync_managed_acts Let_def write_of_def delete_observed_def
      split: option.splits if_splits)

text \<open>
  C16: The reconciliation of a namespace converges in one step: when its call succeeded and
  configuration and credentials have not changed, the next reconciliation makes no call and
  reports nothing, whatever was observed the first time: no Secret, an outdated one, one of
  another owner, or one in a namespace that is no longer a target. The rendered documents must
  be readable by the decoder that wrote them, and no region may contain a slash.
\<close>

theorem sync_secret_converges:
  assumes "store_load (ss_config s) = Some snapshot"
    and "registries_wf env (cs_registries snapshot)" "plain_keys (cs_registries snapshot)"
    and "docs_read_back cd (fst (build_documents cd snapshot (cst_current (ss_credentials s)) (found answer)))"
    and "sync_namespace_secret cd namespace None answer None s = (s', acts, err)"
    and "cluster_after acts answer answer'"
  shows "fst (snd (sync_namespace_secret cd namespace None answer' w s')) = []"
proof (cases "get_failure answer")
  case (Some failure)
  then have "acts = []" "s' = s" using assms(1,5) by (auto simp: sync_namespace_secret_def)
  then show ?thesis
    using Some assms(6) by (simp add: cluster_after_def write_of_def sync_namespace_secret_unloaded)
next
  case None
  note run = sync_namespace_secret_loaded [OF assms(1) None, of cd namespace None, unfolded assms(5)]
  note same = sync_keeps_inputs [OF assms(5)]
  have loaded': "store_load (ss_config s') = Some snapshot" using assms(1) same by simp
  note run' = sync_namespace_secret_loaded [OF loaded' cluster_after_answers [OF assms(6) None],
      of cd namespace w]
  consider (untargeted) "\<not> matches_namespace snapshot namespace"
    | (foreign) current where "matches_namespace snapshot namespace" "found answer = Some current"
        "\<not> is_managed (Some current)"
    | (managed) "matches_namespace snapshot namespace" "found answer = None \<or> is_managed (found answer)"
    by (cases "found answer") auto
  then show ?thesis
  proof cases
    case untargeted
    then have "(acts, err) = sync_untargeted (found answer) None" using run by simp
    then have "fst (sync_untargeted (found answer') w) = []"
      by (intro untargeted_settles [OF _ assms(6)]) (metis fst_conv)
    with untargeted show ?thesis unfolding run' by simp
  next
    case foreign
    then have "(s', acts) = report_conflict namespace current s" using run by auto
    from conflict_settles [OF this assms(6)] foreign show ?thesis unfolding run' by simp
  next
    case managed
    then have "(acts, err) = sync_managed cd snapshot (cst_current (ss_credentials s)) namespace
        (ss_secret_name s) (found answer) None"
      using run by (auto split: option.splits)
    then have acts: "acts = fst (sync_managed cd snapshot (cst_current (ss_credentials s)) namespace
        (ss_secret_name s) (found answer) None)" by (metis fst_conv)
    have "secret_good (cd, snapshot, cst_current (ss_credentials s), namespace, ss_secret_name s)
        (found answer)"
      using assms(2-4) by (auto simp: secret_good_def)
    note nothing = managed_decides_nothing [OF this acts assms(6) managed(2)]
    with decides_nothing_quiet managed(1) show ?thesis
      unfolding run' same by (auto split: option.splits)
  qed
qed

section \<open>Runs\<close>

text \<open>A codec that reads back the documents of the sample configuration.\<close>

definition sample_docs :: "docker_config \<times> persisted_state" where
  "sample_docs = fst (build_documents blank_codec sample_snapshot sample_credentials None)"

definition two_times :: codec where
  "two_times = blank_codec\<lparr>cd_format_time := (\<lambda>t. if t = utc 0 then ''0'' else ''1''),
     cd_parse_time := (\<lambda>s. Some (if s = ''0'' then utc 0 else utc second))\<rparr>"

definition echo_codec :: codec where
  "echo_codec = two_times
     \<lparr>cd_text := (\<lambda>j. if j = docker_json (fst sample_docs) then ''D''
          else if Some j = state_json two_times (snd sample_docs) then ''S'' else ''{}''),
      cd_tree := (\<lambda>s. if s = ''D'' then Some (docker_json (fst sample_docs))
          else if s = ''S'' then state_json two_times (snd sample_docs) else None)\<rparr>"

lemma sample_docs_echo:
  "fst (build_documents echo_codec (sample_snapshot\<lparr>cs_generation := 1\<rparr>) sample_credentials None) = sample_docs"
  by code_simp

lemma state_json_cong:
  assumes "cd_format_time cd = cd_format_time cd'"
  shows "state_json cd s = state_json cd' s"
proof -
  have entry: "state_entry_json cd rs = state_entry_json cd' rs" for rs
    using assms by (simp add: state_entry_json_def marshal_time_def)
  have "state_entries_json cd m = state_entries_json cd' m" for m
    by (induction m) (auto simp: entry split: option.splits)
  then show ?thesis by (simp add: state_json_def)
qed

lemma sample_docs_read_back: "docs_read_back echo_codec sample_docs"
  unfolding docs_read_back_def
proof (intro conjI)
  show "reads_back echo_codec (docker_json (fst sample_docs))"
    by (simp add: reads_back_def echo_codec_def)
  have "state_json two_times (snd sample_docs) \<noteq> Some (docker_json (fst sample_docs))"
    by code_simp
  moreover have "state_json echo_codec (snd sample_docs) = state_json two_times (snd sample_docs)"
    by (rule state_json_cong) (simp add: echo_codec_def)
  ultimately show "\<forall>j. state_json echo_codec (snd sample_docs) = Some j \<longrightarrow> reads_back echo_codec j"
    by (auto simp: reads_back_def echo_codec_def)
  show "\<forall>(key, rs) \<in> set (ps_registries (snd sample_docs)).
      cd_parse_time echo_codec (cd_format_time echo_codec (rs_refreshed_at rs)) = Some (rs_refreshed_at rs)
      \<and> cd_parse_time echo_codec (cd_format_time echo_codec (rs_expires_at rs)) = Some (rs_expires_at rs)"
    by code_simp
qed

lemma sample_syncer_loaded:
  "store_load (ss_config sample_syncer) = Some (sample_snapshot\<lparr>cs_generation := 1\<rparr>)"
  by (simp add: sample_syncer_def store_apply_def empty_store_def Let_def)

definition sample_written :: "secret option" where
  "sample_written = written (fst (snd (sync_namespace_secret echo_codec ''prod'' None (Inl Not_Found) None
     sample_syncer)))"

theorem sync_secret_converges_witness:
  "map_option (\<lambda>x. fst (snd (sync_namespace_secret echo_codec ''prod'' None (Inr x) None
     (fst (sync_namespace_secret echo_codec ''prod'' None (Inl Not_Found) None sample_syncer)))))
     sample_written = Some []"
proof -
  obtain s' acts err where run: "sync_namespace_secret echo_codec ''prod'' None (Inl Not_Found) None
      sample_syncer = (s', acts, err)" by (metis prod_cases3)
  have "sample_written \<noteq> None" by code_simp
  then obtain x where x: "sample_written = Some x" by blast
  then have wr: "written acts = Some x" by (simp add: sample_written_def run)
  have creds: "cst_current (ss_credentials sample_syncer) = sample_credentials"
    by (simp add: sample_syncer_def)
  have wf: "registries_wf sample_env (cs_registries (sample_snapshot\<lparr>cs_generation := 1\<rparr>))"
    "plain_keys (cs_registries (sample_snapshot\<lparr>cs_generation := 1\<rparr>))"
    using sample_registries_wf by (simp_all add: plain_keys_def sample_snapshot_def)
  have "cluster_after acts (Inl Not_Found) (Inr x)"
    using wr by (auto simp: cluster_after_def write_of_def written_def stored_as_def
        split: list.splits secret_action.splits)
  from sync_secret_converges [OF sample_syncer_loaded wf _ run this, of None]
  show ?thesis by (simp add: x run creds found_def sample_docs_echo sample_docs_read_back)
qed

theorem written_secret_content_witness:
  "\<exists>x. sample_written = Some x \<and> is_managed (Some x)"
proof -
  obtain s' acts err where run: "sync_namespace_secret echo_codec ''prod'' None (Inl Not_Found) None
      sample_syncer = (s', acts, err)" by (metis prod_cases3)
  have "sample_written \<noteq> None" by code_simp
  then obtain x where x: "sample_written = Some x" by blast
  then have "written acts = Some x" by (simp add: sample_written_def run)
  from written_secret_content [OF run this] x show ?thesis by auto
qed

definition garbled_secret :: secret where
  "garbled_secret = foreign_secret
     \<lparr>se_labels := [(application_name_label_key, controller_identity),
        (managed_by_label_key, controller_identity)],
      se_data := [(docker_config_json_key, ''x'')]\<rparr>"

theorem retention_error_keeps_secret_witness:
  "snd (snd (sync_namespace_secret blank_codec ''prod'' None (Inr garbled_secret) None sample_syncer))
     = Some (Build_Failed [Docker_Config_Invalid, State_Invalid])"
proof -
  obtain s' acts err where run: "sync_namespace_secret blank_codec ''prod'' None (Inr garbled_secret)
      None sample_syncer = (s', acts, err)" by (metis prod_cases3)
  obtain c problems where built: "build blank_codec (sample_snapshot\<lparr>cs_generation := 1\<rparr>)
      (cst_current (ss_credentials sample_syncer)) (found (Inr garbled_secret)) = (c, problems)"
    by (metis surj_pair)
  have "snd (build blank_codec (sample_snapshot\<lparr>cs_generation := 1\<rparr>)
      (cst_current (ss_credentials sample_syncer)) (found (Inr garbled_secret)))
      = [Docker_Config_Invalid, State_Invalid]" by code_simp
  then have problems: "problems = [Docker_Config_Invalid, State_Invalid]" using built by simp
  have target: "matches_namespace (sample_snapshot\<lparr>cs_generation := 1\<rparr>) ''prod''" by code_simp
  have managed: "found (Inr garbled_secret) = None \<or> is_managed (found (Inr garbled_secret))"
    by code_simp
  have ok: "get_failure (Inr garbled_secret) = None" by (simp add: get_failure_def)
  from retention_error_keeps_secret [OF run sample_syncer_loaded ok target managed built] problems
  show ?thesis by (simp add: run)
qed

end
