(* ===== verification/ServiceAccountSyncer.thy ===== *)
theory ServiceAccountSyncer
  imports SyncSpec
begin

text \<open>
  \<open>internal/serviceaccount/syncer.go\<close>: the reference to the managed Secret in the
  \<open>imagePullSecrets\<close> of a ServiceAccount. The object read and the Secret read are arguments, the
  patch is an action; a reference is its name.
\<close>

record service_account =
  sa_name :: string
  sa_namespace :: string
  sa_resource_version :: string
  sa_image_pull_secrets :: "string list"

record sa_syncer =
  ay_config :: config_store
  ay_secret_name :: string

datatype sa_syncer_error = Nil_SA_Client | Nil_SA_Config_Store | Empty_SA_Secret_Name

definition new_sa_syncer ::
  "bool \<Rightarrow> config_store option \<Rightarrow> string \<Rightarrow> (sa_syncer_error, sa_syncer) result" where
  "new_sa_syncer client config name =
     (if \<not> client then Inl Nil_SA_Client
      else (case config of
          None \<Rightarrow> Inl Nil_SA_Config_Store
        | Some cs \<Rightarrow>
            if name = [] then Inl Empty_SA_Secret_Name
            else Inr \<lparr>ay_config = cs, ay_secret_name = name\<rparr>))"

text \<open>The body of the loop: the references kept so far and whether the managed one is among them.\<close>

definition reconcile_reference ::
  "string \<Rightarrow> bool \<Rightarrow> string \<Rightarrow> string list \<times> bool \<Rightarrow> string list \<times> bool" where
  "reconcile_reference managed should reference st =
     (case st of (kept, added) \<Rightarrow>
        if reference \<noteq> managed then (kept @ [reference], added)
        else if should \<and> \<not> added then (kept @ [managed], True)
        else (kept, added))"

definition reconcile_references :: "string list \<Rightarrow> string \<Rightarrow> bool \<Rightarrow> string list" where
  "reconcile_references current managed should =
     (case fold (reconcile_reference managed should) current ([], False) of
        (kept, added) \<Rightarrow> if should \<and> \<not> added then kept @ [managed] else kept)"

fun equal_references :: "string list \<Rightarrow> string list \<Rightarrow> bool" where
  "equal_references [] [] = True"
| "equal_references (x # xs) (y # ys) = (x = y \<and> equal_references xs ys)"
| "equal_references _ _ = False"

datatype sa_error =
    Get_SA_Failed kube_error
  | Managed_Secret_Missing
  | Managed_Secret_Not_Ready
  | Get_Managed_Secret_Failed kube_error
  | Patch_Failed kube_error

text \<open>\<open>ErrManagedSecretNotReady\<close> is found in the chain of these errors.\<close>

fun is_not_ready :: "sa_error \<Rightarrow> bool" where
  "is_not_ready Managed_Secret_Missing = True"
| "is_not_ready Managed_Secret_Not_Ready = True"
| "is_not_ready _ = False"

text \<open>The patch carries the observed resource version, so a concurrent change makes it fail.\<close>

datatype sa_action = Patch_References service_account "string list"

text \<open>Whether the reference is wanted, for a ServiceAccount that the configuration selects.\<close>

definition wants_reference :: "(kube_error, secret) result \<Rightarrow> (sa_error, bool) result" where
  "wants_reference secret_answer =
     (case secret_answer of
        Inl err \<Rightarrow>
          if err = Not_Found then Inl Managed_Secret_Missing else Inl (Get_Managed_Secret_Failed err)
      | Inr s \<Rightarrow>
          if \<not> is_managed (Some s) then Inr False
          else if \<not> is_usable_for_service_account s then Inl Managed_Secret_Not_Ready
          else Inr True)"

definition patch_references ::
  "sa_syncer \<Rightarrow> service_account \<Rightarrow> bool \<Rightarrow> kube_error option \<Rightarrow> sa_action list \<times> sa_error option" where
  "patch_references s account should answer =
     (let desired = reconcile_references (sa_image_pull_secrets account) (ay_secret_name s) should
      in if equal_references (sa_image_pull_secrets account) desired then ([], None)
         else ([Patch_References account desired],
               case answer of None \<Rightarrow> None | Some err \<Rightarrow> Some (Patch_Failed err)))"

definition sync_service_account ::
  "string \<Rightarrow> string \<Rightarrow> (kube_error, service_account) result \<Rightarrow> (kube_error, secret) result
     \<Rightarrow> kube_error option \<Rightarrow> sa_syncer \<Rightarrow> sa_action list \<times> sa_error option" where
  "sync_service_account namespace name account_answer secret_answer answer s =
     (case store_load (ay_config s) of
        None \<Rightarrow> ([], None)
      | Some snapshot \<Rightarrow>
          (case account_answer of
             Inl err \<Rightarrow> if err = Not_Found then ([], None) else ([], Some (Get_SA_Failed err))
           | Inr account \<Rightarrow>
               if matches_namespace snapshot namespace
                  \<and> selector_matches (cs_accounts snapshot) name
               then (case wants_reference secret_answer of
                   Inl err \<Rightarrow> ([], Some err)
                 | Inr should \<Rightarrow> patch_references s account should answer)
               else patch_references s account False answer))"

section \<open>References\<close>

lemma equal_references_iff [simp]: "equal_references xs ys \<longleftrightarrow> xs = ys"
  by (induction xs ys rule: equal_references.induct) auto

text \<open>The reference list the code wants: the foreign ones in order, the managed one once.\<close>

lemma reconcile_fold_not:
  "fold (reconcile_reference m False) xs (kept, b) = (kept @ filter (\<lambda>r. r \<noteq> m) xs, b)"
  by (induction xs arbitrary: kept) (auto simp: reconcile_reference_def)

lemma reconcile_fold_added:
  "fold (reconcile_reference m True) xs (kept, True) = (kept @ filter (\<lambda>r. r \<noteq> m) xs, True)"
  by (induction xs arbitrary: kept) (auto simp: reconcile_reference_def)

lemma reconcile_fold_first:
  "fold (reconcile_reference m True) xs (kept, False) =
     (if m \<in> set xs
      then (kept @ takeWhile (\<lambda>r. r \<noteq> m) xs @ m # filter (\<lambda>r. r \<noteq> m) (dropWhile (\<lambda>r. r \<noteq> m) xs), True)
      else (kept @ xs, False))"
  by (induction xs arbitrary: kept) (auto simp: reconcile_reference_def reconcile_fold_added)

lemma filter_takeWhile_dropWhile:
  "takeWhile (\<lambda>r. r \<noteq> m) xs @ filter (\<lambda>r. r \<noteq> m) (dropWhile (\<lambda>r. r \<noteq> m) xs)
     = filter (\<lambda>r. r \<noteq> m) xs"
  by (induction xs) auto

lemma takeWhile_not_self [simp]: "filter (\<lambda>r. r \<noteq> m) (takeWhile (\<lambda>r. r \<noteq> m) xs) = takeWhile (\<lambda>r. r \<noteq> m) xs"
  by (induction xs) auto

lemma reconcile_false [simp]: "reconcile_references xs m False = filter (\<lambda>r. r \<noteq> m) xs"
  by (simp add: reconcile_references_def reconcile_fold_not)

lemma reconcile_true:
  "reconcile_references xs m True =
     (if m \<in> set xs
      then takeWhile (\<lambda>r. r \<noteq> m) xs @ m # filter (\<lambda>r. r \<noteq> m) (dropWhile (\<lambda>r. r \<noteq> m) xs)
      else xs @ [m])"
  by (simp add: reconcile_references_def reconcile_fold_first)

lemma reconcile_foreign:
  "filter (\<lambda>r. r \<noteq> m) (reconcile_references xs m should) = filter (\<lambda>r. r \<noteq> m) xs"
  using filter_takeWhile_dropWhile [of m xs]
  by (cases should) (auto simp: reconcile_true)

lemma reconcile_count:
  "count_list (reconcile_references xs m should) m = (if should then 1 else 0)"
proof -
  have "count_list (filter (\<lambda>r. r \<noteq> m) ys) m = 0" for ys by (induction ys) auto
  moreover have "count_list (takeWhile (\<lambda>r. r \<noteq> m) ys) m = 0" for ys by (induction ys) auto
  moreover have "m \<notin> set xs \<Longrightarrow> count_list xs m = 0" by (induction xs) auto
  ultimately show ?thesis by (cases should) (auto simp: reconcile_true)
qed

lemma reconcile_idem:
  "reconcile_references (reconcile_references xs m should) m should = reconcile_references xs m should"
proof (cases should)
  case False
  then show ?thesis by simp
next
  case True
  have "takeWhile (\<lambda>r. r \<noteq> m) (takeWhile (\<lambda>r. r \<noteq> m) ys @ m # zs) = takeWhile (\<lambda>r. r \<noteq> m) ys"
    "dropWhile (\<lambda>r. r \<noteq> m) (takeWhile (\<lambda>r. r \<noteq> m) ys @ m # zs) = m # zs" for ys zs
    by (induction ys) auto
  then show ?thesis using True by (auto simp: reconcile_true takeWhile_append)
qed

text \<open>
  C20: Reconciling the references of a ServiceAccount keeps every reference to another Secret, in
  its order and number, has the managed Secret exactly once if it is wanted and not at all
  otherwise, and is idempotent.
\<close>

theorem reconcile_references_spec:
  "filter (\<lambda>r. r \<noteq> managed) (reconcile_references current managed should)
     = filter (\<lambda>r. r \<noteq> managed) current
   \<and> count_list (reconcile_references current managed should) managed = (if should then 1 else 0)
   \<and> reconcile_references (reconcile_references current managed should) managed should
     = reconcile_references current managed should"
  by (simp add: reconcile_foreign reconcile_count reconcile_idem)

section \<open>Reconciliation\<close>

type_synonym sa_goal = "sa_syncer \<times> bool"

definition account_decide :: "sa_goal \<Rightarrow> service_account option \<Rightarrow> service_account change" where
  "account_decide goal observed =
     (case observed of
        None \<Rightarrow> No_Write
      | Some account \<Rightarrow>
          (case fst (patch_references (fst goal) account (snd goal) None) of
             Patch_References a references # _ \<Rightarrow> Write (a\<lparr>sa_image_pull_secrets := references\<rparr>)
           | _ \<Rightarrow> No_Write))"

definition account_stored :: "service_account \<Rightarrow> service_account \<Rightarrow> bool" where
  "account_stored a a' \<longleftrightarrow> sa_image_pull_secrets a' = sa_image_pull_secrets a"

lemma patch_references_acts:
  "fst (patch_references s account should answer) =
     (if sa_image_pull_secrets account
         = reconcile_references (sa_image_pull_secrets account) (ay_secret_name s) should then []
      else [Patch_References account
        (reconcile_references (sa_image_pull_secrets account) (ay_secret_name s) should)])"
  by (simp add: patch_references_def Let_def)

interpretation accounts: converging account_decide account_stored "\<lambda>_ _. True"
  by unfold_locales
    (auto simp: account_decide_def patch_references_acts account_stored_def reconcile_idem
      split: option.splits if_splits)

text \<open>
  C21: While the managed Secret is absent, being deleted or incomplete, the reconciliation of a
  selected ServiceAccount touches nothing and returns the retryable not-ready error; the
  references it has stay as they are. This happens exactly in that case.
\<close>

theorem not_ready_keeps_references:
  assumes "store_load (ay_config s) = Some snapshot"
    and "matches_namespace snapshot namespace" "selector_matches (cs_accounts snapshot) name"
    and "sync_service_account namespace name (Inr account) secret_answer answer s = (acts, err)"
  shows "((\<exists>e. err = Some e \<and> is_not_ready e) \<longleftrightarrow>
      secret_answer = Inl Not_Found \<or>
      (\<exists>x. secret_answer = Inr x \<and> is_managed (Some x) \<and> \<not> is_usable_for_service_account x))
    \<and> ((\<exists>e. err = Some e \<and> is_not_ready e) \<longrightarrow> acts = [])"
  using assms
  by (auto simp: sync_service_account_def wants_reference_def patch_references_def Let_def
      split: sum.splits if_splits option.splits)

text \<open>The ServiceAccount after the calls succeeded.\<close>

definition account_after :: "sa_action list \<Rightarrow> service_account \<Rightarrow> service_account \<Rightarrow> bool" where
  "account_after acts before after \<longleftrightarrow>
     (case acts of
        [] \<Rightarrow> after = before
      | Patch_References a references # _ \<Rightarrow> sa_image_pull_secrets after = references)"

text \<open>
  C22: After a reconciliation without an error, the ServiceAccount references the managed Secret
  exactly once if the configuration selects it and the Secret of that name is the
  controller's, and not at all otherwise; its other references are unchanged, and
  reconciling it again, with the same configuration and Secret, makes no call.
\<close>

theorem service_account_converges:
  assumes "store_load (ay_config s) = Some snapshot"
    and "sync_service_account namespace name (Inr account) secret_answer None s = (acts, None)"
    and "account_after acts account account'"
  shows "count_list (sa_image_pull_secrets account') (ay_secret_name s) =
      (if matches_namespace snapshot namespace \<and> selector_matches (cs_accounts snapshot) name
          \<and> (\<exists>x. secret_answer = Inr x \<and> is_managed (Some x)) then 1 else 0)
    \<and> filter (\<lambda>r. r \<noteq> ay_secret_name s) (sa_image_pull_secrets account')
      = filter (\<lambda>r. r \<noteq> ay_secret_name s) (sa_image_pull_secrets account)
    \<and> sync_service_account namespace name (Inr account') secret_answer None s = ([], None)"
proof -
  let ?selected = "matches_namespace snapshot namespace \<and> selector_matches (cs_accounts snapshot) name"
  let ?managed = "\<exists>x. secret_answer = Inr x \<and> is_managed (Some x)"
  let ?should = "?selected \<and> ?managed"
  have wants: "wants_reference secret_answer = Inr ?managed" if ?selected
    using assms(1,2) that
    by (auto simp: sync_service_account_def wants_reference_def split: sum.splits if_splits)
  have run: "sync_service_account namespace name (Inr a) secret_answer w s
      = patch_references s a ?should w" for a w
    using assms(1) wants by (auto simp: sync_service_account_def)
  have acts: "acts = fst (patch_references s account ?should None)"
    using assms(2) run [of account None] by simp
  have refs: "sa_image_pull_secrets account' =
      reconcile_references (sa_image_pull_secrets account) (ay_secret_name s) ?should"
    using assms(3) unfolding acts patch_references_acts account_after_def by (auto split: if_splits)
  have "sync_service_account namespace name (Inr account') secret_answer None s = ([], None)"
    unfolding run by (simp add: patch_references_def Let_def refs reconcile_idem)
  then show ?thesis by (simp add: refs reconcile_count reconcile_foreign)
qed

section \<open>Examples\<close>

definition sample_sa_syncer :: sa_syncer where
  "sample_sa_syncer =
     \<lparr>ay_config = fst (store_apply empty_store sample_snapshot), ay_secret_name = ''pull''\<rparr>"

definition sample_account :: service_account where
  "sample_account =
     \<lparr>sa_name = ''default'', sa_namespace = ''prod'', sa_resource_version = ''3'',
      sa_image_pull_secrets = [''mine'']\<rparr>"

definition ready_secret :: secret where
  "ready_secret = garbled_secret\<lparr>se_type := secret_type_docker_config_json\<rparr>"

lemma sample_sa_loaded:
  "store_load (ay_config sample_sa_syncer) = Some (sample_snapshot\<lparr>cs_generation := 1\<rparr>)"
  by (simp add: sample_sa_syncer_def store_apply_def empty_store_def Let_def)

theorem not_ready_keeps_references_witness:
  "fst (sync_service_account ''prod'' ''default'' (Inr sample_account) (Inl Not_Found) None
     sample_sa_syncer) = []"
proof -
  obtain acts err where run: "sync_service_account ''prod'' ''default'' (Inr sample_account)
      (Inl Not_Found) None sample_sa_syncer = (acts, err)" by (metis surj_pair)
  have "matches_namespace (sample_snapshot\<lparr>cs_generation := 1\<rparr>) ''prod''"
    "selector_matches (cs_accounts (sample_snapshot\<lparr>cs_generation := 1\<rparr>)) ''default''"
    by code_simp+
  from not_ready_keeps_references [OF sample_sa_loaded this run] run show ?thesis by simp
qed

theorem service_account_converges_witness:
  "count_list (sa_image_pull_secrets
     (sample_account\<lparr>sa_image_pull_secrets := [''mine'', ''pull'']\<rparr>)) ''pull'' = 1"
proof -
  let ?after = "sample_account\<lparr>sa_image_pull_secrets := [''mine'', ''pull'']\<rparr>"
  have run: "sync_service_account ''prod'' ''default'' (Inr sample_account) (Inr ready_secret) None
      sample_sa_syncer = ([Patch_References sample_account [''mine'', ''pull'']], None)"
    by code_simp
  have "account_after [Patch_References sample_account [''mine'', ''pull'']] sample_account ?after"
    by (simp add: account_after_def)
  from service_account_converges [OF sample_sa_loaded run this]
  have "count_list (sa_image_pull_secrets ?after) (ay_secret_name sample_sa_syncer) =
      (if matches_namespace (sample_snapshot\<lparr>cs_generation := 1\<rparr>) ''prod''
          \<and> selector_matches (cs_accounts (sample_snapshot\<lparr>cs_generation := 1\<rparr>)) ''default''
          \<and> (\<exists>x. (Inr ready_secret :: (kube_error, secret) result) = Inr x \<and> is_managed (Some x))
       then 1 else 0)"
    by blast
  moreover have "matches_namespace (sample_snapshot\<lparr>cs_generation := 1\<rparr>) ''prod''"
    "selector_matches (cs_accounts (sample_snapshot\<lparr>cs_generation := 1\<rparr>)) ''default''"
    "is_managed (Some ready_secret)"
    by code_simp+
  ultimately show ?thesis by (simp add: sample_sa_syncer_def)
qed

end
