(* ===== verification/ControllerSetup.thy ===== *)
theory ControllerSetup
  imports ServiceAccountSyncer
begin

text \<open>
  The static side of \<open>internal/controller\<close>: options with their defaults and checks
  (\<open>options.go\<close>), the registration of the three controllers and the mapping of watched
  objects to requests (\<open>setup.go\<close>), the priorities of create events (the two event
  handlers) and the readiness check. What controller-runtime does with a registration is
  outside the repository; a registration is the data it is given.
\<close>

section \<open>Options\<close>

definition default_controller_namespace :: string where
  "default_controller_namespace = ''registry-secret-controller-system''"
definition default_config_map_name :: string where
  "default_config_map_name = ''registry-secret-controller-config''"
definition default_managed_secret_name :: string where
  "default_managed_secret_name = ''auto-patch-secret''"
definition default_max_concurrent_namespace_reconciles :: int where
  "default_max_concurrent_namespace_reconciles = default_workers"
definition default_max_concurrent_service_account_reconciles :: int where
  "default_max_concurrent_service_account_reconciles = default_workers"
definition default_leader_election_id :: string where
  "default_leader_election_id = ''kubernetes-registry-secret-controller''"
definition controller_event_buffer :: nat where "controller_event_buffer = 1024"

record controller_options =
  co_controller_namespace :: string
  co_config_map_name :: string
  co_managed_secret_name :: string
  co_namespace_reconciles :: int
  co_service_account_reconciles :: int

definition or_default_name :: "string \<Rightarrow> string \<Rightarrow> string" where
  "or_default_name v d = (if v = [] then d else v)"

definition controller_defaults :: "controller_options \<Rightarrow> controller_options" where
  "controller_defaults opts =
     \<lparr>co_controller_namespace =
        or_default_name (co_controller_namespace opts) default_controller_namespace,
      co_config_map_name = or_default_name (co_config_map_name opts) default_config_map_name,
      co_managed_secret_name =
        or_default_name (co_managed_secret_name opts) default_managed_secret_name,
      co_namespace_reconciles =
        or_default (co_namespace_reconciles opts) default_max_concurrent_namespace_reconciles,
      co_service_account_reconciles =
        or_default (co_service_account_reconciles opts)
          default_max_concurrent_service_account_reconciles\<rparr>"

datatype setup_error =
    Nil_Manager | Nil_Setup_Config_Store | Nil_Observer | Nil_Resource_Events
  | Nil_Namespace_Syncer | Nil_Service_Account_Syncer
  | Bad_Controller_Namespace "string list" | Bad_Config_Map_Name "string list"
  | Bad_Managed_Secret_Name "string list"
  | Bad_Namespace_Reconciles int | Bad_Service_Account_Reconciles int
  | Registration_Failed string

definition validate_controller_options :: "parse_env \<Rightarrow> controller_options \<Rightarrow> setup_error option" where
  "validate_controller_options env opts =
     (if dns_label env (co_controller_namespace opts) \<noteq> []
      then Some (Bad_Controller_Namespace (dns_label env (co_controller_namespace opts)))
      else if dns_subdomain env (co_config_map_name opts) \<noteq> []
      then Some (Bad_Config_Map_Name (dns_subdomain env (co_config_map_name opts)))
      else if dns_subdomain env (co_managed_secret_name opts) \<noteq> []
      then Some (Bad_Managed_Secret_Name (dns_subdomain env (co_managed_secret_name opts)))
      else if co_namespace_reconciles opts < 1
      then Some (Bad_Namespace_Reconciles (co_namespace_reconciles opts))
      else if co_service_account_reconciles opts < 1
      then Some (Bad_Service_Account_Reconciles (co_service_account_reconciles opts))
      else None)"

section \<open>The cache\<close>

datatype object_kind = Kind_Config_Map | Kind_Namespace | Kind_Service_Account | Kind_Secret | Kind_Other

text \<open>The scope of a cached kind: its namespaces (none given: all) and the name it is limited to.\<close>

record cache_scope =
  sp_namespaces :: "string list"
  sp_name :: "string option"

record cache_options =
  ca_fail_on_missing_informer :: bool
  ca_strip_managed_fields :: bool
  ca_by_object :: "(object_kind, cache_scope) gomap"

definition new_cache_options :: "parse_env \<Rightarrow> controller_options \<Rightarrow> (setup_error, cache_options) result" where
  "new_cache_options env options0 =
     (let options = controller_defaults options0
      in case validate_controller_options env options of
           Some err \<Rightarrow> Inl err
         | None \<Rightarrow>
             Inr \<lparr>ca_fail_on_missing_informer = True, ca_strip_managed_fields = True,
                  ca_by_object =
                    [(Kind_Config_Map, \<lparr>sp_namespaces = [co_controller_namespace options],
                        sp_name = Some (co_config_map_name options)\<rparr>),
                     (Kind_Namespace, \<lparr>sp_namespaces = [], sp_name = None\<rparr>),
                     (Kind_Service_Account, \<lparr>sp_namespaces = [], sp_name = None\<rparr>),
                     (Kind_Secret, \<lparr>sp_namespaces = [],
                        sp_name = Some (co_managed_secret_name options)\<rparr>)]\<rparr>)"

text \<open>Whether an object of a kind, namespace and name is in a cache.\<close>

definition caches :: "cache_options \<Rightarrow> object_kind \<Rightarrow> string \<Rightarrow> string \<Rightarrow> bool" where
  "caches ca kind namespace name \<longleftrightarrow>
     (case gm_get (ca_by_object ca) kind of
        None \<Rightarrow> False
      | Some scope \<Rightarrow>
          (sp_namespaces scope = [] \<or> namespace \<in> set (sp_namespaces scope))
          \<and> (case sp_name scope of None \<Rightarrow> True | Some n \<Rightarrow> name = n))"

section \<open>Registration\<close>

text \<open>
  A watch carries what its handler or predicate was built with: the Secret name of the two map
  functions, the namespace and name that \<open>configMapPredicate\<close> admits.
\<close>

datatype trigger =
    Watch_Kind object_kind
  | Watch_Secret_To_Namespace string
  | Watch_Secret_To_Service_Accounts string
  | Watch_Config_Map string string
  | Channel_Namespaces
  | Channel_Service_Accounts

record registration =
  rg_name :: string
  rg_triggers :: "trigger list"
  rg_max_concurrent :: int
  rg_leader_election :: bool
  rg_warmup :: bool
  rg_priority_queue :: bool

text \<open>
  \<open>SetupWithManager\<close>: the collaborators that are not nil, and which registrations
  controller-runtime refuses (\<open>accepts\<close> is false on their name). The first refusal ends it.
\<close>

record collaborators =
  cl_manager :: bool
  cl_store :: bool
  cl_observer :: bool
  cl_resource_events :: bool
  cl_namespace_syncer :: bool
  cl_service_account_syncer :: bool

definition namespace_registration :: "controller_options \<Rightarrow> registration" where
  "namespace_registration options =
     \<lparr>rg_name = ''namespace_secrets'',
      rg_triggers = [Watch_Kind Kind_Namespace,
        Watch_Secret_To_Namespace (co_managed_secret_name options), Channel_Namespaces],
      rg_max_concurrent = co_namespace_reconciles options,
      rg_leader_election = True, rg_warmup = True, rg_priority_queue = True\<rparr>"

definition service_account_registration :: "controller_options \<Rightarrow> registration" where
  "service_account_registration options =
     \<lparr>rg_name = ''service_accounts'',
      rg_triggers = [Watch_Kind Kind_Service_Account,
        Watch_Secret_To_Service_Accounts (co_managed_secret_name options), Channel_Service_Accounts],
      rg_max_concurrent = co_service_account_reconciles options,
      rg_leader_election = True, rg_warmup = True, rg_priority_queue = True\<rparr>"

definition configuration_registration :: "controller_options \<Rightarrow> registration" where
  "configuration_registration options =
     \<lparr>rg_name = ''configuration'',
      rg_triggers = [Watch_Config_Map (co_controller_namespace options) (co_config_map_name options)],
      rg_max_concurrent = 1, rg_leader_election = False, rg_warmup = False,
      rg_priority_queue = False\<rparr>"

fun register_all ::
  "(string \<Rightarrow> bool) \<Rightarrow> registration list \<Rightarrow> (setup_error, registration list) result" where
  "register_all accepts [] = Inr []"
| "register_all accepts (r # rs) =
     (if \<not> accepts (rg_name r) then Inl (Registration_Failed (rg_name r))
      else bind_result (register_all accepts rs) (\<lambda>done. Inr (r # done)))"

definition setup_with_manager ::
  "parse_env \<Rightarrow> collaborators \<Rightarrow> (string \<Rightarrow> bool) \<Rightarrow> controller_options
     \<Rightarrow> (setup_error, registration list) result" where
  "setup_with_manager env cl accepts options0 =
     (if \<not> cl_manager cl then Inl Nil_Manager
      else if \<not> cl_store cl then Inl Nil_Setup_Config_Store
      else if \<not> cl_observer cl then Inl Nil_Observer
      else if \<not> cl_resource_events cl then Inl Nil_Resource_Events
      else if \<not> cl_namespace_syncer cl then Inl Nil_Namespace_Syncer
      else if \<not> cl_service_account_syncer cl then Inl Nil_Service_Account_Syncer
      else (let options = controller_defaults options0
        in case validate_controller_options env options of
             Some err \<Rightarrow> Inl err
           | None \<Rightarrow>
               register_all accepts
                 [namespace_registration options, service_account_registration options,
                  configuration_registration options]))"

text \<open>\<open>configMapPredicate\<close>\<close>

definition config_map_predicate :: "controller_options \<Rightarrow> string \<Rightarrow> string \<Rightarrow> bool" where
  "config_map_predicate options namespace name \<longleftrightarrow>
     namespace = co_controller_namespace options \<and> name = co_config_map_name options"

section \<open>From watched objects to requests\<close>

text \<open>A request is the namespace and name of the object to reconcile.\<close>

record reconcile_request =
  rr_namespace :: string
  rr_name :: string

definition request_for_namespace :: "string \<Rightarrow> reconcile_request list" where
  "request_for_namespace namespace =
     (if namespace = [] then [] else [\<lparr>rr_namespace = [], rr_name = namespace\<rparr>])"

text \<open>The object of an event: \<open>None\<close> when it is not a Secret.\<close>

definition map_managed_secret_to_namespace :: "string \<Rightarrow> secret option \<Rightarrow> reconcile_request list" where
  "map_managed_secret_to_namespace name object =
     (case object of
        None \<Rightarrow> []
      | Some s \<Rightarrow> if se_name s \<noteq> name then [] else request_for_namespace (se_namespace s))"

definition map_managed_secret_to_service_accounts ::
  "config_store \<Rightarrow> string \<Rightarrow> (kube_error, service_account list) result \<Rightarrow> secret option
     \<Rightarrow> reconcile_request list" where
  "map_managed_secret_to_service_accounts store name answer object =
     (case object of
        None \<Rightarrow> []
      | Some s \<Rightarrow>
          if se_name s \<noteq> name \<or> se_namespace s = [] then []
          else (case answer of
              Inl _ \<Rightarrow> []
            | Inr accounts \<Rightarrow>
                map (\<lambda>a. \<lparr>rr_namespace = sa_namespace a, rr_name = sa_name a\<rparr>)
                  (filter (\<lambda>a. store_matches_service_account store (sa_namespace a) (sa_name a))
                    accounts)))"

datatype secret_event =
    Secret_Created "secret option"
  | Secret_Updated "secret option" "secret option"
  | Secret_Deleted "secret option"
  | Secret_Generic "secret option"

definition service_account_secret_predicate :: "secret_event \<Rightarrow> bool" where
  "service_account_secret_predicate e =
     (case e of
        Secret_Created _ \<Rightarrow> True
      | Secret_Updated old new \<Rightarrow>
          old \<noteq> None \<and> new \<noteq> None \<and> is_managed old \<noteq> is_managed new
      | Secret_Deleted _ \<Rightarrow> False
      | Secret_Generic _ \<Rightarrow> False)"

section \<open>Priorities\<close>

definition live_namespace_create_priority :: int where "live_namespace_create_priority = 100"
definition live_service_account_create_priority :: int where
  "live_service_account_create_priority = 100"

text \<open>What a handler does with an event: its own enqueue, or controller-runtime's default one.\<close>

datatype enqueue =
    Enqueue_Priority int reconcile_request
  | Enqueue reconcile_request
  | Default_Handler

text \<open>
  \<open>object\<close> is \<open>None\<close> for an object of another kind or a nil one; \<open>priority_queue\<close> whether the
  queue is a priority queue.
\<close>

definition namespace_create :: "bool \<Rightarrow> bool \<Rightarrow> string option \<Rightarrow> enqueue" where
  "namespace_create priority_queue initial object =
     (case object of
        None \<Rightarrow> Default_Handler
      | Some name \<Rightarrow>
          if initial then Default_Handler
          else if priority_queue
          then Enqueue_Priority live_namespace_create_priority \<lparr>rr_namespace = [], rr_name = name\<rparr>
          else Enqueue \<lparr>rr_namespace = [], rr_name = name\<rparr>)"

datatype namespace_event =
    Namespace_Created bool "string option"
  | Namespace_Updated | Namespace_Deleted | Namespace_Generic

definition namespace_event_handler :: "bool \<Rightarrow> namespace_event \<Rightarrow> enqueue" where
  "namespace_event_handler priority_queue e =
     (case e of
        Namespace_Created initial object \<Rightarrow> namespace_create priority_queue initial object
      | Namespace_Updated \<Rightarrow> Default_Handler
      | Namespace_Deleted \<Rightarrow> Default_Handler
      | Namespace_Generic \<Rightarrow> Default_Handler)"

definition service_account_create :: "bool \<Rightarrow> bool \<Rightarrow> service_account option \<Rightarrow> enqueue" where
  "service_account_create priority_queue initial object =
     (case object of
        None \<Rightarrow> Default_Handler
      | Some a \<Rightarrow>
          (let rq = \<lparr>rr_namespace = sa_namespace a, rr_name = sa_name a\<rparr>
           in if initial then Default_Handler
              else if priority_queue
              then Enqueue_Priority live_service_account_create_priority rq
              else Enqueue rq))"

section \<open>Readiness\<close>

definition configuration_ready_check :: "config_store option \<Rightarrow> bool" where
  "configuration_ready_check store \<longleftrightarrow> (case store of None \<Rightarrow> False | Some s \<Rightarrow> store_loaded s)"

section \<open>Properties\<close>

text \<open>
  Registration succeeds exactly when every collaborator is given, the names pass their
  validation, both bounds are at least one (zero taking the default of eight) and
  controller-runtime accepts the three controllers; the two that write to the cluster then
  run on the leader only, with the configured bounds, and the one that loads the configuration
  runs on every replica.
\<close>

lemma setup_with_manager_spec:
  fixes cl :: collaborators
  shows "setup_with_manager env cl accepts options0 = Inr regs \<longleftrightarrow>
     (cl_manager cl \<and> cl_store cl \<and> cl_observer cl \<and> cl_resource_events cl
      \<and> cl_namespace_syncer cl \<and> cl_service_account_syncer cl
      \<and> dns_label env (co_controller_namespace (controller_defaults options0)) = []
      \<and> dns_subdomain env (co_config_map_name (controller_defaults options0)) = []
      \<and> dns_subdomain env (co_managed_secret_name (controller_defaults options0)) = []
      \<and> 0 \<le> co_namespace_reconciles options0 \<and> 0 \<le> co_service_account_reconciles options0
      \<and> accepts ''namespace_secrets'' \<and> accepts ''service_accounts'' \<and> accepts ''configuration''
      \<and> map rg_name regs = [''namespace_secrets'', ''service_accounts'', ''configuration'']
      \<and> map rg_leader_election regs = [True, True, False]
      \<and> map rg_max_concurrent regs =
          [if co_namespace_reconciles options0 = 0 then 8 else co_namespace_reconciles options0,
           if co_service_account_reconciles options0 = 0 then 8
           else co_service_account_reconciles options0, 1]
      \<and> regs = [namespace_registration (controller_defaults options0),
           service_account_registration (controller_defaults options0),
           configuration_registration (controller_defaults options0)])"
  by (auto simp: setup_with_manager_def validate_controller_options_def Let_def
      namespace_registration_def service_account_registration_def configuration_registration_def
      controller_defaults_def or_default_def default_max_concurrent_namespace_reconciles_def
      default_max_concurrent_service_account_reconciles_def default_workers_def
      split: option.splits if_splits)

text \<open>
  The cache holds exactly the objects the controllers read: the one configuration
  ConfigMap, every Namespace, every ServiceAccount, and of the Secrets those with the managed
  name, whoever owns them, in every namespace; no other Secret and no other kind.
\<close>

lemma cache_scope_spec:
  assumes "new_cache_options env options0 = Inr ca"
  shows "caches ca kind namespace name \<longleftrightarrow>
     (case kind of
        Kind_Config_Map \<Rightarrow> config_map_predicate (controller_defaults options0) namespace name
      | Kind_Namespace \<Rightarrow> True
      | Kind_Service_Account \<Rightarrow> True
      | Kind_Secret \<Rightarrow> name = co_managed_secret_name (controller_defaults options0)
      | Kind_Other \<Rightarrow> False)"
  using assms
  by (auto simp: new_cache_options_def caches_def config_map_predicate_def Let_def
      split: option.splits object_kind.splits)

text \<open>
  An event of a Secret with the managed name requests the reconciliation of exactly its own
  namespace, and of the ServiceAccounts that were listed there and that the current
  configuration selects; the latter only when the Secret appears or changes between being
  the controller's and not being so.
\<close>

lemma secret_event_requests:
  "map_managed_secret_to_namespace name (Some s) =
     (if se_name s = name \<and> se_namespace s \<noteq> [] then [\<lparr>rr_namespace = [], rr_name = se_namespace s\<rparr>]
      else [])
   \<and> set (map_managed_secret_to_service_accounts store name (Inr accounts) (Some s)) =
     {\<lparr>rr_namespace = sa_namespace a, rr_name = sa_name a\<rparr> | a.
        a \<in> set accounts \<and> se_name s = name \<and> se_namespace s \<noteq> []
        \<and> (\<exists>c. st_current store = Some c \<and> matches_namespace c (sa_namespace a)
            \<and> selector_matches (cs_accounts c) (sa_name a))}
   \<and> service_account_secret_predicate (Secret_Created (Some s))
   \<and> (service_account_secret_predicate (Secret_Updated (Some old) (Some s)) \<longleftrightarrow>
        is_managed (Some old) \<noteq> is_managed (Some s))"
  by (auto simp: map_managed_secret_to_namespace_def map_managed_secret_to_service_accounts_def
      request_for_namespace_def store_matches_service_account_def service_account_secret_predicate_def
      split: option.splits)

lemma cache_scope_spec_example:
  "\<exists>ca. new_cache_options sample_env
      \<lparr>co_controller_namespace = ''sys'', co_config_map_name = ''conf'', co_managed_secret_name = ''pull'',
       co_namespace_reconciles = 0, co_service_account_reconciles = 0\<rparr> = Inr ca
    \<and> caches ca Kind_Secret ''prod'' ''pull'' \<and> \<not> caches ca Kind_Secret ''prod'' ''other''"
proof -
  let ?opts = "\<lparr>co_controller_namespace = ''sys'', co_config_map_name = ''conf'',
    co_managed_secret_name = ''pull'', co_namespace_reconciles = 0, co_service_account_reconciles = 0\<rparr>"
  have "validate_controller_options sample_env (controller_defaults ?opts) = None" by code_simp
  then obtain ca where ca: "new_cache_options sample_env ?opts = Inr ca"
    by (simp add: new_cache_options_def Let_def)
  have "co_managed_secret_name (controller_defaults ?opts) = ''pull''" by code_simp
  with cache_scope_spec [OF ca, of Kind_Secret "''prod''"] ca show ?thesis by auto
qed

end
