(* ===== verification/KubeRuntime.thy ===== *)
theory KubeRuntime
  imports ConfigStore
begin

text \<open>
  \<open>internal/kubeclient\<close>: the resolved client and worker settings, the process runtime
  that applies ConfigMap overrides to them, and its start from the ConfigMap. Of the token
  bucket of \<open>golang.org/x/time/rate\<close> the code uses the limit and the burst it was last
  given; they are the state of the model's limiter.
\<close>

record settings =
  se_qps :: float64
  se_burst :: int
  se_namespace_workers :: int
  se_service_account_workers :: int

datatype settings_error = QPSInvalid | CountsNotPositive

definition resolve :: "settings \<Rightarrow> runtime_configuration \<Rightarrow> (settings_error, settings) result" where
  "resolve s0 overrides =
     (let s = (if f_eq (rt_qps overrides) f_zero then s0 else s0\<lparr>se_qps := rt_qps overrides\<rparr>);
          s = (if rt_burst overrides \<noteq> 0 then s\<lparr>se_burst := rt_burst overrides\<rparr> else s);
          s = (if rt_workers overrides \<noteq> 0
               then s\<lparr>se_namespace_workers := rt_workers overrides,
                      se_service_account_workers := rt_workers overrides\<rparr>
               else s)
      in if \<not> validate_qps (se_qps s) then Inl QPSInvalid
         else if se_burst s < 1 \<or> se_namespace_workers s < 1 \<or> se_service_account_workers s < 1
           then Inl CountsNotPositive
         else Inr s)"

record limiter =
  bucket_limit :: float64
  bucket_burst :: int

definition new_limiter :: "float64 \<Rightarrow> int \<Rightarrow> limiter" where
  "new_limiter qps burst = \<lparr>bucket_limit = qps, bucket_burst = burst\<rparr>"

definition limiter_set :: "limiter \<Rightarrow> float64 \<Rightarrow> int \<Rightarrow> limiter" where
  "limiter_set l qps burst =
     (if f_eq (bucket_limit l) qps \<and> bucket_burst l = burst then l
      else l\<lparr>bucket_limit := qps, bucket_burst := burst\<rparr>)"

record kube_runtime =
  kr_fallback :: settings
  kr_current :: settings
  kr_desired :: settings
  kr_limiter :: limiter

definition new_runtime ::
  "settings \<Rightarrow> runtime_configuration \<Rightarrow> (settings_error, kube_runtime) result" where
  "new_runtime fallback initial =
     bind_result (resolve fallback empty_runtime) (\<lambda>_.
     bind_result (resolve fallback initial) (\<lambda>resolved.
       Inr \<lparr>kr_fallback = fallback, kr_current = resolved, kr_desired = resolved,
            kr_limiter = new_limiter (se_qps resolved) (se_burst resolved)\<rparr>))"

text \<open>The log lines of \<open>Apply\<close>; the worker message says whether a restart is required.\<close>

datatype runtime_log =
    RateLimitUpdated float64 int float64 int
  | WorkersChanged bool

definition runtime_apply ::
  "kube_runtime \<Rightarrow> runtime_configuration
     \<Rightarrow> (settings_error, kube_runtime \<times> runtime_log list) result" where
  "runtime_apply r overrides =
     bind_result (resolve (kr_fallback r) overrides) (\<lambda>new.
       let current = kr_current r; desired = kr_desired r;
           rate_change = \<not> f_eq (se_qps new) (se_qps current) \<or> se_burst new \<noteq> se_burst current;
           r1 = (if rate_change
             then r\<lparr>kr_limiter := limiter_set (kr_limiter r) (se_qps new) (se_burst new),
                    kr_current := current\<lparr>se_qps := se_qps new, se_burst := se_burst new\<rparr>\<rparr>
             else r);
           worker_change = se_namespace_workers new \<noteq> se_namespace_workers desired
             \<or> se_service_account_workers new \<noteq> se_service_account_workers desired;
           restart = se_namespace_workers new \<noteq> se_namespace_workers current
             \<or> se_service_account_workers new \<noteq> se_service_account_workers current
       in Inr (r1\<lparr>kr_desired := new\<rparr>,
            (if rate_change
             then [RateLimitUpdated (se_qps current) (se_burst current) (se_qps new) (se_burst new)]
             else []) @
            (if worker_change then [WorkersChanged restart] else [])))"

section \<open>Start-up\<close>

text \<open>
  \<open>Bootstrap\<close> reads the ConfigMap once: \<open>config_map\<close> is \<open>None\<close> when it does
  not exist. Its other read errors and the creation of the client end the start.
\<close>

datatype bootstrap_error = ClientFailed | ReadFailed | SettingsFailed settings_error

datatype config_map_read = CMFound "(string, string) gomap" | CMNotFound | CMError

definition runtime_from_config_map ::
  "parse_env \<Rightarrow> (string, string) gomap option \<Rightarrow> settings
     \<Rightarrow> (settings_error, kube_runtime) result" where
  "runtime_from_config_map env cm fallback =
     (let overrides =
        (case cm of
           None \<Rightarrow> empty_runtime
         | Some data \<Rightarrow>
             (case parse env data of Inr snapshot \<Rightarrow> cs_runtime snapshot | Inl _ \<Rightarrow> empty_runtime))
      in new_runtime fallback overrides)"

definition bootstrap ::
  "parse_env \<Rightarrow> bool \<Rightarrow> config_map_read \<Rightarrow> settings
     \<Rightarrow> (bootstrap_error, kube_runtime) result" where
  "bootstrap env client_ok cm fallback =
     (if \<not> client_ok then Inl ClientFailed
      else case cm of
        CMError \<Rightarrow> Inl ReadFailed
      | CMNotFound \<Rightarrow>
          (case runtime_from_config_map env None fallback of
             Inl e \<Rightarrow> Inl (SettingsFailed e) | Inr r \<Rightarrow> Inr r)
      | CMFound data \<Rightarrow>
          (case runtime_from_config_map env (Some data) fallback of
             Inl e \<Rightarrow> Inl (SettingsFailed e) | Inr r \<Rightarrow> Inr r))"

section \<open>Invariant\<close>

definition settings_wf :: "settings \<Rightarrow> bool" where
  "settings_wf s \<longleftrightarrow> validate_qps (se_qps s) \<and> 1 \<le> se_burst s \<and> 1 \<le> se_namespace_workers s
     \<and> 1 \<le> se_service_account_workers s"

lemma f_eq_zero [simp]: "f_eq q f_zero \<longleftrightarrow> q = f_zero"
  by (cases q) (auto simp: f_zero_def)

lemma f_eq_valid: "validate_qps q \<Longrightarrow> f_eq p q \<longleftrightarrow> p = q"
  by (cases p) (auto simp: validate_qps_iff)

text \<open>The settings the overrides ask for, before validation.\<close>

definition overridden :: "settings \<Rightarrow> runtime_configuration \<Rightarrow> settings" where
  "overridden s overrides =
     \<lparr>se_qps = (if rt_qps overrides = f_zero then se_qps s else rt_qps overrides),
      se_burst = (if rt_burst overrides = 0 then se_burst s else rt_burst overrides),
      se_namespace_workers =
        (if rt_workers overrides = 0 then se_namespace_workers s else rt_workers overrides),
      se_service_account_workers =
        (if rt_workers overrides = 0 then se_service_account_workers s
         else rt_workers overrides)\<rparr>"

lemma resolve_Inr:
  "resolve s overrides = Inr s' \<longleftrightarrow> s' = overridden s overrides \<and> settings_wf s'"
  by (cases s) (auto simp: resolve_def Let_def settings_wf_def overridden_def)

text \<open>Parsed overrides are never refused once the fallback is valid.\<close>

lemma overridden_wf: "settings_wf s \<Longrightarrow> runtime_wf overrides \<Longrightarrow> settings_wf (overridden s overrides)"
  by (auto simp: settings_wf_def runtime_wf_def overridden_def)

lemma overridden_empty [simp]: "overridden s empty_runtime = s"
  by (simp add: overridden_def empty_runtime_def)

text \<open>The limiter carries the current rate, the rates agree, and the settings are valid.\<close>

definition kube_runtime_wf :: "kube_runtime \<Rightarrow> bool" where
  "kube_runtime_wf r \<longleftrightarrow>
     settings_wf (kr_fallback r) \<and> settings_wf (kr_current r) \<and> settings_wf (kr_desired r) \<and>
     se_qps (kr_current r) = se_qps (kr_desired r) \<and>
     se_burst (kr_current r) = se_burst (kr_desired r) \<and>
     kr_limiter r = \<lparr>bucket_limit = se_qps (kr_current r), bucket_burst = se_burst (kr_current r)\<rparr>"

lemma new_runtime_wf: "new_runtime fallback initial = Inr r \<Longrightarrow> kube_runtime_wf r"
  by (auto simp: new_runtime_def resolve_Inr kube_runtime_wf_def new_limiter_def)

lemma limiter_set_eq:
  "validate_qps q \<Longrightarrow> limiter_set l q b = \<lparr>bucket_limit = q, bucket_burst = b\<rparr>"
  by (cases l) (auto simp: limiter_set_def f_eq_valid)

text \<open>The outcome of \<open>Apply\<close>, for the property below and for the configuration controller.\<close>

lemma runtime_apply_total:
  assumes "kube_runtime_wf r" "runtime_wf overrides"
  shows "\<exists>r' log. runtime_apply r overrides = Inr (r', log) \<and> kube_runtime_wf r'
    \<and> kr_fallback r' = kr_fallback r \<and> kr_desired r' = overridden (kr_fallback r) overrides
    \<and> resolve (kr_fallback r) overrides = Inr (kr_desired r')
    \<and> se_namespace_workers (kr_current r') = se_namespace_workers (kr_current r)
    \<and> se_service_account_workers (kr_current r') = se_service_account_workers (kr_current r)
    \<and> (WorkersChanged True \<in> set log \<longleftrightarrow>
        (se_namespace_workers (kr_desired r'), se_service_account_workers (kr_desired r'))
          \<notin> {(se_namespace_workers (kr_desired r), se_service_account_workers (kr_desired r)),
             (se_namespace_workers (kr_current r), se_service_account_workers (kr_current r))})"
proof -
  define new where "new = overridden (kr_fallback r) overrides"
  have wf: "settings_wf new"
    unfolding new_def by (rule overridden_wf) (use assms in \<open>simp_all add: kube_runtime_wf_def\<close>)
  then have new: "resolve (kr_fallback r) overrides = Inr new"
    by (simp add: resolve_Inr new_def)
  have eq: "f_eq (se_qps new) p \<longleftrightarrow> p = se_qps new" for p
    using wf by (cases p) (auto simp: settings_wf_def validate_qps_iff)
  have set: "limiter_set l (se_qps new) b = \<lparr>bucket_limit = se_qps new, bucket_burst = b\<rparr>" for l b
    using wf by (simp add: settings_wf_def limiter_set_eq)
  show ?thesis
    using assms(1) wf
    by (auto simp: runtime_apply_def Let_def new eq set kube_runtime_wf_def settings_wf_def
        new_def [symmetric])
qed


definition sample_settings :: settings where
  "sample_settings = \<lparr>se_qps = default_kube_api_qps, se_burst = default_kube_api_burst,
     se_namespace_workers = default_workers, se_service_account_workers = default_workers\<rparr>"

definition sample_kube_runtime :: kube_runtime where
  "sample_kube_runtime = \<lparr>kr_fallback = sample_settings, kr_current = sample_settings,
     kr_desired = sample_settings,
     kr_limiter = new_limiter (se_qps sample_settings) (se_burst sample_settings)\<rparr>"

lemma sample_kube_runtime_wf: "kube_runtime_wf sample_kube_runtime"
  by (simp add: kube_runtime_wf_def sample_kube_runtime_def sample_settings_def settings_wf_def
      validate_qps_iff default_kube_api_qps_def default_kube_api_burst_def default_workers_def
      new_limiter_def half_min_float32_def max_float32_def)


end
