(* ===== verification/ConfigController.thy ===== *)
theory ConfigController
  imports ControllerSetup KubeRuntime
begin

text \<open>
  \<open>configuration_reconciler.go\<close> and \<open>resource_events.go\<close>: the controller that loads the
  configuration on every replica, and the channels on which it asks for the reconciliation of
  every namespace and every ServiceAccount. A channel is the list of what was sent; what the
  API server lists and where the context ends a send are arguments.
\<close>

section \<open>Fan-out\<close>

record event_publisher =
  ep_namespace_events :: "string list"
  ep_service_account_events :: "(string \<times> string) list"

definition new_event_publisher :: "bool \<Rightarrow> event_publisher option" where
  "new_event_publisher reader =
     (if \<not> reader then None
      else Some \<lparr>ep_namespace_events = [], ep_service_account_events = []\<rparr>)"

text \<open>
  Why a read or a send failed; \<open>Read_Canceled\<close> is an error that is \<open>context.Canceled\<close> while the
  context has ended.
\<close>

datatype read_error = Read_Not_Found | Read_Canceled | Read_Failed string

text \<open>
  The loop of sends: the context ends with \<open>why\<close> when \<open>n\<close> events have been sent, if \<open>stop\<close> is
  \<open>Some (n, why)\<close>.
\<close>

fun send_all :: "(nat \<times> read_error) option \<Rightarrow> 'a list \<Rightarrow> 'a list \<Rightarrow> 'a list \<times> read_error option" where
  "send_all stop channel [] = (channel, None)"
| "send_all stop channel (x # xs) =
     (case stop of
        None \<Rightarrow> send_all None (channel @ [x]) xs
      | Some (0, why) \<Rightarrow> (channel, Some why)
      | Some (Suc n, why) \<Rightarrow> send_all (Some (n, why)) (channel @ [x]) xs)"

type_synonym 'a fanout = "(read_error, 'a list) result \<times> (nat \<times> read_error) option"

definition publish_all_namespaces ::
  "string fanout \<Rightarrow> event_publisher \<Rightarrow> event_publisher \<times> read_error option" where
  "publish_all_namespaces answer p =
     (case fst answer of
        Inl err \<Rightarrow> (p, Some err)
      | Inr names \<Rightarrow>
          (case send_all (snd answer) (ep_namespace_events p) names of
             (channel, err) \<Rightarrow> (p\<lparr>ep_namespace_events := channel\<rparr>, err)))"

definition publish_all_service_accounts ::
  "(string \<times> string) fanout \<Rightarrow> event_publisher \<Rightarrow> event_publisher \<times> read_error option" where
  "publish_all_service_accounts answer p =
     (case fst answer of
        Inl err \<Rightarrow> (p, Some err)
      | Inr accounts \<Rightarrow>
          (case send_all (snd answer) (ep_service_account_events p) accounts of
             (channel, err) \<Rightarrow> (p\<lparr>ep_service_account_events := channel\<rparr>, err)))"

lemma send_all_None: "send_all stop channel xs = (channel', None) \<Longrightarrow> channel' = channel @ xs"
  by (induction stop channel xs rule: send_all.induct) (auto split: option.splits prod.splits nat.splits)

lemma send_all_prefix:
  "send_all stop channel xs = (channel', err) \<Longrightarrow> \<exists>n. channel' = channel @ take n xs"
proof (induction stop channel xs rule: send_all.induct)
  case (2 stop channel x xs)
  show ?case
  proof (cases stop)
    case None
    then obtain n where "channel' = (channel @ [x]) @ take n xs" using 2 by auto
    then show ?thesis by (intro exI [of _ "Suc n"]) simp
  next
    case (Some p)
    obtain k why where p: "p = (k, why)" by (cases p)
    show ?thesis
    proof (cases k)
      case 0
      then show ?thesis using 2(3) Some p by (intro exI [of _ 0]) simp
    next
      case (Suc m)
      then obtain n where "channel' = (channel @ [x]) @ take n xs" using 2(2,3) Some p by fastforce
      then show ?thesis by (intro exI [of _ "Suc n"]) simp
    qed
  qed
qed auto

section \<open>The reconciler\<close>

record config_map =
  cm_uid :: string
  cm_resource_version :: string
  cm_data :: "(string, string) gomap"

record config_reconciler =
  cf_store :: config_store
  cf_publisher :: event_publisher
  cf_options :: controller_options
  cf_runtime :: "kube_runtime option"
  cf_recorder :: bool
  cf_last_rejection :: string
  cf_pending_fanout :: bool

text \<open>
  The observer's notification, the warning event on the ConfigMap, the log lines, and the end
  of a fan-out.
\<close>

datatype config_action =
    Notify_Observer
  | Log_Missing
  | Log_Invalid
  | Warn_Invalid_Configuration config_map
  | Log_Applied "64 word" nat
  | Log_Unchanged "64 word"
  | Fanout_Done

datatype config_error =
    Get_Config_Map_Failed read_error
  | Publish_Namespaces_Failed read_error
  | Publish_Service_Accounts_Failed read_error

definition unless_canceled :: "(read_error \<Rightarrow> config_error) \<Rightarrow> read_error \<Rightarrow> config_error option" where
  "unless_canceled wrap err = (if err = Read_Canceled then None else Some (wrap err))"

text \<open>\<open>RuntimeUpdater.Apply\<close>, when there is an updater; \<open>None\<close> is its error.\<close>

definition update_runtime ::
  "kube_runtime option \<Rightarrow> runtime_configuration \<Rightarrow> kube_runtime option option" where
  "update_runtime runtime overrides =
     (case runtime of
        None \<Rightarrow> Some None
      | Some r \<Rightarrow>
          (case runtime_apply r overrides of Inl _ \<Rightarrow> None | Inr (r', logs) \<Rightarrow> Some (Some r')))"

definition reject_missing :: "config_reconciler \<Rightarrow> config_reconciler \<times> config_action list" where
  "reject_missing r =
     (let r1 = r\<lparr>cf_store := store_mark_invalid (cf_store r)\<rparr>
      in if cf_last_rejection r1 \<noteq> ''missing''
         then (r1\<lparr>cf_last_rejection := ''missing''\<rparr>, [Log_Missing])
         else (r1, []))"

definition reject_invalid :: "config_map \<Rightarrow> config_reconciler \<Rightarrow> config_reconciler \<times> config_action list" where
  "reject_invalid cm r =
     (let r1 = r\<lparr>cf_store := store_mark_invalid (cf_store r)\<rparr>;
          rejection = cm_uid cm @ ''/'' @ cm_resource_version cm
      in if cf_last_rejection r1 \<noteq> rejection
         then (r1\<lparr>cf_last_rejection := rejection\<rparr>,
               Log_Invalid # (if cf_recorder r1 then [Warn_Invalid_Configuration cm] else []))
         else (r1, []))"

definition accept_configuration ::
  "configuration_snapshot \<Rightarrow> config_reconciler \<Rightarrow> config_reconciler \<times> config_action list" where
  "accept_configuration candidate r =
     (case store_apply (cf_store r) candidate of
        (store, result) \<Rightarrow>
          (r\<lparr>cf_last_rejection := [], cf_store := store,
             cf_pending_fanout := cf_pending_fanout r \<or> ar_business_changed result\<rparr>,
           (if ar_business_changed result then [Notify_Observer] else []) @
           (if ar_changed result
            then [Log_Applied (cs_generation (ar_current result)) (length (cs_registries (ar_current result)))]
            else [Log_Unchanged (cs_generation (ar_current result))])))"

definition fan_out ::
  "string fanout \<Rightarrow> (string \<times> string) fanout \<Rightarrow> config_reconciler
     \<Rightarrow> config_reconciler \<times> config_action list \<times> config_error option" where
  "fan_out namespaces accounts r =
     (if \<not> cf_pending_fanout r then (r, [], None)
      else (case publish_all_namespaces namespaces (cf_publisher r) of
          (p, Some err) \<Rightarrow>
            (r\<lparr>cf_publisher := p\<rparr>, [], unless_canceled Publish_Namespaces_Failed err)
        | (p, None) \<Rightarrow>
            (case publish_all_service_accounts accounts p of
               (p', Some err) \<Rightarrow>
                 (r\<lparr>cf_publisher := p'\<rparr>, [], unless_canceled Publish_Service_Accounts_Failed err)
             | (p', None) \<Rightarrow>
                 (r\<lparr>cf_publisher := p', cf_pending_fanout := False\<rparr>, [Fanout_Done], None))))"

definition reconcile_config ::
  "parse_env \<Rightarrow> reconcile_request \<Rightarrow> (read_error, config_map) result \<Rightarrow> string fanout
     \<Rightarrow> (string \<times> string) fanout \<Rightarrow> config_reconciler
     \<Rightarrow> config_reconciler \<times> config_action list \<times> config_error option" where
  "reconcile_config env rq answer namespaces accounts r =
     (if rr_namespace rq \<noteq> co_controller_namespace (cf_options r)
         \<or> rr_name rq \<noteq> co_config_map_name (cf_options r)
      then (r, [], None)
      else (case answer of
          Inl err \<Rightarrow>
            if err = Read_Canceled then (r, [], None)
            else if err = Read_Not_Found then (case reject_missing r of (r', acts) \<Rightarrow> (r', acts, None))
            else (r, [], Some (Get_Config_Map_Failed err))
        | Inr cm \<Rightarrow>
            (case parse env (cm_data cm) of
               Inl _ \<Rightarrow> (case reject_invalid cm r of (r', acts) \<Rightarrow> (r', acts, None))
             | Inr candidate \<Rightarrow>
                 (case update_runtime (cf_runtime r) (cs_runtime candidate) of
                    None \<Rightarrow> (case reject_invalid cm r of (r', acts) \<Rightarrow> (r', acts, None))
                  | Some runtime \<Rightarrow>
                      (case accept_configuration candidate (r\<lparr>cf_runtime := runtime\<rparr>) of
                         (r1, acts) \<Rightarrow>
                           (case fan_out namespaces accounts r1 of
                              (r2, acts2, err) \<Rightarrow> (r2, acts @ acts2, err)))))))"

section \<open>A run of the controller\<close>

text \<open>
  One reconciliation: the request, the answer to its read of the ConfigMap, and the answers of
  the two fan-outs, used only if they are reached.
\<close>

record config_round =
  rd_request :: reconcile_request
  rd_answer :: "(read_error, config_map) result"
  rd_namespaces :: "string fanout"
  rd_accounts :: "(string \<times> string) fanout"

definition config_turn ::
  "parse_env \<Rightarrow> config_round \<Rightarrow> config_reconciler \<times> config_action list
     \<Rightarrow> config_reconciler \<times> config_action list" where
  "config_turn env rd st =
     (case st of (r, acts) \<Rightarrow>
        (case reconcile_config env (rd_request rd) (rd_answer rd) (rd_namespaces rd) (rd_accounts rd) r of
           (r', new, _) \<Rightarrow> (r', acts @ new)))"

definition config_run ::
  "parse_env \<Rightarrow> config_round list \<Rightarrow> config_reconciler \<Rightarrow> config_reconciler \<times> config_action list" where
  "config_run env rounds r = fold (config_turn env) rounds (r, [])"

text \<open>Whether a notified change still waits for a complete fan-out.\<close>

definition owe :: "config_action \<Rightarrow> bool \<Rightarrow> bool" where
  "owe act b = (case act of Notify_Observer \<Rightarrow> True | Fanout_Done \<Rightarrow> False | _ \<Rightarrow> b)"

definition owes :: "bool \<Rightarrow> config_action list \<Rightarrow> bool" where
  "owes b acts = fold owe acts b"

lemma owes_append [simp]: "owes b (xs @ ys) = owes (owes b xs) ys"
  by (simp add: owes_def)

lemma owes_simps [simp]:
  "owes b [] = b"
  "owes b (act # acts) = owes (owe act b) acts"
  by (simp_all add: owes_def)

text \<open>What a reconciliation of the ConfigMap shows the store; \<open>[]\<close> if it was not read.\<close>

definition observation ::
  "parse_env \<Rightarrow> controller_options \<Rightarrow> config_round \<Rightarrow> configuration_snapshot option list" where
  "observation env options rd =
     (if rr_namespace (rd_request rd) \<noteq> co_controller_namespace options
         \<or> rr_name (rd_request rd) \<noteq> co_config_map_name options then []
      else (case rd_answer rd of
          Inl err \<Rightarrow> if err = Read_Not_Found then [None] else []
        | Inr cm \<Rightarrow>
            (case parse env (cm_data cm) of Inl _ \<Rightarrow> [None] | Inr candidate \<Rightarrow> [Some candidate])))"

section \<open>One reconciliation\<close>

lemma fan_out_keeps:
  assumes "fan_out namespaces accounts r = (r', acts, err)"
  shows "cf_store r' = cf_store r" "cf_options r' = cf_options r" "cf_runtime r' = cf_runtime r"
    "cf_last_rejection r' = cf_last_rejection r"
    "cf_pending_fanout r' = owes (cf_pending_fanout r) acts"
  using assms
  by (auto simp: fan_out_def owe_def split: if_splits prod.splits option.splits)

lemma accept_keeps:
  assumes "accept_configuration candidate r = (r', acts)"
  shows "cf_store r' = fst (store_apply (cf_store r) candidate)" "cf_options r' = cf_options r"
    "cf_runtime r' = cf_runtime r" "cf_publisher r' = cf_publisher r"
    "cf_pending_fanout r' = owes (cf_pending_fanout r) acts"
    "Fanout_Done \<notin> set acts"
  using assms
  by (auto simp: accept_configuration_def owe_def split: if_splits prod.splits)

lemma reject_keeps:
  assumes "reject_missing r = (r', acts) \<or> reject_invalid cm r = (r', acts)"
  shows "cf_store r' = store_mark_invalid (cf_store r)" "cf_options r' = cf_options r"
    "cf_runtime r' = cf_runtime r" "cf_publisher r' = cf_publisher r"
    "cf_pending_fanout r' = cf_pending_fanout r" "owes b acts = b" "Fanout_Done \<notin> set acts"
  using assms
  by (auto simp: reject_missing_def reject_invalid_def Let_def owe_def split: if_splits)

text \<open>A rejection is reported once.\<close>

lemma reject_missing_again: "reject_missing r = (r', acts) \<Longrightarrow> reject_missing r' = (r', [])"
  by (cases r) (auto simp: reject_missing_def Let_def store_mark_invalid_def split: if_splits)

lemma reject_invalid_again: "reject_invalid cm r = (r', acts) \<Longrightarrow> reject_invalid cm r' = (r', [])"
  by (cases r) (auto simp: reject_invalid_def Let_def store_mark_invalid_def split: if_splits)

text \<open>Every outcome of \<open>Reconcile\<close>, for the proofs by cases.\<close>

lemma reconcile_config_cases:
  assumes "reconcile_config env rq answer namespaces accounts r = (r', acts, err)"
  obtains (Ignored) "r' = r" "acts = []"
      "rr_namespace rq \<noteq> co_controller_namespace (cf_options r) \<or> rr_name rq \<noteq> co_config_map_name (cf_options r)
       \<or> (\<exists>e. answer = Inl e \<and> e \<noteq> Read_Not_Found)"
    | (Missing) "rr_namespace rq = co_controller_namespace (cf_options r)"
      "rr_name rq = co_config_map_name (cf_options r)" "answer = Inl Read_Not_Found"
      "reject_missing r = (r', acts)" "err = None"
    | (Invalid) cm where "rr_namespace rq = co_controller_namespace (cf_options r)"
      "rr_name rq = co_config_map_name (cf_options r)" "answer = Inr cm"
      "reject_invalid cm r = (r', acts)" "err = None"
      "\<And>c. parse env (cm_data cm) = Inr c \<Longrightarrow> update_runtime (cf_runtime r) (cs_runtime c) = None"
    | (Valid) cm c runtime r1 acts1 acts2 where "rr_namespace rq = co_controller_namespace (cf_options r)"
      "rr_name rq = co_config_map_name (cf_options r)" "answer = Inr cm"
      "parse env (cm_data cm) = Inr c"
      "update_runtime (cf_runtime r) (cs_runtime c) = Some runtime"
      "accept_configuration c (r\<lparr>cf_runtime := runtime\<rparr>) = (r1, acts1)"
      "fan_out namespaces accounts r1 = (r', acts2, err)" "acts = acts1 @ acts2"
  using assms unfolding reconcile_config_def
  by (auto split: if_splits sum.splits option.splits prod.splits)

section \<open>The runtime of a run\<close>

definition runtime_ok :: "config_reconciler \<Rightarrow> bool" where
  "runtime_ok r \<longleftrightarrow> (case cf_runtime r of None \<Rightarrow> True | Some k \<Rightarrow> kube_runtime_wf k)"

lemma parse_runtime_part: "parse env data = Inr c \<Longrightarrow> runtime_wf (cs_runtime c)"
  using parse_wf [of env data c] by (simp add: snapshot_wf_def)

text \<open>The runtime after a valid configuration: parsed overrides are never refused.\<close>

lemma update_runtime_total:
  assumes "runtime_ok r" "parse env data = Inr c"
  obtains rt where "update_runtime (cf_runtime r) (cs_runtime c) = Some rt"
    "case (cf_runtime r, rt) of
       (None, rt) \<Rightarrow> rt = None
     | (Some k, Some k') \<Rightarrow> kube_runtime_wf k' \<and> kr_fallback k' = kr_fallback k
         \<and> kr_desired k' = overridden (kr_fallback k) (cs_runtime c)
     | (Some k, None) \<Rightarrow> False"
proof (cases "cf_runtime r")
  case None
  then show ?thesis using that [of None] by (simp add: update_runtime_def)
next
  case (Some k)
  then have "kube_runtime_wf k" using assms(1) by (simp add: runtime_ok_def)
  from runtime_apply_total [OF this parse_runtime_part [OF assms(2)]] obtain k' log
    where "runtime_apply k (cs_runtime c) = Inr (k', log)" "kube_runtime_wf k'"
      "kr_fallback k' = kr_fallback k" "kr_desired k' = overridden (kr_fallback k) (cs_runtime c)"
    by blast
  then show ?thesis using that [of "Some k'"] Some by (simp add: update_runtime_def)
qed

text \<open>
  One reconciliation as the environment sees it: the store makes the observation, the pending
  flag is what the actions owe, and the desired settings are the fallback with the overrides
  of the observed configuration.
\<close>

definition config_step_ok ::
  "parse_env \<Rightarrow> config_round \<Rightarrow> config_reconciler \<Rightarrow> config_reconciler \<Rightarrow> config_action list \<Rightarrow> bool" where
  "config_step_ok env rd r r' acts \<longleftrightarrow>
     cf_store r' = fold store_observe (observation env (cf_options r) rd) (cf_store r)
     \<and> cf_options r' = cf_options r
     \<and> cf_pending_fanout r' = owes (cf_pending_fanout r) acts
     \<and> runtime_ok r'
     \<and> (\<forall>k. cf_runtime r = Some k \<longrightarrow> (\<exists>k'. cf_runtime r' = Some k' \<and> kr_fallback k' = kr_fallback k
         \<and> kr_desired k' = (case observation env (cf_options r) rd of
              [Some c] \<Rightarrow> overridden (kr_fallback k) (cs_runtime c) | _ \<Rightarrow> kr_desired k)))"

lemma reconcile_config_step:
  assumes run: "reconcile_config env (rd_request rd) (rd_answer rd) namespaces accounts r = (r', acts, err)"
    and ok: "runtime_ok r"
  shows "config_step_ok env rd r r' acts"
proof (rule reconcile_config_cases [OF run])
  assume "r' = r" "acts = []"
    "rr_namespace (rd_request rd) \<noteq> co_controller_namespace (cf_options r)
       \<or> rr_name (rd_request rd) \<noteq> co_config_map_name (cf_options r)
       \<or> (\<exists>e. rd_answer rd = Inl e \<and> e \<noteq> Read_Not_Found)"
  then show ?thesis using ok by (auto simp: config_step_ok_def observation_def)
next
  assume "rr_namespace (rd_request rd) = co_controller_namespace (cf_options r)"
    "rr_name (rd_request rd) = co_config_map_name (cf_options r)" "rd_answer rd = Inl Read_Not_Found"
    and "reject_missing r = (r', acts)"
  then show ?thesis using ok reject_keeps [of r r' acts]
    by (simp add: config_step_ok_def observation_def store_observe_def runtime_ok_def)
next
  fix cm
  assume at: "rr_namespace (rd_request rd) = co_controller_namespace (cf_options r)"
    "rr_name (rd_request rd) = co_config_map_name (cf_options r)" "rd_answer rd = Inr cm"
    and rej: "reject_invalid cm r = (r', acts)"
    and refused: "\<And>c. parse env (cm_data cm) = Inr c \<Longrightarrow> update_runtime (cf_runtime r) (cs_runtime c) = None"
  have "parse env (cm_data cm) \<noteq> Inr c" for c
  proof
    assume c: "parse env (cm_data cm) = Inr c"
    show False by (rule update_runtime_total [OF ok c]) (use refused [OF c] in simp)
  qed
  then obtain e where "parse env (cm_data cm) = Inl e" by (cases "parse env (cm_data cm)") auto
  then show ?thesis using at rej ok reject_keeps [of r r' acts cm]
    by (simp add: config_step_ok_def observation_def store_observe_def runtime_ok_def)
next
  fix cm c rt r1 acts1 acts2
  assume at: "rr_namespace (rd_request rd) = co_controller_namespace (cf_options r)"
    "rr_name (rd_request rd) = co_config_map_name (cf_options r)" "rd_answer rd = Inr cm"
    and parsed: "parse env (cm_data cm) = Inr c"
    and upd: "update_runtime (cf_runtime r) (cs_runtime c) = Some rt"
    and acc: "accept_configuration c (r\<lparr>cf_runtime := rt\<rparr>) = (r1, acts1)"
    and fan: "fan_out namespaces accounts r1 = (r', acts2, err)" and acts: "acts = acts1 @ acts2"
  note keeps = accept_keeps [OF acc] fan_out_keeps [OF fan]
  have rt: "case (cf_runtime r, rt) of
       (None, rt) \<Rightarrow> rt = None
     | (Some k, Some k') \<Rightarrow> kube_runtime_wf k' \<and> kr_fallback k' = kr_fallback k
         \<and> kr_desired k' = overridden (kr_fallback k) (cs_runtime c)
     | (Some k, None) \<Rightarrow> False"
    by (rule update_runtime_total [OF ok parsed]) (use upd in simp)
  then have "runtime_ok r'"
    using keeps by (auto simp: runtime_ok_def split: option.splits)
  then show ?thesis using rt at parsed acts keeps
    by (auto simp: config_step_ok_def observation_def store_observe_def split: option.splits)
qed

section \<open>Properties\<close>

abbreviation observed_configs :: "parse_env \<Rightarrow> controller_options \<Rightarrow> config_round list \<Rightarrow> configuration_snapshot option list" where
  "observed_configs env options rounds \<equiv> concat (map (observation env options) rounds)"

text \<open>The settings a process wants after its observations, starting with \<open>s\<close>.\<close>

definition settings_after :: "settings \<Rightarrow> configuration_snapshot option list \<Rightarrow> settings \<Rightarrow> settings" where
  "settings_after fallback es s =
     (if List.map_filter id es = [] then s
      else overridden fallback (cs_runtime (last (List.map_filter id es))))"

lemma observation_cases:
  obtains "observation env options rd = []" | "observation env options rd = [None]"
    | c data where "observation env options rd = [Some c]" "parse env data = Inr c"
proof -
  have "observation env options rd = [] \<or> observation env options rd = [None]
    \<or> (\<exists>c data. observation env options rd = [Some c] \<and> parse env data = Inr c)"
    by (auto simp: observation_def split: sum.splits)
  then show ?thesis using that by blast
qed

lemma settings_after_snoc:
  "settings_after fb (es @ observation env options rd) s =
     (case observation env options rd of
        [Some c] \<Rightarrow> overridden fb (cs_runtime c) | _ \<Rightarrow> settings_after fb es s)"
  by (rule observation_cases [of env options rd]) (simp_all add: settings_after_def map_filter_def)

lemma config_run_snoc: "config_run env (rounds @ [rd]) r = config_turn env rd (config_run env rounds r)"
  by (simp add: config_run_def)

lemma config_run_ok:
  assumes "config_run env rounds r = (r', acts)" "runtime_ok r"
  shows "cf_store r' = fold store_observe (observed_configs env (cf_options r) rounds) (cf_store r)
    \<and> cf_options r' = cf_options r
    \<and> cf_pending_fanout r' = owes (cf_pending_fanout r) acts
    \<and> runtime_ok r'
    \<and> (\<forall>k. cf_runtime r = Some k \<longrightarrow> (\<exists>k'. cf_runtime r' = Some k' \<and> kr_fallback k' = kr_fallback k
        \<and> kr_desired k' =
            settings_after (kr_fallback k) (observed_configs env (cf_options r) rounds) (kr_desired k)))"
  using assms(1)
proof (induction rounds arbitrary: r' acts rule: rev_induct)
  case Nil
  then show ?case using assms(2) by (simp add: config_run_def settings_after_def)
next
  case (snoc rd rounds)
  obtain r1 acts1 where run1: "config_run env rounds r = (r1, acts1)" by fastforce
  then obtain acts2 err where turn: "reconcile_config env (rd_request rd) (rd_answer rd)
      (rd_namespaces rd) (rd_accounts rd) r1 = (r', acts2, err)" and acts: "acts = acts1 @ acts2"
    using snoc.prems by (auto simp: config_run_snoc config_turn_def split: prod.splits)
  note before = snoc.IH [OF run1]
  then have step: "config_step_ok env rd r1 r' acts2" using reconcile_config_step [OF turn] by blast
  have "\<exists>k'. cf_runtime r' = Some k' \<and> kr_fallback k' = kr_fallback k \<and> kr_desired k' =
      settings_after (kr_fallback k) (observed_configs env (cf_options r) rounds @ observation env (cf_options r) rd)
        (kr_desired k)"
    if k: "cf_runtime r = Some k" for k
  proof -
    from before k obtain k1 where k1: "cf_runtime r1 = Some k1" "kr_fallback k1 = kr_fallback k"
      "kr_desired k1 = settings_after (kr_fallback k) (observed_configs env (cf_options r) rounds) (kr_desired k)"
      by blast
    with step before obtain k' where "cf_runtime r' = Some k'" "kr_fallback k' = kr_fallback k1"
      "kr_desired k' = (case observation env (cf_options r) rd of
         [Some c] \<Rightarrow> overridden (kr_fallback k1) (cs_runtime c) | _ \<Rightarrow> kr_desired k1)"
      unfolding config_step_ok_def by metis
    with k1 show ?thesis by (simp only: settings_after_snoc) simp
  qed
  with before step acts show ?case by (simp add: config_step_ok_def)
qed

text \<open>
  C23: After any run of the configuration controller the store serves the last valid ConfigMap
  that was read, as the parser returns it up to the generation number, whatever was read, or
  was missing or unreadable, since; it is marked valid exactly when the last ConfigMap
  observed was; and the desired client and worker settings are the start-up fallback
  overridden by that same configuration.
\<close>

theorem controller_serves_last_valid:
  assumes "config_run env rounds r = (r', acts)" "runtime_ok r"
    and "Some c \<in> set (observed_configs env (cf_options r) rounds)"
  shows "(\<exists>w. store_load (cf_store r') = Some w
      \<and> snapshot_equal w (last (List.map_filter id (observed_configs env (cf_options r) rounds))))
    \<and> (st_valid (cf_store r') \<longleftrightarrow> last (observed_configs env (cf_options r) rounds) \<noteq> None)
    \<and> (\<forall>k. cf_runtime r = Some k \<longrightarrow> (\<exists>k'. cf_runtime r' = Some k' \<and> kube_runtime_wf k'
        \<and> kr_desired k' = overridden (kr_fallback k)
            (cs_runtime (last (List.map_filter id (observed_configs env (cf_options r) rounds))))))"
proof -
  let ?es = "observed_configs env (cf_options r) rounds"
  note run = config_run_ok [OF assms(1,2)]
  have observe: "fold store_observe es s = fold cfg.observe es s" for es s
    by (rule fold_cong) (auto simp: store_observe_def cfg.observe_def)
  have wf: "runtime_wf (cs_runtime v)" if v: "Some v \<in> set ?es" for v
  proof -
    from v obtain rd where "Some v \<in> set (observation env (cf_options r) rd)" by auto
    then obtain data where "parse env data = Inr v"
      by (rule_tac observation_cases [of env "cf_options r" rd]) auto
    then show ?thesis by (rule parse_runtime_part)
  qed
  have ne: "?es \<noteq> []" using assms(3) by (metis empty_iff list.set(1))
  have valid: "List.map_filter id ?es \<noteq> []" using assms(3) by (auto simp: map_filter_def filter_empty_conv)
  have "\<exists>w. store_load (cf_store r') = Some w \<and> snapshot_equal w (last (List.map_filter id ?es))"
    using cfg.load_after [OF wf assms(3)] run by (simp add: observe)
  moreover have "st_valid (cf_store r') \<longleftrightarrow> last ?es \<noteq> None"
    using cfg.valid_after [OF ne] run by (simp add: observe)
  ultimately show ?thesis
    using run valid by (fastforce simp: settings_after_def runtime_ok_def)
qed

text \<open>A round that reads a valid ConfigMap, with complete answers to both lists.\<close>

definition complete_round ::
  "parse_env \<Rightarrow> controller_options \<Rightarrow> config_round \<Rightarrow> configuration_snapshot \<Rightarrow> string list
     \<Rightarrow> (string \<times> string) list \<Rightarrow> bool" where
  "complete_round env options rd c names accounts \<longleftrightarrow>
     observation env options rd = [Some c] \<and> rd_namespaces rd = (Inr names, None)
     \<and> rd_accounts rd = (Inr accounts, None)"

lemma observation_Some:
  "observation env options rd = [Some c] \<longleftrightarrow>
     rr_namespace (rd_request rd) = co_controller_namespace options
     \<and> rr_name (rd_request rd) = co_config_map_name options
     \<and> (\<exists>cm. rd_answer rd = Inr cm \<and> parse env (cm_data cm) = Inr c)"
  by (auto simp: observation_def split: sum.splits)

lemma send_all_complete [simp]: "send_all None channel xs = (channel @ xs, None)"
  by (induction xs arbitrary: channel) auto

lemma business_change:
  "ar_business_changed (snd (store_apply s c)) \<longleftrightarrow>
     (\<forall>current. store_load s = Some current \<longrightarrow> \<not> business_equal current c)"
  using store_apply_facts(6) [of s c] by (cases "store_apply s c") simp

lemma fan_out_complete:
  "fan_out (Inr names, None) (Inr accounts, None) r =
     (if cf_pending_fanout r
      then (r\<lparr>cf_publisher := \<lparr>ep_namespace_events = ep_namespace_events (cf_publisher r) @ names,
                ep_service_account_events = ep_service_account_events (cf_publisher r) @ accounts\<rparr>,
              cf_pending_fanout := False\<rparr>, [Fanout_Done], None)
      else (r, [], None))"
  by (simp add: fan_out_def publish_all_namespaces_def publish_all_service_accounts_def)

text \<open>
  C24: A notified change of the configuration is never lost: after any run, however its
  fan-outs failed or were cut short, the next reconciliation that reads a valid ConfigMap and
  lists both kinds completely requests every namespace and every ServiceAccount, exactly if a
  notified change has not been fanned out completely since or this ConfigMap changes the
  configuration itself; otherwise it requests none, and either way it owes nothing afterwards.
\<close>

theorem fanout_never_lost:
  assumes "config_run env rounds r = (r1, acts)" "runtime_ok r" "\<not> cf_pending_fanout r"
    and "complete_round env (cf_options r) rd c names accounts"
    and "due \<longleftrightarrow> owes False acts
      \<or> (\<forall>current. store_load (cf_store r1) = Some current \<longrightarrow> \<not> business_equal current c)"
  shows "\<exists>r2 new. reconcile_config env (rd_request rd) (rd_answer rd) (rd_namespaces rd) (rd_accounts rd) r1
        = (r2, new, None)
    \<and> ep_namespace_events (cf_publisher r2) =
        ep_namespace_events (cf_publisher r1) @ (if due then names else [])
    \<and> ep_service_account_events (cf_publisher r2) =
        ep_service_account_events (cf_publisher r1) @ (if due then accounts else [])
    \<and> (Fanout_Done \<in> set new \<longleftrightarrow> due) \<and> \<not> cf_pending_fanout r2"
proof -
  note run = config_run_ok [OF assms(1,2)]
  from assms(4) run obtain cm where at: "rr_namespace (rd_request rd) = co_controller_namespace (cf_options r1)"
    "rr_name (rd_request rd) = co_config_map_name (cf_options r1)" "rd_answer rd = Inr cm"
    and parsed: "parse env (cm_data cm) = Inr c"
    and lists: "rd_namespaces rd = (Inr names, None)" "rd_accounts rd = (Inr accounts, None)"
    by (auto simp: complete_round_def observation_Some)
  obtain rt where rt: "update_runtime (cf_runtime r1) (cs_runtime c) = Some rt"
    by (rule update_runtime_total [OF _ parsed, of r1]) (use run in auto)
  obtain r3 acts3 where acc: "accept_configuration c (r1\<lparr>cf_runtime := rt\<rparr>) = (r3, acts3)" by fastforce
  note keeps = accept_keeps [OF acc]
  have pending: "cf_pending_fanout r3 \<longleftrightarrow> due"
    using acc run assms(3,5) business_change [of "cf_store r1" c]
    by (auto simp: accept_configuration_def split: prod.splits)
  show ?thesis
    using keeps pending
    by (simp add: reconcile_config_def at parsed rt acc lists fan_out_complete)
qed

text \<open>What is reported of a ConfigMap that is rejected, and the mark that it has been.\<close>

definition rejection_of :: "(read_error, config_map) result \<Rightarrow> string" where
  "rejection_of answer =
     (case answer of Inl _ \<Rightarrow> ''missing'' | Inr cm \<Rightarrow> cm_uid cm @ ''/'' @ cm_resource_version cm)"

definition rejection_report :: "bool \<Rightarrow> (read_error, config_map) result \<Rightarrow> config_action list" where
  "rejection_report recorder answer =
     (case answer of
        Inl _ \<Rightarrow> [Log_Missing]
      | Inr cm \<Rightarrow> Log_Invalid # (if recorder then [Warn_Invalid_Configuration cm] else []))"

lemma reject_result:
  assumes "(answer = Inl Read_Not_Found \<and> reject_missing r = (r', acts))
    \<or> (\<exists>cm. answer = Inr cm \<and> reject_invalid cm r = (r', acts))"
  shows "cf_last_rejection r' = rejection_of answer
    \<and> acts = (if cf_last_rejection r = rejection_of answer then []
              else rejection_report (cf_recorder r) answer)"
  using assms
  by (auto simp: reject_missing_def reject_invalid_def rejection_of_def rejection_report_def Let_def
      split: if_splits)

text \<open>
  C25: A missing or invalid ConfigMap is an answer, not an error: the controller keeps serving
  the configuration, settings and pending fan-out it had, only marks the store invalid,
  requests nothing, asks for no retry and stays ready if it was. It is reported once: unless
  the last rejection on record is of the same object (none, or this UID and resource version),
  the controller logs it, with a warning event on an invalid ConfigMap if it has a recorder,
  and puts it on record; reading the same object again reports nothing.
\<close>

theorem invalid_configuration_retained:
  assumes "rr_namespace rq = co_controller_namespace (cf_options r)"
    and "rr_name rq = co_config_map_name (cf_options r)"
    and "answer = Inl Read_Not_Found \<or> (\<exists>cm e. answer = Inr cm \<and> parse env (cm_data cm) = Inl e)"
  shows "\<exists>r' acts. reconcile_config env rq answer namespaces accounts r = (r', acts, None)
    \<and> store_load (cf_store r') = store_load (cf_store r) \<and> \<not> st_valid (cf_store r')
    \<and> configuration_ready_check (Some (cf_store r')) = configuration_ready_check (Some (cf_store r))
    \<and> cf_runtime r' = cf_runtime r \<and> cf_pending_fanout r' = cf_pending_fanout r
    \<and> cf_publisher r' = cf_publisher r \<and> Notify_Observer \<notin> set acts
    \<and> cf_last_rejection r' = (case answer of
          Inl _ \<Rightarrow> ''missing'' | Inr cm \<Rightarrow> cm_uid cm @ ''/'' @ cm_resource_version cm)
    \<and> acts = (if cf_last_rejection r = cf_last_rejection r' then []
        else (case answer of
            Inl _ \<Rightarrow> [Log_Missing]
          | Inr cm \<Rightarrow> Log_Invalid # (if cf_recorder r then [Warn_Invalid_Configuration cm] else [])))
    \<and> reconcile_config env rq answer namespaces accounts r' = (r', [], None)"
proof -
  let ?rejects = "\<lambda>r r' acts.
    reconcile_config env rq answer namespaces accounts r = (r', acts, None)
    \<and> ((answer = Inl Read_Not_Found \<and> reject_missing r = (r', acts))
       \<or> (\<exists>cm. answer = Inr cm \<and> reject_invalid cm r = (r', acts)))"
  have rejects: "\<exists>r' acts. ?rejects q r' acts" if "cf_options q = cf_options r" for q
    using assms that by (auto simp: reconcile_config_def split: prod.splits)
  from rejects [of r] obtain r' acts where run: "?rejects r r' acts" by blast
  then obtain cm where rej: "reject_missing r = (r', acts) \<or> reject_invalid cm r = (r', acts)" by blast
  note keeps = reject_keeps [OF rej] and result = reject_result [OF run [THEN conjunct2]]
  from rejects [of r'] keeps(2) obtain r2 acts2 where again: "?rejects r' r2 acts2" by blast
  have "(r2, acts2) = (r', [])"
    using run again reject_missing_again [of r r' acts] reject_invalid_again [of _ r r' acts] by fastforce
  then have "reconcile_config env rq answer namespaces accounts r' = (r', [], None)"
    using again by simp
  moreover have "Notify_Observer \<notin> set acts"
    using rej by (auto simp: reject_missing_def reject_invalid_def Let_def split: if_splits)
  ultimately show ?thesis
    using run keeps result
    by (intro exI [of _ r'] exI [of _ acts])
      (simp add: store_mark_invalid_def configuration_ready_check_def store_loaded_def
        rejection_of_def rejection_report_def)
qed

section \<open>Examples\<close>

definition sample_config_reconciler :: config_reconciler where
  "sample_config_reconciler =
     \<lparr>cf_store = empty_store,
      cf_publisher = \<lparr>ep_namespace_events = [], ep_service_account_events = []\<rparr>,
      cf_options = controller_defaults \<lparr>co_controller_namespace = ''sys'', co_config_map_name = ''conf'',
        co_managed_secret_name = ''pull'', co_namespace_reconciles = 0, co_service_account_reconciles = 0\<rparr>,
      cf_runtime = Some sample_kube_runtime, cf_recorder = True, cf_last_rejection = [],
      cf_pending_fanout = False\<rparr>"

definition sample_config_map :: config_map where
  "sample_config_map = \<lparr>cm_uid = ''u'', cm_resource_version = ''7'', cm_data = sample_data\<rparr>"

text \<open>The ConfigMap is read; the fan-out is complete unless it stops at the first namespace.\<close>

definition sample_round :: "bool \<Rightarrow> config_round" where
  "sample_round stop =
     \<lparr>rd_request = \<lparr>rr_namespace = ''sys'', rr_name = ''conf''\<rparr>,
      rd_answer = Inr sample_config_map,
      rd_namespaces = (Inr [''prod'', ''dev''], if stop then Some (0, Read_Canceled) else None),
      rd_accounts = (Inr [(''prod'', ''default'')], None)\<rparr>"

definition missing_round :: config_round where
  "missing_round = (sample_round False)\<lparr>rd_answer := Inl Read_Not_Found\<rparr>"

lemma sample_runtime_ok: "runtime_ok sample_config_reconciler"
  by (simp add: runtime_ok_def sample_config_reconciler_def sample_kube_runtime_wf)

lemma sample_options:
  "cf_options sample_config_reconciler = \<lparr>co_controller_namespace = ''sys'',
     co_config_map_name = ''conf'', co_managed_secret_name = ''pull'',
     co_namespace_reconciles = 8, co_service_account_reconciles = 8\<rparr>"
  by code_simp

lemma sample_observations:
  "observation sample_env (cf_options sample_config_reconciler) (sample_round stop) = [Some sample_snapshot]"
  "observation sample_env (cf_options sample_config_reconciler) missing_round = [None]"
  by (simp_all add: observation_def sample_options sample_round_def missing_round_def
      sample_config_map_def parse_sample)

theorem controller_serves_last_valid_witness:
  "\<exists>w. store_load (cf_store (fst (config_run sample_env [sample_round True, missing_round]
      sample_config_reconciler))) = Some w \<and> snapshot_equal w sample_snapshot"
proof -
  let ?es = "observed_configs sample_env (cf_options sample_config_reconciler) [sample_round True, missing_round]"
  have es: "?es = [Some sample_snapshot, None]" by (simp add: sample_observations)
  have "Some sample_snapshot \<in> set ?es" unfolding es by simp
  from controller_serves_last_valid [OF prod.collapse [symmetric] sample_runtime_ok this]
  show ?thesis unfolding es by (simp add: map_filter_def)
qed

theorem fanout_never_lost_witness:
  "\<exists>r2 new. reconcile_config sample_env (rd_request (sample_round False)) (rd_answer (sample_round False))
      (rd_namespaces (sample_round False)) (rd_accounts (sample_round False))
      (fst (config_run sample_env [sample_round True, missing_round] sample_config_reconciler))
        = (r2, new, None)
    \<and> Fanout_Done \<in> set new \<and> ep_namespace_events (cf_publisher r2) = [''prod'', ''dev'']"
proof -
  let ?run = "config_run sample_env [sample_round True, missing_round] sample_config_reconciler"
  have round: "complete_round sample_env (cf_options sample_config_reconciler) (sample_round False)
      sample_snapshot [''prod'', ''dev''] [(''prod'', ''default'')]"
    by (simp add: complete_round_def sample_observations) (simp add: sample_round_def)
  have idle: "\<not> cf_pending_fanout sample_config_reconciler" by (simp add: sample_config_reconciler_def)
  have "owes False (snd ?run)" "ep_namespace_events (cf_publisher (fst ?run)) = []" by code_simp+
  then show ?thesis
    using fanout_never_lost [OF prod.collapse [of ?run, symmetric] sample_runtime_ok idle round, of True]
    by auto
qed

theorem invalid_configuration_retained_witness:
  "\<exists>r' acts. reconcile_config sample_env \<lparr>rr_namespace = ''sys'', rr_name = ''conf''\<rparr> (Inl Read_Not_Found)
      (Inr [], None) (Inr [], None) sample_config_reconciler = (r', acts, None)
    \<and> \<not> st_valid (cf_store r') \<and> acts = [Log_Missing] \<and> cf_last_rejection r' = ''missing''"
proof -
  have fresh: "cf_last_rejection sample_config_reconciler = []"
    by (simp add: sample_config_reconciler_def)
  show ?thesis
    using invalid_configuration_retained [where answer = "Inl Read_Not_Found" and r = sample_config_reconciler
        and rq = "\<lparr>rr_namespace = ''sys'', rr_name = ''conf''\<rparr>" and env = sample_env
        and namespaces = "(Inr [], None)" and accounts = "(Inr [], None)"]
    by (auto simp: sample_options fresh)
qed

end
