(* ===== verification/ResourceReconcilers.thy ===== *)
theory ResourceReconcilers
  imports ConfigController
begin

text \<open>
  \<open>namespace_reconciler.go\<close> and \<open>serviceaccount_reconciler.go\<close>: the handlers that
  controller-runtime calls for a request. Each is given a syncer, an interface in the code: here
  what the syncer answered is an argument of the handler. The dependency limiter of a
  ServiceAccount handler is client-go's; its state is the list of calls made on it, and the
  delay it answers is a parameter.
\<close>

section \<open>Results\<close>

text \<open>
  What \<open>Reconcile\<close> returns: the delay after which the request comes back (0: not), and the
  wrapped error, on which controller-runtime retries.
\<close>

record 'e reconcile_result =
  rs_requeue_after :: int
  rs_error :: "(string \<times> 'e) option"

definition reconciled :: "'e reconcile_result" where
  "reconciled = \<lparr>rs_requeue_after = 0, rs_error = None\<rparr>"

section \<open>Namespaces\<close>

text \<open>
  \<open>sync\<close> is the call of the syncer, made only when the guards let it; \<open>canceled\<close> tells of
  an error that is the end of the context.
\<close>

definition reconcile_namespace ::
  "config_store \<Rightarrow> ('e \<Rightarrow> bool) \<Rightarrow> (string \<Rightarrow> 's \<Rightarrow> 's \<times> 'a list \<times> 'e option) \<Rightarrow> reconcile_request \<Rightarrow> 's
     \<Rightarrow> 's \<times> 'a list \<times> 'e reconcile_result" where
  "reconcile_namespace store canceled sync rq s =
     (if rr_namespace rq \<noteq> [] \<or> rr_name rq = [] \<or> \<not> store_loaded store then (s, [], reconciled)
      else (case sync (rr_name rq) s of
          (s', acts, None) \<Rightarrow> (s', acts, reconciled)
        | (s', acts, Some err) \<Rightarrow>
            if canceled err then (s', acts, reconciled)
            else (s', acts, reconciled\<lparr>rs_error := Some (rr_name rq, err)\<rparr>)))"

section \<open>ServiceAccounts\<close>

definition secret_dependency_initial_delay :: int where
  "secret_dependency_initial_delay = 100 * 1000000"
definition secret_dependency_max_delay :: int where
  "secret_dependency_max_delay = 5 * 1000000000"

datatype backoff_call = Backoff_When reconcile_request | Backoff_Forget reconcile_request

record account_reconciler =
  ac_store :: config_store
  ac_backoff :: "backoff_call list"

definition new_service_account_reconciler :: "config_store \<Rightarrow> account_reconciler" where
  "new_service_account_reconciler store = \<lparr>ac_store = store, ac_backoff = []\<rparr>"

definition backoff_forget :: "reconcile_request \<Rightarrow> account_reconciler \<Rightarrow> account_reconciler" where
  "backoff_forget rq r = r\<lparr>ac_backoff := ac_backoff r @ [Backoff_Forget rq]\<rparr>"

text \<open>
  \<open>delay\<close> is the answer of \<open>When\<close>, given the earlier calls. The store is read when the handler
  runs, so it is an argument; \<open>outcome\<close> is what the syncer returned.
\<close>

definition reconcile_service_account ::
  "(backoff_call list \<Rightarrow> reconcile_request \<Rightarrow> int) \<Rightarrow> (sa_error \<Rightarrow> bool) \<Rightarrow> sa_error option
     \<Rightarrow> reconcile_request \<Rightarrow> account_reconciler \<Rightarrow> account_reconciler \<times> sa_error reconcile_result" where
  "reconcile_service_account delay canceled outcome rq r =
     (if rr_namespace rq = [] \<or> rr_name rq = [] \<or> \<not> store_loaded (ac_store r)
      then (backoff_forget rq r, reconciled)
      else (case outcome of
          None \<Rightarrow> (backoff_forget rq r, reconciled)
        | Some err \<Rightarrow>
            if is_not_ready err
            then (r\<lparr>ac_backoff := ac_backoff r @ [Backoff_When rq]\<rparr>,
                  reconciled\<lparr>rs_requeue_after := delay (ac_backoff r) rq\<rparr>)
            else if canceled err then (backoff_forget rq r, reconciled)
            else (r, reconciled\<lparr>rs_error := Some (rr_name rq, err)\<rparr>)))"

section \<open>Backoff\<close>

text \<open>
  The documented delay of an exponential failure limiter: the initial delay doubled for every
  \<open>When\<close> on the key since it was last forgotten, up to the maximum.
\<close>

definition backoff_step :: "reconcile_request \<Rightarrow> backoff_call \<Rightarrow> nat \<Rightarrow> nat" where
  "backoff_step rq call n =
     (case call of
        Backoff_When k \<Rightarrow> if k = rq then Suc n else n
      | Backoff_Forget k \<Rightarrow> if k = rq then 0 else n)"

definition failures :: "backoff_call list \<Rightarrow> reconcile_request \<Rightarrow> nat" where
  "failures calls rq = fold (backoff_step rq) calls 0"

definition exponential_delay :: "backoff_call list \<Rightarrow> reconcile_request \<Rightarrow> int" where
  "exponential_delay calls rq =
     min secret_dependency_max_delay (secret_dependency_initial_delay * 2 ^ failures calls rq)"

text \<open>
  A turn of the handler: the request and the outcome of its syncer; a run of turns, of several
  ServiceAccounts in any order, from a new handler.
\<close>

record account_turn =
  at_request :: reconcile_request
  at_outcome :: "sa_error option"
  at_canceled :: bool

definition account_turn_step ::
  "(backoff_call list \<Rightarrow> reconcile_request \<Rightarrow> int) \<Rightarrow> account_turn \<Rightarrow> account_reconciler \<Rightarrow> account_reconciler" where
  "account_turn_step delay t r =
     fst (reconcile_service_account delay (\<lambda>_. at_canceled t) (at_outcome t) (at_request t) r)"

definition account_run ::
  "(backoff_call list \<Rightarrow> reconcile_request \<Rightarrow> int) \<Rightarrow> account_turn list \<Rightarrow> config_store \<Rightarrow> account_reconciler" where
  "account_run delay turns store =
     fold (account_turn_step delay) turns (new_service_account_reconciler store)"

text \<open>
  How often the object of a request has waited for its Secret in a row: an error in between
  does not count, a success or a cancellation starts again.
\<close>

definition wait_step :: "reconcile_request \<Rightarrow> account_turn \<Rightarrow> nat \<Rightarrow> nat" where
  "wait_step rq t n =
     (if at_request t \<noteq> rq then n
      else (case at_outcome t of
          None \<Rightarrow> 0
        | Some err \<Rightarrow> if is_not_ready err then Suc n else if at_canceled t then 0 else n))"

definition waits :: "account_turn list \<Rightarrow> reconcile_request \<Rightarrow> nat" where
  "waits turns rq = fold (wait_step rq) turns 0"

lemma failures_snoc: "failures (calls @ [call]) rq = backoff_step rq call (failures calls rq)"
  by (simp add: failures_def)

lemma account_turn_store [simp]: "ac_store (account_turn_step delay t r) = ac_store r"
  by (simp add: account_turn_step_def reconcile_service_account_def backoff_forget_def
      split: option.split)

lemma account_turn_failures:
  assumes "store_loaded (ac_store r)" "rr_namespace rq \<noteq> []" "rr_name rq \<noteq> []"
  shows "failures (ac_backoff (account_turn_step delay t r)) rq = wait_step rq t (failures (ac_backoff r) rq)"
  using assms
  by (auto simp: account_turn_step_def reconcile_service_account_def backoff_forget_def wait_step_def
      failures_snoc backoff_step_def split: option.split)

lemma account_run_failures:
  assumes "store_loaded store" "rr_namespace rq \<noteq> []" "rr_name rq \<noteq> []"
  shows "ac_store (account_run delay turns store) = store
    \<and> failures (ac_backoff (account_run delay turns store)) rq = waits turns rq"
proof (induction turns rule: rev_induct)
  case Nil
  then show ?case
    by (simp add: account_run_def new_service_account_reconciler_def failures_def waits_def)
next
  case (snoc t turns)
  then show ?case
    using assms by (simp add: account_run_def waits_def account_turn_failures)
qed

text \<open>
  A ServiceAccount whose managed Secret is not ready is neither an error nor forgotten: it
  comes back after a delay that starts at 100 milliseconds, doubles with every consecutive
  wait of that ServiceAccount, never exceeds five seconds, and starts again after a
  reconciliation that succeeded or was canceled. What happens to other ServiceAccounts, and
  failed calls in between, do not change it. The limiter answers as client-go documents.
\<close>

lemma dependency_wait_delay:
  assumes "\<forall>calls. delay calls rq = exponential_delay calls rq"
    and "store_loaded store" "rr_namespace rq \<noteq> []" "rr_name rq \<noteq> []" "is_not_ready err"
  shows "snd (reconcile_service_account delay canceled (Some err) rq (account_run delay turns store))
      = \<lparr>rs_requeue_after = min 5000000000 (100000000 * 2 ^ waits turns rq), rs_error = None\<rparr>
    \<and> 0 < rs_requeue_after (snd (reconcile_service_account delay canceled (Some err) rq
        (account_run delay turns store)))"
  using account_run_failures [OF assms(2-4), of delay turns] assms
  by (simp add: reconcile_service_account_def reconciled_def exponential_delay_def
      secret_dependency_initial_delay_def secret_dependency_max_delay_def)

section \<open>Example\<close>

definition sample_account_request :: reconcile_request where
  "sample_account_request = \<lparr>rr_namespace = ''prod'', rr_name = ''default''\<rparr>"

definition sample_turns :: "account_turn list" where
  "sample_turns =
     [\<lparr>at_request = sample_account_request, at_outcome = Some Managed_Secret_Missing, at_canceled = False\<rparr>,
      \<lparr>at_request = sample_account_request, at_outcome = None, at_canceled = False\<rparr>,
      \<lparr>at_request = sample_account_request, at_outcome = Some Managed_Secret_Missing, at_canceled = False\<rparr>,
      \<lparr>at_request = sample_account_request, at_outcome = Some (Patch_Failed Update_Conflict), at_canceled = False\<rparr>,
      \<lparr>at_request = sample_account_request, at_outcome = Some Managed_Secret_Not_Ready, at_canceled = False\<rparr>]"

lemma dependency_wait_delay_witness:
  "rs_requeue_after (snd (reconcile_service_account exponential_delay (\<lambda>_. False)
     (Some Managed_Secret_Missing) sample_account_request
     (account_run exponential_delay sample_turns (fst (store_apply empty_store sample_snapshot))))) = 400000000"
proof -
  have "store_loaded (fst (store_apply empty_store sample_snapshot))"
    by (simp add: store_apply_def empty_store_def Let_def store_loaded_def)
  moreover have "rr_namespace sample_account_request \<noteq> []" "rr_name sample_account_request \<noteq> []"
    by (simp_all add: sample_account_request_def)
  moreover have "waits sample_turns sample_account_request = 2" by code_simp
  ultimately show ?thesis
    using dependency_wait_delay [where delay = exponential_delay and rq = sample_account_request
        and store = "fst (store_apply empty_store sample_snapshot)" and err = Managed_Secret_Missing
        and canceled = "\<lambda>_. False" and turns = sample_turns]
    by simp
qed

end
