(* ===== verification/SchedulerSafety.thy ===== *)
theory SchedulerSafety
  imports Scheduler
begin

text \<open>
  The scheduler as a whole: its event loop, its workers and the configuration controller as a
  step relation, in which the operations of \<open>Scheduler\<close> interleave in any order. The
  state carries what happened so far: the tokens the provider issued, with their requests, and
  the calls made. The reachable states satisfy the safety properties at the end: a credential
  is only ever taken for current when the provider issued it for exactly the current access
  key, and a revision counts as published only when a publish came after its installation.
\<close>

section \<open>The step relation\<close>

record flight =
  fl_registry :: registry_config
  fl_handled :: "64 word"

record system =
  sy_scheduler :: scheduler
  sy_started :: bool
  sy_flights :: "(registry_key, flight) gomap"
  sy_issued :: "(request \<times> token) list"
  sy_trace :: "action list"

definition system_init :: "scheduler \<Rightarrow> system" where
  "system_init s =
     \<lparr>sy_scheduler = s, sy_started = False, sy_flights = [], sy_issued = [], sy_trace = []\<rparr>"

definition advance :: "system \<Rightarrow> scheduler \<times> action list \<Rightarrow> system" where
  "advance y out =
     (case out of (s, acts) \<Rightarrow> y\<lparr>sy_scheduler := s, sy_trace := sy_trace y @ acts\<rparr>)"

text \<open>
  \<open>observe\<close>: the configuration controller sees the ConfigMap, absent, invalid or valid. \<open>notify\<close>: it
  notifies the scheduler. \<open>start\<close> and \<open>change\<close>: \<open>Start\<close> compares the configuration once before
  its workers run and then for every notification. \<open>turn\<close> and \<open>call\<close>: a worker takes a key that
  no other worker holds and runs to its end or to the provider call. \<open>answer\<close>: the call
  returns; a token it returns is recorded as issued for the request.
\<close>

definition seen :: "parse_env \<Rightarrow> (string, string) gomap option \<Rightarrow> configuration_snapshot option" where
  "seen env data =
     (case data of
        None \<Rightarrow> None
      | Some d \<Rightarrow> (case parse env d of Inl _ \<Rightarrow> None | Inr c \<Rightarrow> Some c))"

inductive sched_step :: "parse_env \<Rightarrow> digest \<Rightarrow> system \<Rightarrow> system \<Rightarrow> bool" for env digest where
  observe: "sched_step env digest y
      (y\<lparr>sy_scheduler := (sy_scheduler y)\<lparr>sc_config :=
          store_observe (seen env data) (sc_config (sy_scheduler y))\<rparr>\<rparr>)"
| notify: "sched_step env digest y
      (y\<lparr>sy_scheduler := notify_configuration_changed (sy_scheduler y)\<rparr>)"
| start: "\<not> sy_started y \<Longrightarrow>
    sched_step env digest y
      (advance (y\<lparr>sy_started := True\<rparr>) (reconcile_configuration (sy_scheduler y)))"
| change: "sy_started y \<Longrightarrow> sc_change_pending (sy_scheduler y) \<Longrightarrow>
    sched_step env digest y
      (advance y (reconcile_configuration ((sy_scheduler y)\<lparr>sc_change_pending := False\<rparr>)))"
| turn: "sy_started y \<Longrightarrow> gm_get (sy_flights y) key = None \<Longrightarrow>
    refresh_begin digest key now reply (sy_scheduler y) = (s', acts, Returned err :: unit begun) \<Longrightarrow>
    sched_step env digest y (advance y (s', acts))"
| call: "sy_started y \<Longrightarrow> gm_get (sy_flights y) key = None \<Longrightarrow>
    refresh_begin digest key now reply (sy_scheduler y)
      = (s', acts, Call_Provider rq registry handled :: unit begun) \<Longrightarrow>
    sched_step env digest y
      ((advance y (s', acts))\<lparr>sy_flights :=
          gm_put key \<lparr>fl_registry = registry, fl_handled = handled\<rparr> (sy_flights y)\<rparr>)"
| answer: "gm_get (sy_flights y) key = Some fl \<Longrightarrow>
    revision_room (sc_credentials (sy_scheduler y)) \<Longrightarrow>
    refresh_end digest key (fl_registry fl) (fl_handled fl) response now reply (sy_scheduler y)
      = (s', acts, err :: unit refresh_error option) \<Longrightarrow>
    sched_step env digest y
      ((advance y (s', acts))
        \<lparr>sy_flights := gm_del key (sy_flights y),
         sy_issued := (case response of
             Inl _ \<Rightarrow> sy_issued y
           | Inr t \<Rightarrow> (\<lparr>rq_key = key, rq_access_key_id = rc_access_key_id (fl_registry fl),
                       rq_access_key_secret = rc_access_key_secret (fl_registry fl)\<rparr>, t)
                     # sy_issued y)\<rparr>)"

text \<open>A fresh process: stores and maps empty, nothing in flight.\<close>

definition fresh :: "scheduler \<Rightarrow> bool" where
  "fresh s \<longleftrightarrow> sc_credentials s = empty_cred_store \<and> sc_config s = empty_store
     \<and> sc_known s = [] \<and> sc_published s = [] \<and> sc_force s = []"

inductive reachable :: "parse_env \<Rightarrow> digest \<Rightarrow> system \<Rightarrow> bool" for env digest where
  init: "fresh s \<Longrightarrow> reachable env digest (system_init s)"
| step: "reachable env digest y \<Longrightarrow> sched_step env digest y y' \<Longrightarrow> reachable env digest y'"



section \<open>The invariant of the shared state\<close>

definition auth_input_of_request :: "request \<Rightarrow> auth_input" where
  "auth_input_of_request rq =
     \<lparr>ai_region = key_region (rq_key rq), ai_instance = key_instance (rq_key rq),
      ai_access_key_id = rq_access_key_id rq, ai_access_key_secret = rq_access_key_secret rq\<rparr>"

text \<open>The entry holds a token the provider issued for a request with the entry's digest.\<close>

definition issued_entry :: "digest \<Rightarrow> (request \<times> token) list \<Rightarrow> registry_key \<Rightarrow> entry \<Rightarrow> bool" where
  "issued_entry digest issued key e \<longleftrightarrow>
     (\<exists>(rq, t) \<in> set issued. rq_key rq = key
        \<and> en_authentication_hash e = digest (auth_input_of_request rq)
        \<and> cr_username (en_credential e) = tk_username t
        \<and> cr_password (en_credential e) = tk_password t
        \<and> cr_expires_at (en_credential e) = tk_expires_at t)"

fun install_of :: "action \<Rightarrow> 64 word option" where
  "install_of (Installed key r) = Some r"
| "install_of _ = None"

definition installs :: "action list \<Rightarrow> 64 word list" where
  "installs tr = List.map_filter install_of tr"

definition published_after :: "action list \<Rightarrow> registry_key \<Rightarrow> 64 word \<Rightarrow> bool" where
  "published_after tr key r \<longleftrightarrow>
     (\<exists>xs ys. tr = xs @ Installed key r # ys \<and> Published_All \<in> set ys)"

lemma installs_simps [simp]:
  "installs [] = []"
  "installs (a # tr) = (case install_of a of None \<Rightarrow> installs tr | Some r \<Rightarrow> r # installs tr)"
  by (simp_all add: installs_def map_filter_simps split: option.splits)

lemma installs_append [simp]: "installs (tr @ tr') = installs tr @ installs tr'"
  by (induction tr) (auto split: option.splits)

lemma installs_mem: "Installed key r \<in> set tr \<Longrightarrow> r \<in> set (installs tr)"
  by (induction tr) (auto split: option.splits)

lemma published_after_append: "published_after tr key r \<Longrightarrow> published_after (tr @ tr') key r"
  unfolding published_after_def by (metis append.assoc append_Cons set_append UnI1)

lemma published_after_publish:
  assumes "Installed key r \<in> set tr"
  shows "published_after (tr @ [Published_All]) key r"
proof -
  obtain xs ys where "tr = xs @ Installed key r # ys" using assms by (meson split_list)
  then have "tr @ [Published_All] = xs @ Installed key r # (ys @ [Published_All])" by simp
  then show ?thesis unfolding published_after_def by fastforce
qed

definition config_ok :: "parse_env \<Rightarrow> config_store \<Rightarrow> bool" where
  "config_ok env c \<longleftrightarrow> (\<forall>snapshot. st_current c = Some snapshot \<longrightarrow> snapshot_wf env snapshot)"

record history =
  hi_issued :: "(request \<times> token) list"
  hi_trace :: "action list"

definition shared_ok :: "digest \<Rightarrow> history \<Rightarrow> scheduler \<Rightarrow> bool" where
  "shared_ok digest h s \<longleftrightarrow>
     (\<forall>key e. cred_load (sc_credentials s) key = Some e \<longrightarrow>
        issued_entry digest (hi_issued h) key e
        \<and> Installed key (en_revision e) \<in> set (hi_trace h))
     \<and> (\<forall>key r. gm_get (sc_published s) key = Some r \<longrightarrow> published_after (hi_trace h) key r)
     \<and> distinct (installs (hi_trace h))
     \<and> unat ` set (installs (hi_trace h)) \<subseteq> used_revisions (sc_credentials s)
     \<and> revisions_ok (sc_credentials s)"

lemma shared_ok_entry:
  "shared_ok digest h s \<Longrightarrow> cred_load (sc_credentials s) key = Some e \<Longrightarrow>
     issued_entry digest (hi_issued h) key e \<and> Installed key (en_revision e) \<in> set (hi_trace h)"
  by (simp add: shared_ok_def)

lemma shared_ok_published:
  "shared_ok digest h s \<Longrightarrow> gm_get (sc_published s) key = Some r \<Longrightarrow> published_after (hi_trace h) key r"
  by (simp add: shared_ok_def)

definition log_actions :: "action list \<Rightarrow> history \<Rightarrow> history" where
  "log_actions acts h = h\<lparr>hi_trace := hi_trace h @ acts\<rparr>"

lemma log_actions_simps [simp]:
  "hi_trace (log_actions acts h) = hi_trace h @ acts"
  "hi_issued (log_actions acts h) = hi_issued h"
  "log_actions [] h = h"
  by (simp_all add: log_actions_def)

text \<open>Calls of the queue, and losing entries, keep the invariant.\<close>

lemma shared_ok_shrink:
  assumes "shared_ok digest h s"
    and "\<And>k e. cred_load (sc_credentials s') k = Some e \<Longrightarrow> cred_load (sc_credentials s) k = Some e"
    and "\<And>k r. gm_get (sc_published s') k = Some r \<Longrightarrow> gm_get (sc_published s) k = Some r"
    and "cst_next_revision (sc_credentials s') = cst_next_revision (sc_credentials s)"
    and "installs acts = []"
  shows "shared_ok digest (log_actions acts h) s'"
proof -
  have rev_ok: "revisions_ok (sc_credentials s')"
    using assms(1,2,4) unfolding shared_ok_def creds.revisions_ok_def used_revisions_def
    by metis
  show ?thesis
    using assms rev_ok published_after_append
    unfolding shared_ok_def by (auto simp: used_revisions_def)
qed

lemma shared_ok_same:
  assumes "shared_ok digest h s" "sc_credentials s' = sc_credentials s"
    and "sc_published s' = sc_published s" "installs acts = []"
  shows "shared_ok digest (log_actions acts h) s'"
  by (rule shared_ok_shrink [OF assms(1) _ _ _ assms(4)]) (simp_all add: assms(2,3))

lemma shared_ok_publish:
  fixes err :: "'e refresh_error option"
  assumes "shared_ok digest h s" "cred_load (sc_credentials s) key = Some e"
    and "publish_credential key e answer s = (s', acts, err)"
  shows "shared_ok digest (log_actions acts h) s'"
proof (cases "\<not> is_published s key (en_revision e) \<and> answer = None")
  case False
  then have "s' = s" "installs acts = []"
    using assms(3) by (auto simp: publish_credential_def split: if_splits option.splits)
  then show ?thesis using assms(1) by (auto intro: shared_ok_same)
next
  case True
  then have eqs: "s' = mark_published key (en_revision e) s" "acts = [Published_All]"
    using assms(3) by (auto simp: publish_credential_def)
  have "published_after (hi_trace h @ [Published_All]) k r"
    if "gm_get (sc_published s') k = Some r" for k r
    using that shared_ok_entry [OF assms(1,2)] shared_ok_published [OF assms(1)]
    by (auto simp: eqs mark_published_def map_laws split: if_splits
        intro: published_after_publish published_after_append)
  with assms(1) show ?thesis
    by (simp add: shared_ok_def eqs)
qed

lemma installs_none: "(\<And>a. a \<in> set tr \<Longrightarrow> install_of a = None) \<Longrightarrow> installs tr = []"
  by (induction tr) auto

lemma shared_ok_forget:
  assumes "shared_ok digest h s"
  shows "shared_ok digest h (forget_key key s)"
proof -
  have "shared_ok digest (log_actions [] h) (forget_key key s)"
    by (rule shared_ok_shrink [OF assms]) (auto split: if_splits)
  then show ?thesis by simp
qed

lemma shared_ok_begin:
  fixes r :: "'e begun"
  assumes "shared_ok digest h s" "refresh_begin digest key now answer s = (s', acts, r)"
  shows "shared_ok digest (log_actions acts h) s'"
proof (cases "load_registry s key")
  case None
  then show ?thesis using assms shared_ok_forget by (auto simp: refresh_begin_def)
next
  case (Some registry)
  show ?thesis
  proof (cases "usable_entry digest s key registry now")
    case None
    then show ?thesis using assms Some by (simp add: refresh_begin_def)
  next
    case usable: (Some p)
    obtain e refresh_at where p: "p = (e, refresh_at)" by (cases p)
    have loaded: "cred_load (sc_credentials s) key = Some e"
      using usable p by (auto simp: usable_entry_def Let_def split: option.splits if_splits)
    obtain s1 acts1 and err :: "'e refresh_error option"
      where pub: "publish_credential key e answer s = (s1, acts1, err)" by (metis prod_cases3)
    have ok: "shared_ok digest (log_actions acts1 h) s1"
      by (rule shared_ok_publish [OF assms(1) loaded pub])
    have "s' = s1 \<and> (acts = acts1 \<or> acts = acts1 @ [Q_Add_After key (time_sub refresh_at now)])"
      using assms(2) Some usable p pub by (auto simp: refresh_begin_def split: option.splits)
    then show ?thesis
      using ok shared_ok_same [OF ok refl refl, of "[Q_Add_After key (time_sub refresh_at now)]"]
      by (auto simp: log_actions_def)
  qed
qed

lemma shared_ok_install:
  assumes "shared_ok digest h s" "revision_room (sc_credentials s)"
    and "cred_apply digest (sc_credentials s) current c = (creds', e)"
    and "issued_entry digest issued (config_key current) e"
    and "set (hi_issued h) \<subseteq> set issued"
    and "sc_credentials s' = creds'" "sc_published s' = sc_published s"
  shows "shared_ok digest \<lparr>hi_issued = issued,
      hi_trace = hi_trace h @ [Installed (config_key current) (en_revision e)]\<rparr> s'"
proof -
  note facts = cred_apply_facts [OF assms(3)]
  have unat_rev: "unat (en_revision e) = unat (cst_next_revision (sc_credentials s)) + 1"
    using facts(4) next_revision [OF assms(2)] by simp
  have used: "used_revisions creds' = insert (unat (en_revision e)) (used_revisions (sc_credentials s))"
    using facts(5) next_revision [OF assms(2)] by (auto simp: used_revisions_def unat_rev)
  have new: "unat (en_revision e) \<notin> used_revisions (sc_credentials s)"
    by (simp add: used_revisions_def unat_rev)
  have subset: "unat ` set (installs (hi_trace h)) \<subseteq> used_revisions (sc_credentials s)"
    using assms(1) by (simp add: shared_ok_def)
  then have "en_revision e \<notin> set (installs (hi_trace h))" using new by blast
  moreover have mono: "issued_entry digest issued k e'" if "issued_entry digest (hi_issued h) k e'" for k e'
    using that assms(5) unfolding issued_entry_def by blast
  moreover have "revisions_ok creds'"
    using revisions_ok_apply [OF _ assms(2,3)] assms(1) by (simp add: shared_ok_def)
  ultimately show ?thesis
    using assms(1,4,6,7) facts(1) used subset
    by (auto simp: shared_ok_def intro: published_after_append split: if_splits)
qed

lemma shared_ok_issue:
  assumes "shared_ok digest h s" "set (hi_issued h) \<subseteq> set issued"
  shows "shared_ok digest (h\<lparr>hi_issued := issued\<rparr>) s"
proof -
  have "issued_entry digest issued k e" if "issued_entry digest (hi_issued h) k e" for k e
    using that assms(2) unfolding issued_entry_def by blast
  with assms(1) show ?thesis by (simp add: shared_ok_def)
qed

text \<open>The requests a flight stands for.\<close>

definition flight_request :: "registry_key \<Rightarrow> registry_config \<Rightarrow> request" where
  "flight_request key registry =
     \<lparr>rq_key = key, rq_access_key_id = rc_access_key_id registry,
      rq_access_key_secret = rc_access_key_secret registry\<rparr>"

definition record_answer ::
  "registry_key \<Rightarrow> registry_config \<Rightarrow> ('e, token) result \<Rightarrow> (request \<times> token) list
     \<Rightarrow> (request \<times> token) list" where
  "record_answer key registry response issued =
     (case response of Inl _ \<Rightarrow> issued | Inr t \<Rightarrow> (flight_request key registry, t) # issued)"

lemma record_answer_mono: "set issued \<subseteq> set (record_answer key registry response issued)"
  by (auto simp: record_answer_def split: sum.splits)

lemma load_registry_key:
  assumes "config_ok env (sc_config s)" "load_registry s key = Some registry"
  shows "config_key registry = key"
  using assms
  by (auto simp: load_registry_def config_ok_def snapshot_wf_def registries_wf_def
      split: option.splits dest!: gm_get_Some_mem)

lemma shared_ok_end:
  fixes err :: "'e refresh_error option"
  assumes "shared_ok digest h s" "config_ok env (sc_config s)" "revision_room (sc_credentials s)"
    and "refresh_end digest key registry handled response now answer s = (s', acts, err)"
  shows "shared_ok digest \<lparr>hi_issued = record_answer key registry response (hi_issued h),
      hi_trace = hi_trace h @ acts\<rparr> s'"
proof -
  let ?issued = "record_answer key registry response (hi_issued h)"
  have base: "shared_ok digest (h\<lparr>hi_issued := ?issued\<rparr>) s"
    by (rule shared_ok_issue [OF assms(1) record_answer_mono])
  have hist: "\<lparr>hi_issued = ?issued, hi_trace = hi_trace h @ acts\<rparr>
      = log_actions acts (h\<lparr>hi_issued := ?issued\<rparr>)"
    by (cases h) (simp add: log_actions_def)
  from assms(4) have "shared_ok digest (log_actions acts (h\<lparr>hi_issued := ?issued\<rparr>)) s'"
  proof (cases rule: refresh_end_cases)
    case (provider e)
    then show ?thesis using base by simp
  next
    case gone
    then show ?thesis using shared_ok_forget [OF base] by simp
  next
    case (stale t current)
    then show ?thesis
      using shared_ok_same [OF base, of "mark_force_refresh key s" "[Q_Add key]"] by simp
  next
    case (rejected t current why)
    then show ?thesis using base by simp
  next
    case (installed t current)
    have key: "config_key current = key" by (rule load_registry_key [OF assms(2) installed(2)])
    from installed(5) obtain e acts' where
      ap: "cred_apply digest (sc_credentials s) current
        \<lparr>cr_username = tk_username t, cr_password = tk_password t,
         cr_refreshed_at = now, cr_expires_at = tk_expires_at t\<rparr> = (sc_credentials s', e)"
      and pub: "publish_credential key e answer
       (clear_force_refresh key handled (s\<lparr>sc_credentials := sc_credentials s'\<rparr>)) = (s', acts', err)"
      and acts: "acts = Installed key (en_revision e) # acts' @
       (case err of
          Some _ \<Rightarrow> []
        | None \<Rightarrow> [Q_Add_After key
            (time_sub (tk_expires_at t - so_refresh_before (sc_options s)) now)])"
      by (rule install_and_publish_facts)
    note facts = cred_apply_facts [OF ap]
    have "auth_input_of current = auth_input_of_request (flight_request key registry)"
      using key installed(3)
      by (auto simp: auth_input_of_def auth_input_of_request_def flight_request_def
          authentication_changed_def config_key_def)
    then have issued: "issued_entry digest ?issued (config_key current) e"
      unfolding issued_entry_def
      by (intro bexI [of _ "(flight_request key registry, t)"])
        (simp_all add: facts key flight_request_def record_answer_def installed(1))
    let ?s1 = "clear_force_refresh key handled (s\<lparr>sc_credentials := sc_credentials s'\<rparr>)"
    let ?h1 = "\<lparr>hi_issued = ?issued, hi_trace = hi_trace h @ [Installed key (en_revision e)]\<rparr>"
    have ok1: "shared_ok digest ?h1 ?s1"
      using shared_ok_install [OF assms(1,3) ap issued record_answer_mono, of ?s1] key by simp
    have "cred_load (sc_credentials ?s1) key = Some e" using facts(1) key by simp
    from shared_ok_publish [OF ok1 this pub]
    have ok2: "shared_ok digest (log_actions acts' ?h1) s'" .
    have "shared_ok digest (log_actions (case err of
          Some _ \<Rightarrow> []
        | None \<Rightarrow> [Q_Add_After key
            (time_sub (tk_expires_at t - so_refresh_before (sc_options s)) now)])
          (log_actions acts' ?h1)) s'"
      by (rule shared_ok_same [OF ok2 refl refl]) (simp split: option.splits)
    then show ?thesis by (cases h) (simp add: log_actions_def acts)
  qed
  then show ?thesis by (simp add: hist)
qed

lemma shared_ok_reconcile:
  assumes "shared_ok digest h s" "config_ok env (sc_config s)"
    and "reconcile_configuration s = (s', acts)"
  shows "shared_ok digest (log_actions acts h) s' \<and> sc_config s' = sc_config s"
proof (cases "st_current (sc_config s)")
  case None
  then show ?thesis using assms by (simp add: reconcile_configuration_def)
next
  case (Some snapshot)
  let ?regs = "cs_registries snapshot"
  have wf: "gm_wf ?regs"
    using assms(2) Some by (simp add: config_ok_def snapshot_wf_def registries_wf_def)
  obtain s1 acts1 where added: "fold (reconcile_registry (sc_known s)) ?regs (s, []) = (s1, acts1)"
    by (metis surj_pair)
  obtain s2 acts2 where retired:
    "fold (retire_registry ?regs) (gm_keys (sc_known s)) (s1, acts1) = (s2, acts2)"
    by (metis surj_pair)
  have result: "s' = s2\<lparr>sc_known := ?regs\<rparr>" "acts = acts2"
    using assms(3) by (simp_all add: reconcile_configuration_def Some added retired)
  note A = reconcile_registries_fold [OF wf added]
  note R = retire_registries_fold [OF retired]
  have kept: "cred_load (sc_credentials s2) k = None \<and> gm_get (sc_published s2) k = None
      \<or> cred_load (sc_credentials s2) k = cred_load (sc_credentials s) k
        \<and> gm_get (sc_published s2) k = gm_get (sc_published s) k" for k
  proof (cases "gm_get ?regs k = None \<and> k \<in> set (gm_keys (sc_known s))")
    case True
    then show ?thesis using R by blast
  next
    case False
    then have "cred_load (sc_credentials s2) k = cred_load (sc_credentials s1) k
        \<and> gm_get (sc_published s2) k = gm_get (sc_published s1) k"
      using R by blast
    then show ?thesis using A by simp
  qed
  have loads: "cred_load (sc_credentials s) k = Some e" if "cred_load (sc_credentials s2) k = Some e" for k e
    using that kept [of k] by auto
  have pubs: "gm_get (sc_published s) k = Some r" if "gm_get (sc_published s2) k = Some r" for k r
    using that kept [of k] by auto
  have "set acts2 \<subseteq> range Q_Add \<union> range Q_Forget" using A R by auto
  then have "installs acts2 = []" by (intro installs_none) auto
  with shared_ok_shrink [OF assms(1), of s' acts2] loads pubs A R
  show ?thesis by (simp add: result)
qed

section \<open>Reachable states\<close>

definition system_ok :: "parse_env \<Rightarrow> digest \<Rightarrow> system \<Rightarrow> bool" where
  "system_ok env digest y \<longleftrightarrow>
     config_ok env (sc_config (sy_scheduler y))
     \<and> shared_ok digest \<lparr>hi_issued = sy_issued y, hi_trace = sy_trace y\<rparr> (sy_scheduler y)"

lemma config_ok_observe: "config_ok env c \<Longrightarrow> config_ok env (store_observe (seen env data) c)"
proof -
  assume ok: "config_ok env c"
  show ?thesis
  proof (cases "seen env data")
    case None
    then show ?thesis using ok by (simp add: store_observe_def store_mark_invalid_def config_ok_def)
  next
    case (Some snapshot)
    then have wf: "snapshot_wf env snapshot"
      using parse_wf by (auto simp: seen_def split: option.splits sum.splits)
    obtain c' r where ap: "store_apply c snapshot = (c', r)" by (metis surj_pair)
    have "snapshot_wf env (snapshot\<lparr>cs_generation := g\<rparr>)" for g
      using wf by (simp add: snapshot_wf_def)
    then have "config_ok env c'"
      using store_apply_facts(3,7,8) [OF ap] ok
      by (cases "ar_changed r") (auto simp: config_ok_def, metis)
    then show ?thesis using Some ap by (simp add: store_observe_def)
  qed
qed

lemma log_actions_history [simp]:
  "log_actions acts \<lparr>hi_issued = i, hi_trace = tr\<rparr> = \<lparr>hi_issued = i, hi_trace = tr @ acts\<rparr>"
  by (simp add: log_actions_def)

lemma refresh_config:
  fixes r :: "'e begun" and err :: "'e refresh_error option"
  shows "refresh_begin digest key now answer s = (s', acts, r) \<Longrightarrow> sc_config s' = sc_config s"
    and "refresh_end digest key registry handled response now answer s = (s', acts', err) \<Longrightarrow>
      sc_config s' = sc_config s"
proof -
  show "refresh_begin digest key now answer s = (s', acts, r) \<Longrightarrow> sc_config s' = sc_config s"
    using publish_credential_facts(1)
    by (fastforce simp: refresh_begin_def split: option.splits prod.splits)
  assume "refresh_end digest key registry handled response now answer s = (s', acts', err)"
  then show "sc_config s' = sc_config s"
  proof (cases rule: refresh_end_cases)
    case (installed t current)
    from installed(5) show ?thesis
      by (rule install_and_publish_facts) (use publish_credential_facts(1) in fastforce)
  qed auto
qed

lemma system_ok_step:
  assumes "system_ok env digest y" "sched_step env digest y y'"
  shows "system_ok env digest y'"
proof -
  have ok: "shared_ok digest \<lparr>hi_issued = sy_issued y, hi_trace = sy_trace y\<rparr> (sy_scheduler y)"
    and config: "config_ok env (sc_config (sy_scheduler y))"
    using assms(1) by (simp_all add: system_ok_def)
  show ?thesis using assms(2)
  proof (cases rule: sched_step.cases)
    case (observe data)
    then show ?thesis
      using assms(1) config_ok_observe shared_ok_same
        [of digest "\<lparr>hi_issued = sy_issued y, hi_trace = sy_trace y\<rparr>" "sy_scheduler y" _ "[]"]
      by (simp add: system_ok_def)
  next
    case notify
    then show ?thesis
      using assms(1) shared_ok_same
        [of digest "\<lparr>hi_issued = sy_issued y, hi_trace = sy_trace y\<rparr>" "sy_scheduler y" _ "[]"]
      by (simp add: system_ok_def notify_configuration_changed_def)
  next
    case start
    obtain s' acts where run: "reconcile_configuration (sy_scheduler y) = (s', acts)"
      by (metis surj_pair)
    show ?thesis
      using start shared_ok_reconcile [OF ok config run] config
      by (simp add: system_ok_def advance_def run)
  next
    case change
    obtain s' acts where run: "reconcile_configuration ((sy_scheduler y)\<lparr>sc_change_pending := False\<rparr>)
        = (s', acts)"
      by (metis surj_pair)
    have "shared_ok digest \<lparr>hi_issued = sy_issued y, hi_trace = sy_trace y\<rparr>
        ((sy_scheduler y)\<lparr>sc_change_pending := False\<rparr>)"
      using shared_ok_same [OF ok, of _ "[]"] by simp
    from shared_ok_reconcile [OF this _ run] config change show ?thesis
      by (simp add: system_ok_def advance_def run)
  next
    case (turn key now reply s' acts err)
    then show ?thesis
      using shared_ok_begin [OF ok turn(4)] refresh_config(1) [OF turn(4)] config
      by (simp add: system_ok_def advance_def)
  next
    case (call key now reply s' acts rq registry handled)
    then show ?thesis
      using shared_ok_begin [OF ok call(4)] refresh_config(1) [OF call(4)] config
      by (simp add: system_ok_def advance_def)
  next
    case (answer key fl response now reply s' acts err)
    then show ?thesis
      using shared_ok_end [OF ok config answer(3,4)] refresh_config(2) [OF answer(4)] config
      by (cases response)
        (simp_all add: system_ok_def advance_def record_answer_def flight_request_def)
  qed
qed

lemma system_ok_init: "fresh s \<Longrightarrow> system_ok env digest (system_init s)"
  by (simp add: system_ok_def system_init_def fresh_def config_ok_def shared_ok_def cred_load_def
      empty_cred_store_def empty_store_def creds.revisions_ok_def)

lemma reachable_ok: "reachable env digest y \<Longrightarrow> system_ok env digest y"
  by (induction rule: reachable.induct) (auto intro: system_ok_init system_ok_step)

section \<open>Safety\<close>

text \<open>
  C1: Whatever the interleaving of configuration changes, comparisons, refreshes and provider
  answers, a stored credential that the code takes for a registry's current one was issued by
  the provider for a request with exactly the registry's configured identity, access key ID
  and secret. The digest must not collide at the registry's authentication input.
\<close>

theorem current_credential_was_issued:
  assumes "reachable env digest y"
    and "load_registry (sy_scheduler y) key = Some registry"
    and "cred_load (sc_credentials (sy_scheduler y)) key = Some e"
    and "matches_registry digest e registry"
    and "\<And>a. digest a = digest (auth_input_of registry) \<Longrightarrow> a = auth_input_of registry"
  shows "\<exists>t. (\<lparr>rq_key = key, rq_access_key_id = rc_access_key_id registry,
          rq_access_key_secret = rc_access_key_secret registry\<rparr>, t) \<in> set (sy_issued y)
      \<and> cr_username (en_credential e) = tk_username t
      \<and> cr_password (en_credential e) = tk_password t
      \<and> cr_expires_at (en_credential e) = tk_expires_at t"
proof -
  have ok: "system_ok env digest y" by (rule reachable_ok [OF assms(1)])
  then have "config_key registry = key"
    using load_registry_key assms(2) by (auto simp: system_ok_def)
  then have key: "rc_region registry = key_region key \<and> rc_instance registry = key_instance key"
    by (auto simp: config_key_def)
  from ok assms(3) have "issued_entry digest (sy_issued y) key e"
    using shared_ok_entry by (fastforce simp: system_ok_def)
  then obtain rq t where mem: "(rq, t) \<in> set (sy_issued y)" "rq_key rq = key"
    and hash: "en_authentication_hash e = digest (auth_input_of_request rq)"
    and fields: "cr_username (en_credential e) = tk_username t"
      "cr_password (en_credential e) = tk_password t"
      "cr_expires_at (en_credential e) = tk_expires_at t"
    by (auto simp: issued_entry_def)
  have "auth_input_of_request rq = auth_input_of registry"
    using assms(4,5) hash by (simp add: matches_registry_def registry_authentication_hash_def)
  then have "rq = \<lparr>rq_key = key, rq_access_key_id = rc_access_key_id registry,
      rq_access_key_secret = rc_access_key_secret registry\<rparr>"
    using mem(2) by (cases rq) (simp add: auth_input_of_request_def auth_input_of_def)
  with mem(1) fields show ?thesis by blast
qed

text \<open>
  C5: In every reachable state the revisions of stored credentials tell them apart, and a
  credential that counts as published has been: its revision was installed once, and a
  successful publish to all namespaces came after that installation.
\<close>

theorem published_after_installation:
  assumes "reachable env digest y"
    and "cred_load (sc_credentials (sy_scheduler y)) key = Some e"
    and "is_published (sy_scheduler y) key (en_revision e)"
  shows "published_after (sy_trace y) key (en_revision e)
    \<and> distinct (installs (sy_trace y))
    \<and> (\<forall>key' e'. cred_load (sc_credentials (sy_scheduler y)) key' = Some e'
          \<and> en_revision e' = en_revision e \<longrightarrow> key' = key)"
proof -
  let ?s = "sy_scheduler y"
  have ok: "shared_ok digest \<lparr>hi_issued = sy_issued y, hi_trace = sy_trace y\<rparr> ?s"
    using reachable_ok [OF assms(1)] by (simp add: system_ok_def)
  have revs: "revisions_ok (sc_credentials ?s)" using ok by (simp add: shared_ok_def)
  have "unat (en_revision e) \<in> used_revisions (sc_credentials ?s)"
    using revs assms(2) unfolding creds.revisions_ok_def by blast
  then have "en_revision e \<noteq> 0" by (auto simp: used_revisions_def)
  then have "gm_get (sc_published ?s) key = Some (en_revision e)"
    using assms(3) by (simp add: is_published_def gm_get0_def split: option.splits)
  from shared_ok_published [OF ok this]
  have "published_after (sy_trace y) key (en_revision e)" by simp
  moreover have "key' = key"
    if "cred_load (sc_credentials ?s) key' = Some e'" "en_revision e' = en_revision e" for key' e'
    using revs that assms(2) unfolding creds.revisions_ok_def by metis
  ultimately show ?thesis using ok by (auto simp: shared_ok_def)
qed

section \<open>A run\<close>

text \<open>One process from its start to the first credential, with a digest exact at one registry.\<close>

definition exact_digest :: digest where
  "exact_digest a = (if a = auth_input_of sample_current then ''1'' else ''0'')"

definition run_started :: system where
  "run_started =
     advance ((system_init sample_scheduler)\<lparr>sy_started := True\<rparr>)
       (reconcile_configuration sample_scheduler)"

definition run_called :: system where
  "run_called =
     (case refresh_begin exact_digest sample_key 0 None (sy_scheduler run_started) of
        (s', acts, r :: unit begun) \<Rightarrow>
          (advance run_started (s', acts))
            \<lparr>sy_flights := [(sample_key, \<lparr>fl_registry = sample_current, fl_handled = 0\<rparr>)]\<rparr>)"

definition run_answered :: system where
  "run_answered =
     (case refresh_end exact_digest sample_key sample_current 0 (Inr sample_token :: (unit, token) result)
             5 None (sy_scheduler run_called) of
        (s', acts, err) \<Rightarrow>
          (advance run_called (s', acts))
            \<lparr>sy_flights := [],
             sy_issued := [(\<lparr>rq_key = sample_key, rq_access_key_id = ''id'',
                rq_access_key_secret = ''sk''\<rparr>, sample_token)]\<rparr>)"

lemma sample_seen: "store_observe (seen sample_env (Some sample_data)) empty_store
    = sc_config sample_scheduler"
  by (simp add: seen_def parse_sample store_observe_def sample_scheduler_def)

lemma run_reachable: "reachable sample_env exact_digest run_answered"
proof -
  let ?s = "sample_scheduler\<lparr>sc_config := empty_store\<rparr>"
  have "fresh ?s" by (simp add: fresh_def sample_scheduler_def)
  then have "reachable sample_env exact_digest (system_init ?s)" by (rule reachable.init)
  from reachable.step [OF this sched_step.observe [of _ _ _ "Some sample_data"]]
  have r0: "reachable sample_env exact_digest (system_init sample_scheduler)"
    using sample_seen by (simp add: system_init_def)
  have r1: "reachable sample_env exact_digest run_started"
    unfolding run_started_def
    using reachable.step [OF r0 sched_step.start] by (simp add: system_init_def)
  have started: "sy_started run_started" "gm_get (sy_flights run_started) sample_key = None"
    by (simp_all add: run_started_def advance_def system_init_def split: prod.splits)
  obtain s1 acts1 where begun: "refresh_begin exact_digest sample_key 0 None (sy_scheduler run_started)
      = (s1, acts1, Call_Provider (flight_request sample_key sample_current) sample_current 0
          :: unit begun)"
  proof -
    have "snd (snd (refresh_begin exact_digest sample_key 0 None (sy_scheduler run_started)))
      = (Call_Provider (flight_request sample_key sample_current) sample_current 0 :: unit begun)"
      by code_simp
    then show thesis using that by (metis prod.collapse)
  qed
  have called: "run_called = (advance run_started (s1, acts1))
      \<lparr>sy_flights := [(sample_key, \<lparr>fl_registry = sample_current, fl_handled = 0\<rparr>)]\<rparr>"
    by (simp add: run_called_def begun)
  have empty: "sy_flights run_started = []" "sy_issued run_started = []"
    by (simp_all add: run_started_def advance_def system_init_def split: prod.splits)
  have r2: "reachable sample_env exact_digest run_called"
    using reachable.step [OF r1 sched_step.call [OF started begun]]
    by (simp add: called empty)
  have flight: "gm_get (sy_flights run_called) sample_key
      = Some \<lparr>fl_registry = sample_current, fl_handled = 0\<rparr>"
    and one: "sy_flights run_called = [(sample_key, \<lparr>fl_registry = sample_current, fl_handled = 0\<rparr>)]"
    and none_issued: "sy_issued run_called = []"
    by (simp_all add: called advance_def empty)
  have "cst_next_revision (sc_credentials (sy_scheduler run_called)) = 0" by code_simp
  then have room: "revision_room (sc_credentials (sy_scheduler run_called))"
    by (simp add: revision_room_def)
  obtain s2 acts2 and err :: "unit refresh_error option"
    where finished: "refresh_end exact_digest sample_key sample_current 0
      (Inr sample_token :: (unit, token) result) 5 None (sy_scheduler run_called) = (s2, acts2, err)"
    by (metis prod_cases3)
  then have "refresh_end exact_digest sample_key
      (fl_registry \<lparr>fl_registry = sample_current, fl_handled = 0\<rparr>)
      (fl_handled \<lparr>fl_registry = sample_current, fl_handled = 0\<rparr>)
      (Inr sample_token :: (unit, token) result) 5 None (sy_scheduler run_called) = (s2, acts2, err)"
    by simp
  note last_step = reachable.step [OF r2 sched_step.answer [OF flight room this]]
  have answered: "run_answered = (advance run_called (s2, acts2))
      \<lparr>sy_flights := [], sy_issued := [(\<lparr>rq_key = sample_key, rq_access_key_id = ''id'',
          rq_access_key_secret = ''sk''\<rparr>, sample_token)]\<rparr>"
    by (simp add: run_answered_def finished)
  show ?thesis
    using last_step
    by (simp add: answered one none_issued sample_current_def sample_registry_def)
qed

theorem current_credential_was_issued_witness:
  "\<exists>t. (\<lparr>rq_key = sample_key, rq_access_key_id = ''id'', rq_access_key_secret = ''sk''\<rparr>, t)
      \<in> set (sy_issued run_answered) \<and> tk_password t = ''p''"
proof -
  have conf: "load_registry (sy_scheduler run_answered) sample_key = Some sample_current"
    by code_simp
  have entry: "map_option (\<lambda>e. (cr_password (en_credential e), matches_registry exact_digest e sample_current))
      (cred_load (sc_credentials (sy_scheduler run_answered)) sample_key) = Some (''p'', True)"
    by code_simp
  then obtain e where e: "cred_load (sc_credentials (sy_scheduler run_answered)) sample_key = Some e"
    "cr_password (en_credential e) = ''p''" "matches_registry exact_digest e sample_current"
    by auto
  have "a = auth_input_of sample_current"
    if "exact_digest a = exact_digest (auth_input_of sample_current)" for a
    using that by (simp add: exact_digest_def split: if_splits)
  from current_credential_was_issued [OF run_reachable conf e(1,3) this] e(2)
  show ?thesis by (auto simp: sample_current_def sample_registry_def)
qed

theorem published_after_installation_witness:
  "published_after (sy_trace run_answered) sample_key 1"
proof -
  have entry: "map_option en_revision
      (cred_load (sc_credentials (sy_scheduler run_answered)) sample_key) = Some 1"
    by code_simp
  then obtain e where e: "cred_load (sc_credentials (sy_scheduler run_answered)) sample_key = Some e"
    "en_revision e = 1"
    by auto
  have "is_published (sy_scheduler run_answered) sample_key 1" by code_simp
  then show ?thesis
    using published_after_installation [OF run_reachable e(1)] e(2) by simp
qed

end
