(* ===== verification/SecretInspection.thy ===== *)
theory SecretInspection
  imports SyncSpec
begin

text \<open>
  \<open>internal/registrysecret/inspection.go\<close>: how the metrics read a managed Secret back. The
  envelopes are decoded once per Secret, the entries once per registry; the status of a
  registry compares them with the content that would be built now.
\<close>

record inspection =
  in_secret :: "secret option"
  in_auths :: "(string, json) gomap option"
  in_states :: "(string, json) gomap option"
  in_valid :: bool

definition inspect :: "codec \<Rightarrow> secret option \<Rightarrow> inspection" where
  "inspect cd object =
     (case object of
        None \<Rightarrow> \<lparr>in_secret = None, in_auths = None, in_states = None, in_valid = False\<rparr>
      | Some s \<Rightarrow>
          (case (unmarshal cd decode_docker_envelope None (gm_get0 [] (se_data s) docker_config_json_key),
                 unmarshal cd decode_state_envelope (0, None)
                   (gm_get0 [] (se_annotations s) state_annotation_key)) of
             ((auths, docker_ok), ((version, states), state_ok)) \<Rightarrow>
               \<lparr>in_secret = Some s, in_auths = auths, in_states = states,
                in_valid = (se_type s = secret_type_docker_config_json \<and> docker_ok \<and> state_ok
                  \<and> auths \<noteq> None \<and> states \<noteq> None \<and> version = state_version)\<rparr>))"

text \<open>\<open>m[k]\<close> of a map of raw values that may be nil.\<close>

definition raw_entry :: "(string, json) gomap option \<Rightarrow> string \<Rightarrow> json option" where
  "raw_entry m k = (case m of None \<Rightarrow> None | Some entries \<Rightarrow> gm_get entries k)"

datatype target_state = Synced | Pending | Conflict | Invalid | Expired

text \<open>The labels of the states, in the order of \<open>targetStates\<close>.\<close>

definition target_states :: "target_state list" where
  "target_states = [Synced, Pending, Conflict, Invalid, Expired]"

fun state_label :: "target_state \<Rightarrow> string" where
  "state_label Synced = ''synced''"
| "state_label Pending = ''pending''"
| "state_label Conflict = ''conflict''"
| "state_label Invalid = ''invalid''"
| "state_label Expired = ''expired''"

text \<open>
  The body of the loop over the domains: \<open>None\<close> ends it with the status invalid; otherwise
  whether everything matched so far, and whether an auth was found.
\<close>

definition inspect_domain ::
  "inspection \<Rightarrow> inspection \<Rightarrow> bool \<Rightarrow> string \<Rightarrow> bool \<times> bool \<Rightarrow> (bool \<times> bool) option" where
  "inspect_domain i expected has_state domain st =
     (case st of (matches, found_auth) \<Rightarrow>
        (case raw_entry (in_auths i) domain of
           None \<Rightarrow> Some (False, found_auth)
         | Some raw \<Rightarrow>
             (case decode_auth raw of (a, ok) \<Rightarrow>
                if \<not> ok \<or> da_username a = [] \<or> da_password a = []
                   \<or> da_auth a \<noteq> encoded_auth (da_username a) (da_password a) then None
                else if \<not> has_state then None
                else
                  (case raw_entry (in_auths expected) domain of
                     None \<Rightarrow> Some (False, True)
                   | Some wanted \<Rightarrow>
                       (case decode_auth wanted of (desired, good) \<Rightarrow>
                          if \<not> good \<or> a \<noteq> desired then Some (False, True)
                          else Some (matches, True))))))"

fun inspect_domains ::
  "inspection \<Rightarrow> inspection \<Rightarrow> bool \<Rightarrow> string list \<Rightarrow> bool \<times> bool \<Rightarrow> (bool \<times> bool) option" where
  "inspect_domains i expected has_state [] st = Some st"
| "inspect_domains i expected has_state (domain # rest) st =
     (case inspect_domain i expected has_state domain st of
        None \<Rightarrow> None
      | Some st' \<Rightarrow> inspect_domains i expected has_state rest st')"

text \<open>The state entry is unusable: \<open>hasState\<close> and one of the conditions of the early return.\<close>

definition state_entry_broken :: "registry_state \<times> bool \<Rightarrow> bool" where
  "state_entry_broken decoded \<longleftrightarrow>
     (case decoded of (rs, ok) \<Rightarrow>
        \<not> ok \<or> time_is_zero (ts_instant (rs_refreshed_at rs))
        \<or> \<not> ts_instant (rs_expires_at rs) > ts_instant (rs_refreshed_at rs)
        \<or> rs_state_hash rs = [])"

definition decoded_state :: "codec \<Rightarrow> json option \<Rightarrow> registry_state" where
  "decoded_state cd raw =
     (case raw of None \<Rightarrow> zero_state | Some j \<Rightarrow> fst (decode_state_entry cd j))"

definition same_state :: "registry_state \<Rightarrow> registry_state \<Rightarrow> bool" where
  "same_state rs rs' \<longleftrightarrow> rs_state_hash rs = rs_state_hash rs'
     \<and> ts_instant (rs_refreshed_at rs) = ts_instant (rs_refreshed_at rs')
     \<and> ts_instant (rs_expires_at rs) = ts_instant (rs_expires_at rs')"

definition registry_status ::
  "codec \<Rightarrow> inspection \<Rightarrow> registry_config \<Rightarrow> inspection \<Rightarrow> instant \<Rightarrow> target_state \<times> instant" where
  "registry_status cd i registry expected now =
     (case in_secret i of
        None \<Rightarrow> (Pending, zero_time)
      | Some s \<Rightarrow>
          if \<not> is_managed (Some s) then (Conflict, zero_time)
          else if se_deleting s then (Pending, zero_time)
          else if \<not> in_valid i then (Invalid, zero_time)
          else
            (let key = key_string (config_key registry);
                 raw = raw_entry (in_states i) key;
                 wanted = raw_entry (in_states expected) key;
                 rs = decoded_state cd raw
             in if raw \<noteq> None \<and> state_entry_broken (decode_state_entry cd (the raw))
                then (Invalid, zero_time)
                else
                  (case inspect_domains i expected (raw \<noteq> None) (rc_domains registry)
                          (wanted \<noteq> None \<and> raw \<noteq> None \<and> same_state rs (decoded_state cd wanted), False) of
                     None \<Rightarrow> (Invalid, zero_time)
                   | Some (matches, found_auth) \<Rightarrow>
                       if \<not> found_auth then (Pending, zero_time)
                       else if \<not> ts_instant (rs_expires_at rs) > now
                       then (Expired, ts_instant (rs_expires_at rs))
                       else if matches then (Synced, ts_instant (rs_expires_at rs))
                       else (Pending, ts_instant (rs_expires_at rs)))))"

text \<open>The Secret the metrics compare with: the content built for a namespace without a Secret.\<close>

definition expected_secret :: "content \<Rightarrow> secret" where
  "expected_secret c =
     \<lparr>se_namespace = [], se_name = [], se_uid = [], se_resource_version = [], se_deleting = False,
      se_type = [], se_data = [(docker_config_json_key, ct_docker_json c)], se_labels = [],
      se_annotations = [(state_annotation_key, ct_state_json c)]\<rparr>"

section \<open>The loop over the domains\<close>

definition domain_auth :: "inspection \<Rightarrow> string \<Rightarrow> docker_auth option" where
  "domain_auth i d =
     (case raw_entry (in_auths i) d of
        None \<Rightarrow> None
      | Some raw \<Rightarrow> (case decode_auth raw of (a, ok) \<Rightarrow> if ok then Some a else None))"

definition domain_synced :: "inspection \<Rightarrow> inspection \<Rightarrow> string \<Rightarrow> bool" where
  "domain_synced i expected d \<longleftrightarrow>
     (\<exists>a. domain_auth i d = Some a \<and> auth_valid a \<and> domain_auth expected d = Some a)"

lemma inspect_domains_mono:
  "inspect_domains i expected hs ds (m, f) = Some (True, f') \<Longrightarrow> m"
proof (induction ds arbitrary: m f)
  case (Cons d ds)
  then obtain m' g where one: "inspect_domain i expected hs d (m, f) = Some (m', g)"
    and rest: "inspect_domains i expected hs ds (m', g) = Some (True, f')"
    by (auto split: option.splits)
  from Cons.IH [OF rest] one show ?case
    by (auto simp: inspect_domain_def split: option.splits prod.splits if_splits)
qed simp

lemma inspect_domain_matched:
  "inspect_domain i expected hs d (m, f) = Some (True, g) \<longleftrightarrow>
     m \<and> g \<and> hs \<and> domain_synced i expected d"
  by (auto simp: inspect_domain_def domain_synced_def domain_auth_def auth_valid_def
      split: option.splits prod.splits if_splits)

lemma inspect_domains_matched:
  "inspect_domains i expected hs ds (m, f) = Some (True, g) \<longleftrightarrow>
     m \<and> (g \<longleftrightarrow> f \<or> ds \<noteq> []) \<and> (\<forall>d \<in> set ds. hs \<and> domain_synced i expected d)"
proof (induction ds arbitrary: m f)
  case (Cons d ds)
  show ?case
  proof (cases "inspect_domain i expected hs d (m, f)")
    case None
    then show ?thesis using inspect_domain_matched [of i expected hs d m f True] by auto
  next
    case (Some st)
    obtain m' h where st: "st = (m', h)" by (cases st)
    show ?thesis
    proof (cases m')
      case True
      then show ?thesis
        using Cons.IH [of m' h] inspect_domain_matched [of i expected hs d m f h] Some st by auto
    next
      case False
      then have "inspect_domains i expected hs ds (m', h) \<noteq> Some (True, g)"
        using inspect_domains_mono by blast
      moreover have "\<not> (m \<and> hs \<and> domain_synced i expected d)"
        using False Some st inspect_domain_matched [of i expected hs d m f True] by auto
      ultimately show ?thesis by (auto simp: Some st)
    qed
  qed
qed auto

section \<open>When a registry counts as synced\<close>

lemma state_entry_broken_iff:
  "state_entry_broken (rs, ok) \<longleftrightarrow> \<not> (ok \<and> state_usable rs)"
  by (auto simp: state_entry_broken_def state_usable_def)

text \<open>
  A registry counts as synced in a Secret exactly if the Secret is the controller's, is not
  being deleted and has the type and envelopes the controller writes, the registry has a domain,
  its state entry decodes, is usable, has not expired and agrees with the expected one, and
  every domain of the registry carries a well-formed auth equal to the expected one. The time
  reported with it is the expiration in that state.
\<close>

lemma synced_iff:
  "registry_status cd (inspect cd (Some s)) registry expected now = (Synced, e) \<longleftrightarrow>
     is_managed (Some s) \<and> \<not> se_deleting s \<and> in_valid (inspect cd (Some s))
     \<and> rc_domains registry \<noteq> []
     \<and> (\<exists>raw rs wanted.
          raw_entry (in_states (inspect cd (Some s))) (key_string (config_key registry)) = Some raw
          \<and> decode_state_entry cd raw = (rs, True) \<and> state_usable rs
          \<and> raw_entry (in_states expected) (key_string (config_key registry)) = Some wanted
          \<and> same_state rs (fst (decode_state_entry cd wanted))
          \<and> now < ts_instant (rs_expires_at rs) \<and> e = ts_instant (rs_expires_at rs))
     \<and> (\<forall>d \<in> set (rc_domains registry). domain_synced (inspect cd (Some s)) expected d)"
proof -
  let ?i = "inspect cd (Some s)" and ?key = "key_string (config_key registry)"
  have at: "in_secret ?i = Some s" by (simp add: inspect_def split: prod.split)
  show ?thesis
  proof (cases "raw_entry (in_states ?i) ?key")
    case None
    then have "inspect_domains ?i expected False (rc_domains registry) (False, False) \<noteq> Some (True, g)" for g
      using inspect_domains_matched by blast
    then show ?thesis
      by (auto simp: registry_status_def at None Let_def split: option.split)
  next
    case (Some raw)
    obtain rs ok where dec: "decode_state_entry cd raw = (rs, ok)" by fastforce
    let ?wanted = "raw_entry (in_states expected) ?key"
    let ?m = "?wanted \<noteq> None \<and> same_state rs (decoded_state cd ?wanted)"
    have loop: "inspect_domains ?i expected True (rc_domains registry) (?m, False) = Some (True, True) \<longleftrightarrow>
        ?m \<and> rc_domains registry \<noteq> [] \<and> (\<forall>d \<in> set (rc_domains registry). domain_synced ?i expected d)"
      by (simp add: inspect_domains_matched)
    have "registry_status cd ?i registry expected now = (Synced, e) \<longleftrightarrow>
        is_managed (Some s) \<and> \<not> se_deleting s \<and> in_valid ?i \<and> ok \<and> state_usable rs
        \<and> inspect_domains ?i expected True (rc_domains registry) (?m, False) = Some (True, True)
        \<and> now < ts_instant (rs_expires_at rs) \<and> e = ts_instant (rs_expires_at rs)"
      by (auto simp: registry_status_def at Some Let_def dec state_entry_broken_iff decoded_state_def
          split: option.split)
    then show ?thesis
      unfolding loop using Some dec by (auto simp: decoded_state_def)
  qed
qed

section \<open>What the controller writes is synced\<close>

text \<open>The inspection of a Secret that carries rendered documents finds their entries.\<close>

lemma inspect_rendered:
  assumes "docs_read_back cd docs" "state_json cd (snd docs) = Some j"
    and "gm_wf (dc_auths (fst docs))" "gm_wf (ps_registries (snd docs))"
    and "ps_version (snd docs) = state_version"
    and "gm_get0 [] (se_data s) docker_config_json_key = cd_text cd (docker_json (fst docs))"
    and "gm_get0 [] (se_annotations s) state_annotation_key = cd_text cd j"
  shows "raw_entry (in_auths (inspect cd (Some s))) d = map_option auth_json (gm_get (dc_auths (fst docs)) d)"
    and "raw_entry (in_states (inspect cd (Some s))) key =
      map_option (\<lambda>rs. the (state_entry_json cd rs)) (gm_get (ps_registries (snd docs)) key)"
    and "in_valid (inspect cd (Some s)) \<longleftrightarrow> se_type s = secret_type_docker_config_json"
    and "gm_get (ps_registries (snd docs)) key = Some rs \<Longrightarrow>
      decode_state_entry cd (the (state_entry_json cd rs)) = (rs, True)"
proof -
  let ?auths = "map (\<lambda>(d, a). (d, auth_json a)) (gm_sorted (dc_auths (fst docs)))"
  let ?states = "ps_registries (snd docs)"
  obtain js where js: "state_entries_json cd (gm_sorted ?states) = Some js"
    and j: "j = JObj [(''version'', JInt state_version), (''registries'', JObj js)]"
    using assms(2,5) by (auto simp: state_json_def split: option.splits)
  note vals = state_entries_values [OF js]
  have js_eq: "js = map (\<lambda>(k, rs). (k, the (state_entry_json cd rs))) (gm_sorted ?states)" using vals by blast
  have small: "min_int64 \<le> state_version" "state_version \<le> max_int64"
    by (simp_all add: state_version_def min_int64_def max_int64_def)
  have docker: "unmarshal cd decode_docker_envelope None (cd_text cd (docker_json (fst docs))) =
     (Some (put_all ?auths []), True)"
    using assms(1) by (simp add: unmarshal_def docs_read_back_def reads_back_def decode_docker_json)
  have state: "unmarshal cd decode_state_envelope (0, None) (cd_text cd j) =
     ((state_version, Some (put_all js [])), True)"
    using assms(1,2) small
    by (simp add: unmarshal_def docs_read_back_def reads_back_def j decode_state_envelope_def
        decode_struct_def fold_names decode_int_def decode_raw_map_def put_all_def)
  have i: "inspect cd (Some s) = \<lparr>in_secret = Some s, in_auths = Some (put_all ?auths []),
      in_states = Some (put_all js []), in_valid = (se_type s = secret_type_docker_config_json)\<rparr>"
    by (simp add: inspect_def docker state assms(6,7))
  have wf: "gm_wf ?auths" "gm_wf js"
    using assms(3,4) by (simp_all add: gm_wf_map_values js_eq)
  show "raw_entry (in_auths (inspect cd (Some s))) d = map_option auth_json (gm_get (dc_auths (fst docs)) d)"
    using assms(3) by (simp add: i raw_entry_def put_all_wf_get [OF wf(1)] map_of_map gm_get_sorted comp_def)
  show "raw_entry (in_states (inspect cd (Some s))) key =
      map_option (\<lambda>rs. the (state_entry_json cd rs)) (gm_get (ps_registries (snd docs)) key)"
    unfolding i raw_entry_def
    using assms(4) by (simp add: put_all_wf_get [OF wf(2)]) (simp add: js_eq map_of_map gm_get_sorted comp_def)
  show "in_valid (inspect cd (Some s)) \<longleftrightarrow> se_type s = secret_type_docker_config_json"
    by (simp add: i)
  assume "gm_get (ps_registries (snd docs)) key = Some rs"
  then have mem: "(key, rs) \<in> set ?states" by (rule gm_get_Some_mem)
  then have "(key, rs) \<in> set (gm_sorted ?states)" by simp
  then have "state_entry_json cd rs \<noteq> None" using vals by blast
  then obtain e where "state_entry_json cd rs = Some e" by blast
  then show "decode_state_entry cd (the (state_entry_json cd rs)) = (rs, True)"
    using decode_state_entry_json [of cd rs e] assms(1) mem by (auto simp: docs_read_back_def)
qed

lemma current_docs:
  assumes "registries_wf env (cs_registries snapshot)" "plain_keys (cs_registries snapshot)"
    and "(k, r) \<in> set (cs_registries snapshot)" "current_credential cd credentials (k, r) = Some v"
  shows "d \<in> set (rc_domains r) \<Longrightarrow>
      gm_get (dc_auths (fst (fst (build_documents cd snapshot credentials existing)))) d = Some (docker_auth_of v)"
    and "gm_get (ps_registries (snd (fst (build_documents cd snapshot credentials existing))))
      (key_string (config_key r)) = Some (registry_state_of cd r v)"
proof -
  show "gm_get (dc_auths (fst (fst (build_documents cd snapshot credentials existing)))) d = Some (docker_auth_of v)"
    if "d \<in> set (rc_domains r)"
    unfolding build_auths [OF assms(1)]
    using assms(3,4) that by (intro bexI [of _ "(k, r)"]) (simp_all add: auth_writes_mem)
  show "gm_get (ps_registries (snd (fst (build_documents cd snapshot credentials existing))))
      (key_string (config_key r)) = Some (registry_state_of cd r v)"
    unfolding build_states [OF assms(1,2)]
    using assms(3,4) by (intro bexI [of _ "(k, r)"]) (simp_all add: state_writes_def)
qed

lemma build_no_error:
  assumes "build cd snapshot credentials existing = (c, problems)" "has_auth c \<or> problems = []"
  obtains j where "state_json cd (snd (fst (build_documents cd snapshot credentials existing))) = Some j"
    "ct_docker_json c = cd_text cd (docker_json (fst (fst (build_documents cd snapshot credentials existing))))"
    "ct_state_json c = cd_text cd j"
proof -
  have "state_json cd (snd (fst (build_documents cd snapshot credentials existing))) \<noteq> None"
    using assms
    by (auto simp: build_unfold render_def has_auth_def empty_content_def split: prod.splits option.splits)
  then show ?thesis
    using that assms(1) by (auto simp: build_unfold render_def split: prod.splits option.splits)
qed

text \<open>
  C26: The metrics agree with the syncer: a Secret the syncer would leave alone, because it
  carries the built content, counts as synced for every registry that has a current, complete
  and unexpired credential, with that credential's expiration, whatever older entries the
  Secret retains for other registries. The rendered documents must be readable, and no region
  may contain a slash.
\<close>

theorem written_secret_synced:
  assumes "registries_wf env (cs_registries snapshot)" "plain_keys (cs_registries snapshot)"
    and "(k, r) \<in> set (cs_registries snapshot)" "current_credential cd credentials (k, r) = Some v"
    and "cr_username v \<noteq> []" "cr_password v \<noteq> []" "\<not> time_is_zero (cr_refreshed_at v)"
    and "cr_refreshed_at v < cr_expires_at v" "now < cr_expires_at v"
    and "build cd snapshot credentials existing = (c, problems)" "has_auth c"
    and "build cd snapshot credentials None = (c0, [])"
    and "docs_read_back cd (fst (build_documents cd snapshot credentials existing))"
    and "docs_read_back cd (fst (build_documents cd snapshot credentials None))"
    and "secret_matches s c" "\<not> se_deleting s"
  shows "registry_status cd (inspect cd (Some s)) r (inspect cd (Some (expected_secret c0))) now
    = (Synced, cr_expires_at v)"
proof -
  let ?docs = "\<lambda>e. fst (build_documents cd snapshot credentials e)"
  let ?rs = "registry_state_of cd r v" and ?key = "key_string (config_key r)"
  obtain j where j: "state_json cd (snd (?docs existing)) = Some j"
    "ct_docker_json c = cd_text cd (docker_json (fst (?docs existing)))" "ct_state_json c = cd_text cd j"
    using build_no_error [OF assms(10)] assms(11) by blast
  obtain j0 where j0: "state_json cd (snd (?docs None)) = Some j0"
    "ct_docker_json c0 = cd_text cd (docker_json (fst (?docs None)))" "ct_state_json c0 = cd_text cd j0"
    using build_no_error [OF assms(12)] by blast
  have wf: "gm_wf (dc_auths (fst (?docs e)))" "gm_wf (ps_registries (snd (?docs e)))" for e
    by (simp_all add: build_auths_writes build_states_writes)
  note real = inspect_rendered [OF assms(13) j(1) wf build_states_writes(2), of s]
  note want = inspect_rendered [OF assms(14) j0(1) wf build_states_writes(2), of "expected_secret c0"]
  have s: "gm_get0 [] (se_data s) docker_config_json_key = cd_text cd (docker_json (fst (?docs existing)))"
    "gm_get0 [] (se_annotations s) state_annotation_key = cd_text cd j"
    "se_type s = secret_type_docker_config_json" "is_managed (Some s)"
    using assms(15) j by (simp_all add: secret_matches_def is_managed_def)
  have x: "gm_get0 [] (se_data (expected_secret c0)) docker_config_json_key =
      cd_text cd (docker_json (fst (?docs None)))"
    "gm_get0 [] (se_annotations (expected_secret c0)) state_annotation_key = cd_text cd j0"
    using j0 by (simp_all add: expected_secret_def gm_get0_def)
  note docs = current_docs [OF assms(1-4)]
  have ne: "rc_domains r \<noteq> []" using assms(1,3) by (auto simp: registries_wf_def registry_wf_def)
  have usable: "state_usable ?rs"
    using assms(7,8) by (simp add: state_usable_def registry_state_of_def utc_def state_hash_def)
  have state: "raw_entry (in_states (inspect cd (Some s))) ?key = Some (the (state_entry_json cd ?rs))"
    "raw_entry (in_states (inspect cd (Some (expected_secret c0)))) ?key = Some (the (state_entry_json cd ?rs))"
    "decode_state_entry cd (the (state_entry_json cd ?rs)) = (?rs, True)"
    using real(2) [OF s(1,2)] real(4) [OF s(1,2) docs(2)] want(2) [OF x] docs(2) by simp_all
  have "domain_synced (inspect cd (Some s)) (inspect cd (Some (expected_secret c0))) d"
    if "d \<in> set (rc_domains r)" for d
    using real(1) [OF s(1,2)] want(1) [OF x] docs(1) [OF that] assms(5,6)
    by (simp add: domain_synced_def domain_auth_def auth_valid_def docker_auth_of_def)
  then show ?thesis
    unfolding synced_iff
    using s(3,4) assms(9,16) ne usable state real(3) [OF s(1,2)]
    by (auto simp: same_state_def registry_state_of_def utc_def)
qed

section \<open>Example\<close>

theorem written_secret_synced_witness:
  "\<exists>s c0. registry_status echo_codec (inspect echo_codec (Some s)) sample_current
     (inspect echo_codec (Some (expected_secret c0))) 0 = (Synced, second)"
proof -
  let ?v = "en_credential (sample_entry second sample_current)"
  obtain c problems where c: "build echo_codec sample_snapshot sample_credentials None = (c, problems)"
    by fastforce
  have "has_auth (fst (build echo_codec sample_snapshot sample_credentials None))
      \<and> snd (build echo_codec sample_snapshot sample_credentials None) = []" by code_simp
  with c have ok: "has_auth c" "build echo_codec sample_snapshot sample_credentials None = (c, [])"
    by simp_all
  have docs: "fst (build_documents echo_codec sample_snapshot sample_credentials None) = sample_docs"
    by code_simp
  have "stored_as (apply_content garbled_secret c) (apply_content garbled_secret c)"
    by (simp add: stored_as_def)
  note matches = stored_matches(1) [OF this]
  have live: "\<not> se_deleting (apply_content garbled_secret c)"
    by (simp add: apply_content_def garbled_secret_def foreign_secret_def)
  have plain: "plain_keys (cs_registries sample_snapshot)"
    by (simp add: plain_keys_def sample_snapshot_def)
  have item: "(sample_key, sample_current) \<in> set (cs_registries sample_snapshot)"
    by (simp add: sample_snapshot_def sample_key_def sample_current_def)
  have current: "current_credential echo_codec sample_credentials (sample_key, sample_current) = Some ?v"
    by code_simp
  have v: "cr_username ?v \<noteq> []" "cr_password ?v \<noteq> []" "\<not> time_is_zero (cr_refreshed_at ?v)"
    "cr_refreshed_at ?v < cr_expires_at ?v" "0 < cr_expires_at ?v" "cr_expires_at ?v = second"
    by code_simp+
  show ?thesis
    using written_secret_synced [OF sample_registries_wf plain item current v(1-5) c ok(1,2) _ _ matches live]
    unfolding docs v(6) using sample_docs_read_back by blast
qed

end
