(* ===== verification/Metrics.thy ===== *)
theory Metrics
  imports SecretInspection TokenProviders
begin

text \<open>
  \<open>internal/observability\<close>: the metrics of the controller, its log level and the options of
  the metrics server. Of the Prometheus client the model has what the code relies on: a counter
  vector is a map from labels to counts, in which \<open>WithLabelValues\<close> makes a missing series; a
  histogram is the list of observations; collected metrics are the list of what was sent.
\<close>

section \<open>Logging and the metrics server\<close>

datatype log_level = Level_Debug | Level_Info | Level_Warn | Level_Error

definition parse_log_level :: "string \<Rightarrow> log_level option" where
  "parse_log_level value =
     (if value = ''debug'' then Some Level_Debug
      else if value = ''info'' then Some Level_Info
      else if value = ''warn'' then Some Level_Warn
      else if value = ''error'' then Some Level_Error
      else None)"

text \<open>The level of the handler that becomes the default logger.\<close>

definition configure_logging :: "string \<Rightarrow> log_level option" where
  "configure_logging value =
     (case parse_log_level value of None \<Rightarrow> None | Some level \<Rightarrow> Some level)"

record server_options =
  sv_bind_address :: string
  sv_secure_serving :: bool
  sv_cert_dir :: string
  sv_authentication :: bool

datatype server_error = No_Certificate_Directory | Bad_Certificate

text \<open>\<open>load_key_pair\<close>: whether the directory holds a loadable \<open>tls.crt\<close> and \<open>tls.key\<close>.\<close>

definition server_options_of ::
  "(string \<Rightarrow> bool) \<Rightarrow> string \<Rightarrow> bool \<Rightarrow> string \<Rightarrow> (server_error, server_options) result" where
  "server_options_of load_key_pair address secure cert_dir =
     (let options = \<lparr>sv_bind_address = address, sv_secure_serving = False, sv_cert_dir = [],
                     sv_authentication = False\<rparr>
      in if \<not> secure \<or> address = ''0'' then Inr options
         else if cert_dir = [] then Inl No_Certificate_Directory
         else if \<not> load_key_pair cert_dir then Inl Bad_Certificate
         else Inr (options\<lparr>sv_secure_serving := True, sv_cert_dir := cert_dir,
                           sv_authentication := True\<rparr>))"

section \<open>State\<close>

datatype call_result = Call_Success | Call_Error

record metrics =
  mt_secret_name :: string
  mt_active :: bool
  mt_synced :: bool
  mt_requests :: "(string \<times> call_result, nat) gomap"
  mt_durations :: "(call_result \<times> duration) list"
  mt_known :: "registry_key list"

definition new_metrics :: "bool \<Rightarrow> bool \<Rightarrow> bool \<Rightarrow> bool \<Rightarrow> bool \<Rightarrow> string \<Rightarrow> (string \<Rightarrow> bool) \<Rightarrow> metrics option" where
  "new_metrics registerer config credentials reader wait secret_name register =
     (if \<not> registerer \<or> \<not> config \<or> \<not> credentials \<or> \<not> reader \<or> \<not> wait \<or> secret_name = [] then None
      else if \<not> register secret_name then None
      else Some \<lparr>mt_secret_name = secret_name, mt_active = False, mt_synced = False,
                 mt_requests = [], mt_durations = [], mt_known = []\<rparr>)"

text \<open>\<open>Start\<close> up to the end of the context, and what its deferred calls leave.\<close>

definition metrics_start :: "bool \<Rightarrow> metrics \<Rightarrow> metrics" where
  "metrics_start cache_synced m =
     (let m1 = m\<lparr>mt_active := True\<rparr> in if cache_synced then m1\<lparr>mt_synced := True\<rparr> else m1)"

definition metrics_stop :: "metrics \<Rightarrow> metrics" where
  "metrics_stop m = m\<lparr>mt_synced := False, mt_active := False\<rparr>"

definition touch_series :: "'k \<Rightarrow> ('k, nat) gomap \<Rightarrow> ('k, nat) gomap" where
  "touch_series labels counters =
     (case gm_get counters labels of None \<Rightarrow> gm_put labels 0 counters | Some _ \<Rightarrow> counters)"

definition inc_series :: "'k \<Rightarrow> ('k, nat) gomap \<Rightarrow> ('k, nat) gomap" where
  "inc_series labels counters = gm_put labels (gm_get0 0 counters labels + 1) counters"

definition registries_of :: "config_store \<Rightarrow> registry_map" where
  "registries_of config = (case store_load config of None \<Rightarrow> [] | Some s \<Rightarrow> cs_registries s)"

section \<open>The measured provider\<close>

definition record_call ::
  "config_store \<Rightarrow> duration \<Rightarrow> request \<Rightarrow> call_result \<Rightarrow> metrics \<Rightarrow> metrics" where
  "record_call config elapsed rq outcome m =
     (let m1 = m\<lparr>mt_durations := mt_durations m @ [(outcome, elapsed)]\<rparr>
      in case gm_get (registries_of config) (rq_key rq) of
           None \<Rightarrow> m1
         | Some _ \<Rightarrow>
             m1\<lparr>mt_known := List.insert (rq_key rq) (mt_known m1),
                mt_requests := inc_series (key_string (rq_key rq), outcome) (mt_requests m1)\<rparr>)"

text \<open>
  \<open>canceled\<close>: the context was canceled when the provider returned. The state is the metrics and
  the state of the wrapped provider.
\<close>

definition measured_get ::
  "('w \<Rightarrow> request \<Rightarrow> ('e, token) result \<times> 'w) \<Rightarrow> config_store \<Rightarrow> bool \<Rightarrow> duration
     \<Rightarrow> metrics \<times> 'w \<Rightarrow> request \<Rightarrow> ('e, token) result \<times> metrics \<times> 'w" where
  "measured_get get config canceled elapsed st rq =
     (case st of (m, w) \<Rightarrow>
        (case get w rq of (r, w') \<Rightarrow>
           if canceled then (r, m, w')
           else (r, record_call config elapsed rq
                      (case r of Inl _ \<Rightarrow> Call_Error | Inr _ \<Rightarrow> Call_Success) m, w')))"

section \<open>A scrape\<close>

datatype gauge = Gauge_Active | Gauge_Success | Gauge_Config | Gauge_Expiry | Gauge_Targets | Gauge_Oldest

datatype described = Described_Requests | Described_Durations | Described_Gauge gauge

definition describe :: "described list" where
  "describe =
     [Described_Requests, Described_Durations] @ map Described_Gauge
       [Gauge_Active, Gauge_Success, Gauge_Config, Gauge_Expiry, Gauge_Targets, Gauge_Oldest]"

datatype metric =
    Requests_Vector "(string \<times> call_result, nat) gomap"
  | Durations_Vector "(call_result \<times> duration) list"
  | Gauge gauge int "string list"

definition bool_value :: "bool \<Rightarrow> int" where
  "bool_value b = (if b then 1 else 0)"

record namespace_object =
  no_name :: string
  no_deleting :: bool
  no_terminating :: bool

text \<open>
  What a scrape reads: the flag of activity each time it is read (when shown, when tested, and
  after the result is assembled), the two lists of the cache, and the clock.
\<close>

record scrape =
  sc_active_shown :: bool
  sc_active :: bool
  sc_synced :: bool
  sc_namespaces :: "namespace_object list option"
  sc_secrets :: "secret list option"
  sc_still_active :: bool
  sc_now :: instant

definition refresh_series :: "registry_map \<Rightarrow> metrics \<Rightarrow> metrics" where
  "refresh_series registries m =
     (let gone = filter (\<lambda>k. gm_get registries k = None) (mt_known m);
          known = filter (\<lambda>k. gm_get registries k \<noteq> None) (mt_known m);
          requests = fold (\<lambda>k r. gm_del (key_string k, Call_Error) (gm_del (key_string k, Call_Success) r))
            gone (mt_requests m)
      in m\<lparr>mt_known := fold List.insert (gm_keys registries) known,
           mt_requests := fold (\<lambda>k r. touch_series (key_string k, Call_Error)
               (touch_series (key_string k, Call_Success) r)) (gm_keys registries) requests\<rparr>)"

type_synonym tally = "(registry_key, (target_state, nat) gomap) gomap \<times> (registry_key, instant) gomap"

definition tally_registry ::
  "codec \<Rightarrow> inspection \<Rightarrow> inspection \<Rightarrow> instant \<Rightarrow> registry_key \<times> registry_config \<Rightarrow> tally \<Rightarrow> tally" where
  "tally_registry cd actual expected now item t =
     (case (item, t) of ((key, registry), (counts, oldest)) \<Rightarrow>
        (case registry_status cd actual registry expected now of
           (state, expires) \<Rightarrow>
             (gm_put key (inc_series state (gm_get0 [] counts key)) counts,
              if \<not> time_is_zero expires
                 \<and> (time_is_zero (gm_get0 zero_time oldest key) \<or> expires < gm_get0 zero_time oldest key)
              then gm_put key expires oldest else oldest)))"

definition by_namespace :: "string \<Rightarrow> secret list \<Rightarrow> (string, secret) gomap" where
  "by_namespace name secrets =
     fold (\<lambda>s m. if se_name s = name then gm_put (se_namespace s) s m else m) secrets []"

definition live_target :: "configuration_snapshot \<Rightarrow> namespace_object \<Rightarrow> bool" where
  "live_target snapshot ns \<longleftrightarrow>
     \<not> (no_deleting ns \<or> no_terminating ns \<or> \<not> matches_namespace snapshot (no_name ns))"

definition tally_namespace ::
  "codec \<Rightarrow> configuration_snapshot \<Rightarrow> (string, secret) gomap \<Rightarrow> inspection \<Rightarrow> instant
     \<Rightarrow> namespace_object \<Rightarrow> tally \<Rightarrow> tally" where
  "tally_namespace cd snapshot secrets expected now ns t =
     (if \<not> live_target snapshot ns then t
      else fold (tally_registry cd (inspect cd (gm_get secrets (no_name ns))) expected now)
             (cs_registries snapshot) t)"

definition tally_all ::
  "codec \<Rightarrow> configuration_snapshot \<Rightarrow> (string, secret) gomap \<Rightarrow> inspection \<Rightarrow> instant
     \<Rightarrow> namespace_object list \<Rightarrow> tally" where
  "tally_all cd snapshot secrets expected now namespaces =
     fold (tally_namespace cd snapshot secrets expected now) namespaces
       (map (\<lambda>(key, _). (key, [])) (cs_registries snapshot), [])"

text \<open>The gauges of one registry.\<close>

definition registry_gauges ::
  "codec \<Rightarrow> (registry_key, entry) gomap \<Rightarrow> tally \<Rightarrow> registry_key \<times> registry_config \<Rightarrow> metric list" where
  "registry_gauges cd credentials t item =
     (case (item, t) of ((key, registry), (counts, oldest)) \<Rightarrow>
        map (\<lambda>state. Gauge Gauge_Targets (int (gm_get0 0 (gm_get0 [] counts key) state))
               [key_string key, state_label state]) target_states
        @ (case gm_get credentials key of
             None \<Rightarrow> []
           | Some e \<Rightarrow>
               if matches_registry (codec_digest cd) e registry
               then [Gauge Gauge_Expiry (cr_expires_at (en_credential e) div second) [key_string key]]
               else [])
        @ (if time_is_zero (gm_get0 zero_time oldest key) then []
           else [Gauge Gauge_Oldest (gm_get0 zero_time oldest key div second) [key_string key]]))"

definition collect ::
  "codec \<Rightarrow> config_store \<Rightarrow> cred_store \<Rightarrow> scrape \<Rightarrow> metrics \<Rightarrow> metrics \<times> metric list" where
  "collect cd config credential_store sc m =
     (let m1 = refresh_series (registries_of config) m;
          always = [Requests_Vector (mt_requests m1), Durations_Vector (mt_durations m1),
            Gauge Gauge_Active (bool_value (sc_active_shown sc)) [],
            Gauge Gauge_Config (bool_value (st_valid config)) []];
          failed = (m1, always @ [Gauge Gauge_Success 0 []])
      in if \<not> sc_active sc \<or> \<not> sc_synced sc then failed
         else (case store_load config of
             None \<Rightarrow> failed
           | Some snapshot \<Rightarrow>
               (case (sc_namespaces sc, sc_secrets sc) of
                  (Some namespaces, Some secrets) \<Rightarrow>
                    (let credentials = cred_snapshot credential_store
                     in case build cd snapshot credentials None of
                          (content, []) \<Rightarrow>
                            (let t = tally_all cd snapshot (by_namespace (mt_secret_name m) secrets)
                                   (inspect cd (Some (expected_secret content))) (sc_now sc) namespaces
                             in if \<not> sc_still_active sc then failed
                                else (m1, always @ [Gauge Gauge_Success 1 []]
                                  @ concat (map (registry_gauges cd credentials t) (cs_registries snapshot))))
                        | (_, _ # _) \<Rightarrow> failed)
                | _ \<Rightarrow> failed)))"

section \<open>Counting\<close>

text \<open>How often a state was counted for a registry.\<close>

definition tallied :: "tally \<Rightarrow> registry_key \<Rightarrow> target_state \<Rightarrow> nat" where
  "tallied t k state = gm_get0 0 (gm_get0 [] (fst t) k) state"

abbreviation status_in ::
  "codec \<Rightarrow> (string, secret) gomap \<Rightarrow> inspection \<Rightarrow> instant \<Rightarrow> registry_config \<Rightarrow> namespace_object \<Rightarrow> target_state" where
  "status_in cd secrets expected now r ns \<equiv>
     fst (registry_status cd (inspect cd (gm_get secrets (no_name ns))) r expected now)"

lemma gm_get0_inc:
  "gm_get0 0 (inc_series l m) l' = gm_get0 0 m l' + (if l' = l then 1 else 0)"
  by (simp add: inc_series_def)

lemma tallied_registry:
  "tallied (tally_registry cd i expected now (k', r') t) k state =
     tallied t k state + (if k' = k \<and> fst (registry_status cd i r' expected now) = state then 1 else 0)"
proof -
  obtain counts oldest where t: "t = (counts, oldest)" by (cases t)
  obtain st e where s: "registry_status cd i r' expected now = (st, e)" by fastforce
  show ?thesis by (simp add: tally_registry_def t s tallied_def gm_get0_inc)
qed

lemma tallied_registries_other:
  "k \<notin> fst ` set items \<Longrightarrow> tallied (fold (tally_registry cd i expected now) items t) k state = tallied t k state"
  by (induction items arbitrary: t) (auto simp: tallied_registry)

lemma tallied_registries:
  assumes "gm_wf items" "(k, r) \<in> set items"
  shows "tallied (fold (tally_registry cd i expected now) items t) k state =
     tallied t k state + (if fst (registry_status cd i r expected now) = state then 1 else 0)"
  using assms
proof (induction items arbitrary: t)
  case (Cons item items)
  obtain k' r' where item: "item = (k', r')" by (cases item)
  have wf: "gm_wf items" "k' \<notin> fst ` set items" using Cons.prems(1) by (auto simp: gm_wf_def item)
  show ?case
  proof (cases "k' = k")
    case True
    then have "r' = r" using Cons.prems wf(2) by (force simp: item)
    then show ?thesis using True wf(2) by (simp add: item tallied_registries_other tallied_registry)
  next
    case False
    then show ?thesis using Cons.IH [OF wf(1)] Cons.prems(2) by (simp add: item tallied_registry)
  qed
qed simp

lemma tallied_all:
  assumes "gm_wf (cs_registries snapshot)" "(k, r) \<in> set (cs_registries snapshot)"
  shows "tallied (tally_all cd snapshot secrets expected now namespaces) k state =
     length (filter (\<lambda>ns. live_target snapshot ns \<and> status_in cd secrets expected now r ns = state) namespaces)"
proof -
  let ?start = "(map (\<lambda>(key, _). (key, [])) (cs_registries snapshot), []) :: tally"
  have "tallied (fold (tally_namespace cd snapshot secrets expected now) nss t) k state = tallied t k state
      + length (filter (\<lambda>ns. live_target snapshot ns \<and> status_in cd secrets expected now r ns = state) nss)"
    for nss t
    by (induction nss arbitrary: t) (simp_all add: tally_namespace_def tallied_registries [OF assms])
  moreover have "tallied ?start k state = 0"
    by (simp add: tallied_def gm_get0_def map_of_map comp_def split: option.split)
  ultimately show ?thesis by (simp add: tally_all_def)
qed

lemma states_partition:
  "(\<Sum>state \<leftarrow> target_states. length (filter (\<lambda>x. P x \<and> f x = state) xs)) = length (filter P xs)"
proof (induction xs)
  case (Cons x xs)
  then show ?case by (cases "f x") (auto simp: target_states_def)
qed (simp add: target_states_def)

section \<open>Properties of a scrape\<close>

definition business_gauge :: "metric \<Rightarrow> bool" where
  "business_gauge x = (case x of Gauge g _ _ \<Rightarrow> g \<in> {Gauge_Targets, Gauge_Expiry, Gauge_Oldest} | _ \<Rightarrow> False)"

text \<open>The readings with which a scrape counts as an observation.\<close>

definition observes :: "codec \<Rightarrow> config_store \<Rightarrow> cred_store \<Rightarrow> scrape \<Rightarrow> bool" where
  "observes cd config credentials sc \<longleftrightarrow>
     sc_active sc \<and> sc_synced sc \<and> sc_still_active sc \<and> sc_namespaces sc \<noteq> None \<and> sc_secrets sc \<noteq> None
     \<and> (case store_load config of
          None \<Rightarrow> False
        | Some snapshot \<Rightarrow> snd (build cd snapshot (cst_current credentials) None) = [])"

definition common_metrics :: "config_store \<Rightarrow> scrape \<Rightarrow> metrics \<Rightarrow> metric list" where
  "common_metrics config sc m =
     [Requests_Vector (mt_requests m), Durations_Vector (mt_durations m),
      Gauge Gauge_Active (bool_value (sc_active_shown sc)) [],
      Gauge Gauge_Config (bool_value (st_valid config)) []]"

definition target_gauges :: "codec \<Rightarrow> config_store \<Rightarrow> cred_store \<Rightarrow> scrape \<Rightarrow> metrics \<Rightarrow> metric list" where
  "target_gauges cd config credentials sc m =
     (let snapshot = the (store_load config);
          content = fst (build cd snapshot (cst_current credentials) None)
      in concat (map (registry_gauges cd (cst_current credentials)
           (tally_all cd snapshot (by_namespace (mt_secret_name m) (the (sc_secrets sc)))
              (inspect cd (Some (expected_secret content))) (sc_now sc) (the (sc_namespaces sc))))
           (cs_registries snapshot)))"

lemma collect_cases:
  "snd (collect cd config credentials sc m) =
     common_metrics config sc (refresh_series (registries_of config) m) @
     (if observes cd config credentials sc
      then Gauge Gauge_Success 1 [] # target_gauges cd config credentials sc m
      else [Gauge Gauge_Success 0 []])"
proof -
  have common: "mt_durations (refresh_series (registries_of config) m) = mt_durations m"
    by (simp add: refresh_series_def Let_def)
  show ?thesis
    by (auto simp: collect_def observes_def common_metrics_def target_gauges_def Let_def common
        split: option.split prod.split list.split)
qed

lemma registry_gauges_business: "x \<in> set (registry_gauges cd credentials t item) \<Longrightarrow> business_gauge x"
  by (auto simp: registry_gauges_def business_gauge_def split: prod.splits option.splits if_splits)

lemma target_gauges_business: "x \<in> set (target_gauges cd config credentials sc m) \<Longrightarrow> business_gauge x"
  unfolding target_gauges_def Let_def using registry_gauges_business by fastforce

lemma success_gauge:
  "Gauge Gauge_Success n [] \<in> set (snd (collect cd config credentials sc m)) \<longleftrightarrow>
     n = bool_value (observes cd config credentials sc)"
proof -
  have "\<not> business_gauge (Gauge Gauge_Success n [])" by (simp add: business_gauge_def)
  then have "Gauge Gauge_Success n [] \<notin> set (target_gauges cd config credentials sc m)"
    using target_gauges_business by blast
  then show ?thesis by (simp add: collect_cases common_metrics_def bool_value_def)
qed

text \<open>
  C27: A scrape reports success exactly if this process is the active leader before and after
  assembling it, the caches have synchronized, a configuration is loaded, both lists can be
  read and the expected content can be built; it reports success or failure, never both, and
  without success it sends no gauge about targets or expirations, so that what could not be
  observed is never shown as zero.
\<close>

theorem failed_scrape_is_silent:
  "(Gauge Gauge_Success 1 [] \<in> set (snd (collect cd config credentials sc m)) \<longleftrightarrow>
      observes cd config credentials sc)
   \<and> (Gauge Gauge_Success 0 [] \<in> set (snd (collect cd config credentials sc m)) \<longleftrightarrow>
      Gauge Gauge_Success 1 [] \<notin> set (snd (collect cd config credentials sc m)))
   \<and> (observes cd config credentials sc
      \<or> filter business_gauge (snd (collect cd config credentials sc m)) = [])"
proof -
  have "filter business_gauge (snd (collect cd config credentials sc m)) = []"
    if "\<not> observes cd config credentials sc"
    using that by (simp add: collect_cases common_metrics_def business_gauge_def)
  then show ?thesis unfolding success_gauge by (auto simp: bool_value_def)
qed

text \<open>
  In a successful scrape the gauge of a registry and a state is the number of live target
  namespaces whose Secret has that status for the registry, against the content that would be
  built now; the five states of a registry add up to the number of live target namespaces.
\<close>

lemma scrape_counts_targets:
  assumes "store_load config = Some snapshot" "gm_wf (cs_registries snapshot)"
    and "(k, r) \<in> set (cs_registries snapshot)"
    and "sc_namespaces sc = Some namespaces" "sc_secrets sc = Some secrets"
    and "build cd snapshot (cst_current credentials) None = (content, [])"
    and "observes cd config credentials sc"
    and "targets_in = (\<lambda>state. length (filter (\<lambda>ns. live_target snapshot ns
      \<and> status_in cd (by_namespace (mt_secret_name m) secrets) (inspect cd (Some (expected_secret content)))
          (sc_now sc) r ns = state) namespaces))"
  shows "list_all (\<lambda>state. Gauge Gauge_Targets (int (targets_in state)) [key_string k, state_label state]
      \<in> set (snd (collect cd config credentials sc m))) target_states
    \<and> (\<Sum>state \<leftarrow> target_states. targets_in state) = length (filter (live_target snapshot) namespaces)"
proof
  let ?t = "tally_all cd snapshot (by_namespace (mt_secret_name m) secrets)
    (inspect cd (Some (expected_secret content))) (sc_now sc) namespaces"
  have gauges: "set (registry_gauges cd (cst_current credentials) ?t (k, r))
      \<subseteq> set (snd (collect cd config credentials sc m))"
    using assms(1,3-7) by (auto simp: collect_cases target_gauges_def Let_def)
  have "Gauge Gauge_Targets (int (targets_in state)) [key_string k, state_label state]
      \<in> set (registry_gauges cd (cst_current credentials) ?t (k, r))" if "state \<in> set target_states" for state
    using that by (simp add: registry_gauges_def case_prod_beta assms(8)
        tallied_all [OF assms(2,3), unfolded tallied_def])
  with gauges show "list_all (\<lambda>state. Gauge Gauge_Targets (int (targets_in state)) [key_string k, state_label state]
      \<in> set (snd (collect cd config credentials sc m))) target_states"
    by (auto simp: list_all_iff)
  show "(\<Sum>state \<leftarrow> target_states. targets_in state) = length (filter (live_target snapshot) namespaces)"
    unfolding assms(8) by (rule states_partition)
qed

section \<open>The counters\<close>

text \<open>Every series belongs to a known registry, so a registry that leaves takes its series along.\<close>

definition metrics_wf :: "metrics \<Rightarrow> bool" where
  "metrics_wf m \<longleftrightarrow> (\<forall>s outcome. gm_get (mt_requests m) (s, outcome) \<noteq> None \<longrightarrow>
     (\<exists>k \<in> set (mt_known m). s = key_string k))"

lemma touch_series_get:
  "gm_get (touch_series l m) l' = None \<longleftrightarrow> l' \<noteq> l \<and> gm_get m l' = None"
  by (auto simp: touch_series_def map_laws split: option.splits)

lemma touch_all_get:
  "gm_get (fold (\<lambda>k r. touch_series (key_string k, Call_Error)
       (touch_series (key_string k, Call_Success) r)) ks m) (s, outcome) = None \<longleftrightarrow>
     s \<notin> key_string ` set ks \<and> gm_get m (s, outcome) = None"
proof (induction ks arbitrary: m)
  case (Cons k ks)
  show ?case
    unfolding fold_simps comp_def Cons.IH touch_series_get by (cases outcome) auto
qed simp

lemma drop_all_get:
  "gm_get (fold (\<lambda>k r. gm_del (key_string k, Call_Error) (gm_del (key_string k, Call_Success) r)) ks m)
     (s, outcome) = (if s \<in> key_string ` set ks then None else gm_get m (s, outcome))"
proof (induction ks arbitrary: m)
  case (Cons k ks)
  show ?case unfolding fold_simps comp_def Cons.IH by (cases outcome) (auto simp: map_laws)
qed simp

lemma insert_all_set: "set (fold List.insert ks xs) = set ks \<union> set xs"
  by (induction ks arbitrary: xs) auto

lemma known_after: "set (mt_known (refresh_series registries m)) = set (gm_keys registries)"
  by (auto simp: refresh_series_def Let_def insert_all_set gm_keys_get)

lemma series_after:
  assumes "metrics_wf m"
  shows "gm_get (mt_requests (refresh_series registries m)) (s, outcome) \<noteq> None \<longleftrightarrow>
     s \<in> key_string ` set (gm_keys registries)"
proof -
  have "s \<in> key_string ` set (gm_keys registries)"
    if "gm_get (mt_requests m) (s, outcome) \<noteq> None"
      "s \<notin> key_string ` set (filter (\<lambda>k. gm_get registries k = None) (mt_known m))"
  proof -
    from assms that(1) obtain k where k: "k \<in> set (mt_known m)" "s = key_string k"
      unfolding metrics_wf_def by blast
    with that(2) have "gm_get registries k \<noteq> None" by auto
    with k show ?thesis by (auto simp: gm_keys_get)
  qed
  then have "gm_get (mt_requests (refresh_series registries m)) (s, outcome) = None \<longleftrightarrow>
      s \<notin> key_string ` set (gm_keys registries)"
    unfolding refresh_series_def Let_def
    by (cases "gm_get (mt_requests m) (s, outcome)") (auto simp: touch_all_get drop_all_get)
  then show ?thesis by simp
qed

lemma refresh_series_wf: "metrics_wf m \<Longrightarrow> metrics_wf (refresh_series registries m)"
  using series_after known_after by (auto simp: metrics_wf_def)

lemma record_call_wf: "metrics_wf m \<Longrightarrow> metrics_wf (record_call config elapsed rq outcome m)"
  by (auto simp: metrics_wf_def record_call_def Let_def inc_series_def map_laws split: option.split if_splits)

lemma collect_fst: "fst (collect cd config credentials sc m) = refresh_series (registries_of config) m"
  by (auto simp: collect_def Let_def split: option.split prod.split list.split)

text \<open>A run: scrapes, and completed or canceled calls of a provider, under any configurations.\<close>

datatype metrics_event =
    Scraped codec config_store cred_store scrape
  | Called config_store bool duration request call_result

fun metrics_step :: "metrics_event \<Rightarrow> metrics \<Rightarrow> metrics" where
  "metrics_step (Scraped cd config credentials sc) m = fst (collect cd config credentials sc m)"
| "metrics_step (Called config canceled elapsed rq outcome) m =
     (if canceled then m else record_call config elapsed rq outcome m)"

definition metrics_run :: "metrics_event list \<Rightarrow> metrics \<Rightarrow> metrics" where
  "metrics_run events m = fold metrics_step events m"

lemma metrics_run_wf: "metrics_wf m \<Longrightarrow> metrics_wf (metrics_run events m)"
proof (induction events rule: rev_induct)
  case (snoc e events)
  then show ?case
    by (cases e) (simp_all add: metrics_run_def collect_fst refresh_series_wf record_call_wf)
qed (simp add: metrics_run_def)

text \<open>
  The request counters never outgrow the configuration: whatever calls were counted and
  scrapes made before, under whatever configurations, a scrape leaves exactly the two series,
  success and error, of every configured registry.
\<close>

lemma series_follow_configuration:
  assumes "new_metrics a b c d e name register = Some m"
  shows "gm_get (mt_requests (metrics_run (events @ [Scraped cd config credentials sc]) m)) (s, outcome) \<noteq> None
    \<longleftrightarrow> (\<exists>k r. gm_get (registries_of config) k = Some r \<and> s = key_string k)"
proof -
  have "metrics_wf m"
    using assms by (auto simp: new_metrics_def metrics_wf_def split: if_splits)
  then have "metrics_wf (metrics_run events m)" by (rule metrics_run_wf)
  from series_after [OF this, of "registries_of config" s outcome] show ?thesis
    by (auto simp: metrics_run_def collect_fst gm_keys_get)
qed

section \<open>The measured provider\<close>

context token_provider begin

lemma measured_nonempty:
  assumes "measured_get get config canceled elapsed st rq = (Inr t, st')"
  shows "tk_username t \<noteq> [] \<and> tk_password t \<noteq> []"
  using assms get_nonempty by (auto simp: measured_get_def split: prod.splits if_splits)

end

interpretation measured_acr: token_provider "measured_get (acr_get_authorization_token world) config canceled elapsed"
  for world config canceled elapsed
  by unfold_locales (rule acr.measured_nonempty)

interpretation measured_mock: token_provider
  "measured_get (\<lambda>p. mock_get_authorization_token p ended now) config canceled elapsed"
  for ended now config canceled elapsed
  by unfold_locales (rule mock.measured_nonempty)

text \<open>
  Measuring a provider is transparent: the wrapped provider's answer and state come out
  unchanged, so a token is as complete as the ACR provider makes it, and exactly the
  counter of this registry and result grows, by one, if the registry is configured and the
  call was not canceled; no other counter changes.
\<close>

lemma measured_provider_transparent:
  assumes "measured_get (acr_get_authorization_token world) config canceled elapsed (m, w) rq = (r, m', w')"
  shows "acr_get_authorization_token world w rq = (r, w')
    \<and> (\<forall>t. r = Inr t \<longrightarrow> tk_username t \<noteq> [] \<and> tk_password t \<noteq> [])
    \<and> gm_get0 0 (mt_requests m') (s, outcome) = gm_get0 0 (mt_requests m) (s, outcome) +
        (if \<not> canceled \<and> gm_get (registries_of config) (rq_key rq) \<noteq> None \<and> s = key_string (rq_key rq)
            \<and> (outcome = Call_Success \<longleftrightarrow> \<not> isl r) then 1 else 0)"
proof -
  have "\<forall>t. r = Inr t \<longrightarrow> tk_username t \<noteq> [] \<and> tk_password t \<noteq> []"
    using assms measured_acr.get_nonempty by blast
  moreover have "acr_get_authorization_token world w rq = (r, w')"
    using assms by (auto simp: measured_get_def split: prod.splits if_splits)
  moreover from this have "m' = (if canceled then m else record_call config elapsed rq
      (case r of Inl _ \<Rightarrow> Call_Error | Inr _ \<Rightarrow> Call_Success) m)"
    using assms by (auto simp: measured_get_def split: if_splits)
  ultimately show ?thesis
    by (cases outcome) (auto simp: record_call_def Let_def gm_get0_inc split: option.splits sum.splits)
qed

section \<open>Examples\<close>

definition sample_scrape :: scrape where
  "sample_scrape =
     \<lparr>sc_active_shown = True, sc_active = True, sc_synced = True,
      sc_namespaces = Some [\<lparr>no_name = ''prod'', no_deleting = False, no_terminating = False\<rparr>,
        \<lparr>no_name = ''prod-2'', no_deleting = True, no_terminating = False\<rparr>],
      sc_secrets = Some [], sc_still_active = True, sc_now = 0\<rparr>"

definition sample_config :: config_store where
  "sample_config = fst (store_apply empty_store sample_snapshot)"

definition sample_cred_store :: cred_store where
  "sample_cred_store = \<lparr>cst_current = sample_credentials, cst_next_revision = 1\<rparr>"

definition sample_metrics :: metrics where
  "sample_metrics = \<lparr>mt_secret_name = ''pull'', mt_active = False, mt_synced = False,
     mt_requests = [], mt_durations = [], mt_known = []\<rparr>"

lemma sample_config_load: "store_load sample_config = Some (sample_snapshot\<lparr>cs_generation := 1\<rparr>)"
  by (simp add: sample_config_def store_apply_def empty_store_def Let_def)

lemma scrape_counts_targets_witness:
  "Gauge Gauge_Targets 1 [key_string sample_key, ''pending'']
     \<in> set (snd (collect echo_codec sample_config sample_cred_store sample_scrape sample_metrics))"
proof -
  let ?snapshot = "sample_snapshot\<lparr>cs_generation := 1\<rparr>"
  let ?nss = "[\<lparr>no_name = ''prod'', no_deleting = False, no_terminating = False\<rparr>,
        \<lparr>no_name = ''prod-2'', no_deleting = True, no_terminating = False\<rparr>]"
  have wf: "gm_wf (cs_registries ?snapshot)"
    using sample_registries_wf by (simp add: registries_wf_def)
  have item: "(sample_key, sample_current) \<in> set (cs_registries ?snapshot)"
    by (simp add: sample_snapshot_def sample_key_def sample_current_def)
  have "snd (build echo_codec ?snapshot (cst_current sample_cred_store) None) = []" by code_simp
  then obtain content where built:
    "build echo_codec ?snapshot (cst_current sample_cred_store) None = (content, [])"
    by (metis prod.collapse)
  have lists: "sc_namespaces sample_scrape = Some ?nss" "sc_secrets sample_scrape = Some []"
    by (simp_all add: sample_scrape_def)
  have obs: "observes echo_codec sample_config sample_cred_store sample_scrape"
    unfolding observes_def sample_config_load using built by (simp add: sample_scrape_def)
  have "matches_namespace ?snapshot ''prod''" by code_simp
  then have "filter (\<lambda>ns. live_target ?snapshot ns
      \<and> status_in echo_codec (by_namespace (mt_secret_name sample_metrics) [])
          (inspect echo_codec (Some (expected_secret content))) (sc_now sample_scrape) sample_current ns = Pending)
      ?nss = [hd ?nss]"
    by (simp add: live_target_def by_namespace_def inspect_def registry_status_def)
  then have "length (filter (\<lambda>ns. live_target ?snapshot ns
      \<and> status_in echo_codec (by_namespace (mt_secret_name sample_metrics) [])
          (inspect echo_codec (Some (expected_secret content))) (sc_now sample_scrape) sample_current ns = Pending)
      ?nss) = 1" by simp
  then show ?thesis
    using scrape_counts_targets [OF sample_config_load wf item lists built obs refl, of sample_metrics]
    by (simp add: target_states_def)
qed

lemma series_follow_configuration_witness:
  "gm_get (mt_requests (metrics_run [Scraped echo_codec sample_config sample_cred_store sample_scrape]
     sample_metrics)) (key_string sample_key, Call_Error) \<noteq> None"
proof -
  have new: "new_metrics True True True True True ''pull'' (\<lambda>_. True) = Some sample_metrics"
    by (simp add: new_metrics_def sample_metrics_def)
  have "gm_get (registries_of sample_config) sample_key \<noteq> None" by code_simp
  then show ?thesis
    using series_follow_configuration [OF new, of "[]" echo_codec sample_config sample_cred_store
        sample_scrape "key_string sample_key" Call_Error] by auto
qed

text \<open>An SDK that answers every call with an empty response.\<close>

definition silent_world :: "(unit, unit) acr_env" where
  "silent_world = \<lparr>ae_new_client = (\<lambda>_ _. Some ()), ae_invoke = (\<lambda>w _ _ _. (Inr None, w))\<rparr>"

lemma measured_provider_transparent_witness:
  "fst (measured_get (acr_get_authorization_token silent_world) sample_config False 7 (sample_metrics, ())
     sample_request) = Inl Empty_Response"
proof -
  obtain r m' w' where run: "measured_get (acr_get_authorization_token silent_world) sample_config False 7
      (sample_metrics, ()) sample_request = (r, m', w')" by (metis prod_cases3)
  have "fst (acr_get_authorization_token silent_world () sample_request) = Inl Empty_Response" by code_simp
  with measured_provider_transparent [OF run] run show ?thesis by simp
qed

end
