(* ===== verification/ControllerCommand.thy ===== *)
theory ControllerCommand
  imports ResourceReconcilers SchedulerSafety Metrics
begin

text \<open>
  The two commands: \<open>cmd/controller\<close> with its command line, and the end-to-end controller
  \<open>cmd/e2e-controller\<close> that runs the same wiring with a mock provider. The package \<open>flag\<close> of
  the standard library is written out; \<open>strconv.ParseFloat\<close> and \<open>ParseInt\<close> with base 0 are
  arguments. What the cluster, the manager and the file system answer is a \<open>startup\<close>.
\<close>

section \<open>The package flag\<close>

datatype flag_kind = Bool_Flag | Value_Flag

datatype flag_error =
    Help_Requested
  | Bad_Flag_Syntax string
  | Flag_Not_Defined string
  | Flag_Needs_Argument string
  | Invalid_Flag_Value string string

definition parse_bool :: "string \<Rightarrow> bool option" where
  "parse_bool s =
     (if s \<in> set [''1'', ''t'', ''T'', ''true'', ''TRUE'', ''True''] then Some True
      else if s \<in> set [''0'', ''f'', ''F'', ''false'', ''FALSE'', ''False''] then Some False
      else None)"

text \<open>The name of an argument \<open>-name\<close>, \<open>--name\<close>, \<open>--name=value\<close>; the value if it has one.\<close>

definition split_flag :: "string \<Rightarrow> string \<times> string option" where
  "split_flag s =
     (let name = takeWhile (\<lambda>c. c \<noteq> CHR ''='') s; rest = dropWhile (\<lambda>c. c \<noteq> CHR ''='') s
      in (name, case rest of [] \<Rightarrow> None | _ # value \<Rightarrow> Some value))"

definition without_minuses :: "string \<Rightarrow> string option" where
  "without_minuses s =
     (if length s < 2 \<or> hd s \<noteq> CHR ''-'' then None
      else if s ! 1 = CHR ''-'' then Some (drop 2 s) else Some (drop 1 s))"

text \<open>
  \<open>FlagSet.Parse\<close>: \<open>set\<close> stores the value of a flag, or refuses it. The result is what was set
  and the arguments that are left.
\<close>

fun parse_flags ::
  "(string, flag_kind) gomap \<Rightarrow> (string \<Rightarrow> string \<Rightarrow> 'o \<Rightarrow> 'o option) \<Rightarrow> string list \<Rightarrow> 'o
     \<Rightarrow> (flag_error, 'o \<times> string list) result" where
  "parse_flags flags set_value [] o0 = Inr (o0, [])"
| "parse_flags flags set_value (s # rest) o0 =
     (case without_minuses s of
        None \<Rightarrow> Inr (o0, s # rest)
      | Some body \<Rightarrow>
          if s = ''--'' then Inr (o0, rest)
          else if body = [] \<or> hd body = CHR ''-'' \<or> hd body = CHR ''='' then Inl (Bad_Flag_Syntax s)
          else (case split_flag body of (name, inline) \<Rightarrow>
            (case gm_get flags name of
               None \<Rightarrow>
                 if name = ''help'' \<or> name = ''h'' then Inl Help_Requested
                 else Inl (Flag_Not_Defined name)
             | Some Bool_Flag \<Rightarrow>
                 (case set_value name (case inline of None \<Rightarrow> ''true'' | Some v \<Rightarrow> v) o0 of
                    None \<Rightarrow> Inl (Invalid_Flag_Value name (case inline of None \<Rightarrow> ''true'' | Some v \<Rightarrow> v))
                  | Some o1 \<Rightarrow> parse_flags flags set_value rest o1)
             | Some Value_Flag \<Rightarrow>
                 (case inline of
                    Some v \<Rightarrow>
                      (case set_value name v o0 of
                         None \<Rightarrow> Inl (Invalid_Flag_Value name v)
                       | Some o1 \<Rightarrow> parse_flags flags set_value rest o1)
                  | None \<Rightarrow>
                      (case rest of
                         [] \<Rightarrow> Inl (Flag_Needs_Argument name)
                       | v # rest' \<Rightarrow>
                           (case set_value name v o0 of
                              None \<Rightarrow> Inl (Invalid_Flag_Value name v)
                            | Some o1 \<Rightarrow> parse_flags flags set_value rest' o1))))))"

section \<open>The command line of the controller\<close>

definition user_agent :: string where "user_agent = ''kubernetes-registry-secret-controller''"
definition default_metrics_address :: string where "default_metrics_address = '':8080''"
definition default_health_address :: string where "default_health_address = '':8081''"
definition graceful_shutdown_timeout :: duration where "graceful_shutdown_timeout = 30 * second"

record command_options =
  op_metrics_secure :: bool
  op_metrics_cert_dir :: string
  op_log_level :: string
  op_kubeconfig :: string
  op_metrics_address :: string
  op_health_address :: string
  op_leader_election :: bool
  op_kube_api_qps :: float64
  op_kube_api_burst :: int
  op_namespace_reconciles :: int
  op_service_account_reconciles :: int

definition default_command_options :: command_options where
  "default_command_options =
     \<lparr>op_metrics_secure = False, op_metrics_cert_dir = [], op_log_level = ''info'', op_kubeconfig = [],
      op_metrics_address = default_metrics_address, op_health_address = default_health_address,
      op_leader_election = True, op_kube_api_qps = default_kube_api_qps,
      op_kube_api_burst = default_kube_api_burst,
      op_namespace_reconciles = default_max_concurrent_namespace_reconciles,
      op_service_account_reconciles = default_max_concurrent_service_account_reconciles\<rparr>"

definition command_flags :: "(string, flag_kind) gomap" where
  "command_flags =
     [(''metrics-secure'', Bool_Flag), (''metrics-cert-dir'', Value_Flag), (''log-level'', Value_Flag),
      (''kubeconfig'', Value_Flag), (''metrics-bind-address'', Value_Flag),
      (''health-probe-bind-address'', Value_Flag), (''leader-elect'', Bool_Flag),
      (''kube-api-qps'', Value_Flag), (''kube-api-burst'', Value_Flag),
      (''max-concurrent-namespace-reconciles'', Value_Flag),
      (''max-concurrent-service-account-reconciles'', Value_Flag)]"

definition set_command_flag ::
  "parse_env \<Rightarrow> (string \<Rightarrow> int option) \<Rightarrow> string \<Rightarrow> string \<Rightarrow> command_options \<Rightarrow> command_options option" where
  "set_command_flag env parse_int name v opts =
     (if name = ''metrics-secure'' then map_option (\<lambda>b. opts\<lparr>op_metrics_secure := b\<rparr>) (parse_bool v)
      else if name = ''metrics-cert-dir'' then Some (opts\<lparr>op_metrics_cert_dir := v\<rparr>)
      else if name = ''log-level'' then Some (opts\<lparr>op_log_level := v\<rparr>)
      else if name = ''kubeconfig'' then Some (opts\<lparr>op_kubeconfig := v\<rparr>)
      else if name = ''metrics-bind-address'' then Some (opts\<lparr>op_metrics_address := v\<rparr>)
      else if name = ''health-probe-bind-address'' then Some (opts\<lparr>op_health_address := v\<rparr>)
      else if name = ''leader-elect'' then map_option (\<lambda>b. opts\<lparr>op_leader_election := b\<rparr>) (parse_bool v)
      else if name = ''kube-api-qps'' then map_option (\<lambda>q. opts\<lparr>op_kube_api_qps := q\<rparr>) (parse_float env v)
      else if name = ''kube-api-burst'' then map_option (\<lambda>n. opts\<lparr>op_kube_api_burst := n\<rparr>) (parse_int v)
      else if name = ''max-concurrent-namespace-reconciles''
      then map_option (\<lambda>n. opts\<lparr>op_namespace_reconciles := n\<rparr>) (parse_int v)
      else if name = ''max-concurrent-service-account-reconciles''
      then map_option (\<lambda>n. opts\<lparr>op_service_account_reconciles := n\<rparr>) (parse_int v)
      else None)"

datatype command_error =
    Flags_Rejected flag_error
  | Bad_Log_Level
  | Unexpected_Arguments "string list"
  | Bad_QPS
  | Bad_Burst int
  | Bad_Namespace_Workers int
  | Bad_Service_Account_Workers int

definition parse_command_options ::
  "parse_env \<Rightarrow> (string \<Rightarrow> int option) \<Rightarrow> string list \<Rightarrow> (command_error, command_options) result" where
  "parse_command_options env parse_int args =
     (case parse_flags command_flags (set_command_flag env parse_int) args default_command_options of
        Inl err \<Rightarrow> Inl (Flags_Rejected err)
      | Inr (opts, rest) \<Rightarrow>
          if parse_log_level (op_log_level opts) = None then Inl Bad_Log_Level
          else if rest \<noteq> [] then Inl (Unexpected_Arguments rest)
          else if \<not> validate_qps (op_kube_api_qps opts) then Inl Bad_QPS
          else if op_kube_api_burst opts < 1 then Inl (Bad_Burst (op_kube_api_burst opts))
          else if op_namespace_reconciles opts < 1
          then Inl (Bad_Namespace_Workers (op_namespace_reconciles opts))
          else if op_service_account_reconciles opts < 1
          then Inl (Bad_Service_Account_Workers (op_service_account_reconciles opts))
          else Inr opts)"

section \<open>Wiring\<close>

text \<open>
  What start-up asks of the world: loading the client configuration, registering the scheme,
  creating the bootstrap client, reading the ConfigMap, whether the context was canceled, the
  TLS files, creating the manager, and its answers to each registration and to \<open>Start\<close>.
\<close>

record startup =
  su_rest_config :: "string \<Rightarrow> bool"
  su_scheme :: bool
  su_client :: bool
  su_config_map :: config_map_read
  su_canceled :: bool
  su_key_pair :: "string \<Rightarrow> bool"
  su_manager :: bool
  su_register_metrics :: bool
  su_add_metrics :: bool
  su_add_scheduler :: bool
  su_accepts :: "string \<Rightarrow> bool"
  su_healthz :: bool
  su_readyz :: bool
  su_start :: bool

datatype start_error =
    Rest_Config_Failed
  | Scheme_Failed
  | Bootstrap_Failed bootstrap_error
  | Cache_Failed setup_error
  | Metrics_Server_Failed server_error
  | Manager_Failed
  | Observability_Failed
  | Add_Failed string
  | Publisher_Failed
  | Scheduler_Failed options_error
  | Secret_Syncer_Failed syncer_error
  | Account_Syncer_Failed sa_syncer_error
  | Setup_Failed setup_error
  | Health_Check_Failed string
  | Manager_Stopped
  | Mock_Not_Allowed
  | Bad_Mock_Lifetime duration duration
  | Command_Rejected command_error

text \<open>The components one process runs, with the data controller-runtime was given.\<close>

record process =
  pr_runtime :: kube_runtime
  pr_cache :: cache_options
  pr_leader_election :: bool
  pr_leader_election_id :: string
  pr_metrics_server :: server_options
  pr_metrics :: metrics
  pr_scheduler :: scheduler
  pr_secret_syncer :: secret_syncer
  pr_account_syncer :: sa_syncer
  pr_config_reconciler :: config_reconciler
  pr_account_reconciler :: account_reconciler
  pr_registrations :: "registration list"

definition unless_error :: "bool \<Rightarrow> 'e \<Rightarrow> ('e, unit) result" where
  "unless_error ok err = (if ok then Inr () else Inl err)"

definition map_error :: "('e \<Rightarrow> 'f) \<Rightarrow> ('e, 'a) result \<Rightarrow> ('f, 'a) result" where
  "map_error f r = (case r of Inl err \<Rightarrow> Inl (f err) | Inr x \<Rightarrow> Inr x)"

definition option_error :: "'e \<Rightarrow> 'a option \<Rightarrow> ('e, 'a) result" where
  "option_error err x = (case x of None \<Rightarrow> Inl err | Some v \<Rightarrow> Inr v)"

text \<open>The reconcilers that \<open>SetupWithManager\<close> builds.\<close>

definition new_config_reconciler ::
  "config_store \<Rightarrow> event_publisher \<Rightarrow> controller_options \<Rightarrow> kube_runtime \<Rightarrow> config_reconciler" where
  "new_config_reconciler store publisher options0 runtime =
     \<lparr>cf_store = store, cf_publisher = publisher, cf_options = controller_defaults options0,
      cf_runtime = Some runtime, cf_recorder = True, cf_last_rejection = [],
      cf_pending_fanout = False\<rparr>"

text \<open>
  From the stores to \<open>Start\<close>: the part both commands have in common. The stores are new and
  shared by all components; here each component holds the value.
\<close>

definition all_collaborators :: collaborators where
  "all_collaborators =
     \<lparr>cl_manager = True, cl_store = True, cl_observer = True, cl_resource_events = True,
      cl_namespace_syncer = True, cl_service_account_syncer = True\<rparr>"

definition wire ::
  "parse_env \<Rightarrow> startup \<Rightarrow> controller_options \<Rightarrow> scheduler_options \<Rightarrow> kube_runtime \<Rightarrow> cache_options
     \<Rightarrow> bool \<Rightarrow> string \<Rightarrow> server_options \<Rightarrow> (start_error, process) result" where
  "wire env su options opts runtime cache election election_id server =
     (let store = empty_store; credentials = empty_cred_store in
      bind_result (option_error Observability_Failed
        (new_metrics True True True True True default_managed_secret_name (\<lambda>_. su_register_metrics su)))
        (\<lambda>obs.
      bind_result (unless_error (su_add_metrics su) (Add_Failed ''observability'')) (\<lambda>_.
      bind_result (option_error Publisher_Failed (new_event_publisher True)) (\<lambda>publisher.
      bind_result (map_error Scheduler_Failed
        (new_scheduler (Some store) (Some credentials) True True True opts)) (\<lambda>sched.
      bind_result (unless_error (su_add_scheduler su) (Add_Failed ''scheduler'')) (\<lambda>_.
      bind_result (map_error Secret_Syncer_Failed
        (new_secret_syncer True (Some store) (Some credentials) default_managed_secret_name True))
        (\<lambda>secret_syncer.
      bind_result (map_error Account_Syncer_Failed
        (new_sa_syncer True (Some store) default_managed_secret_name)) (\<lambda>account_syncer.
      bind_result (map_error Setup_Failed
        (setup_with_manager env all_collaborators (su_accepts su) options)) (\<lambda>registrations.
      bind_result (unless_error (su_healthz su) (Health_Check_Failed ''ping'')) (\<lambda>_.
      bind_result (unless_error (su_readyz su) (Health_Check_Failed ''configuration'')) (\<lambda>_.
      bind_result (unless_error (su_start su) Manager_Stopped) (\<lambda>_.
        Inr \<lparr>pr_runtime = runtime, pr_cache = cache, pr_leader_election = election,
             pr_leader_election_id = election_id, pr_metrics_server = server, pr_metrics = obs,
             pr_scheduler = sched, pr_secret_syncer = secret_syncer,
             pr_account_syncer = account_syncer,
             pr_config_reconciler = new_config_reconciler store publisher options runtime,
             pr_account_reconciler = new_service_account_reconciler store,
             pr_registrations = registrations\<rparr>))))))))))))"

text \<open>The bounds of the controllers are the workers of the runtime as it is at start-up.\<close>

definition options_of_runtime :: "kube_runtime \<Rightarrow> controller_options" where
  "options_of_runtime runtime =
     \<lparr>co_controller_namespace = [], co_config_map_name = [], co_managed_secret_name = [],
      co_namespace_reconciles = se_namespace_workers (kr_current runtime),
      co_service_account_reconciles = se_service_account_workers (kr_current runtime)\<rparr>"

definition zero_scheduler_options :: scheduler_options where
  "zero_scheduler_options =
     \<lparr>so_refresh_before = 0, so_request_timeout = 0, so_worker_count = 0, so_retry_base_delay = 0,
      so_retry_max_delay = 0\<rparr>"

definition settings_of :: "command_options \<Rightarrow> settings" where
  "settings_of opts =
     \<lparr>se_qps = op_kube_api_qps opts, se_burst = op_kube_api_burst opts,
      se_namespace_workers = op_namespace_reconciles opts,
      se_service_account_workers = op_service_account_reconciles opts\<rparr>"

text \<open>\<open>run\<close>: \<open>Inr None\<close> is the quiet end of a start-up that was canceled.\<close>

definition run_controller ::
  "parse_env \<Rightarrow> startup \<Rightarrow> command_options \<Rightarrow> (start_error, process option) result" where
  "run_controller env su opts =
     (if \<not> su_rest_config su (op_kubeconfig opts) then Inl Rest_Config_Failed
      else if \<not> su_scheme su then Inl Scheme_Failed
      else (case bootstrap env (su_client su) (su_config_map su) (settings_of opts) of
          Inl err \<Rightarrow> if su_canceled su then Inr None else Inl (Bootstrap_Failed err)
        | Inr runtime \<Rightarrow>
            bind_result (map_error Cache_Failed (new_cache_options env (options_of_runtime runtime)))
              (\<lambda>cache.
            bind_result (map_error Metrics_Server_Failed
              (server_options_of (su_key_pair su) (op_metrics_address opts) (op_metrics_secure opts)
                (op_metrics_cert_dir opts))) (\<lambda>server.
            bind_result (unless_error (su_manager su) Manager_Failed) (\<lambda>_.
              bind_result
                (wire env su (options_of_runtime runtime) zero_scheduler_options runtime cache
                  (op_leader_election opts) default_leader_election_id server)
                (\<lambda>p. Inr (Some p)))))))"

text \<open>\<open>main\<close>: the exit code of the process, 0 when \<open>run\<close> returns nil or help was asked for.\<close>

definition controller_main :: "parse_env \<Rightarrow> (string \<Rightarrow> int option) \<Rightarrow> startup \<Rightarrow> string list \<Rightarrow> int" where
  "controller_main env parse_int su args =
     (case parse_command_options env parse_int args of
        Inl err \<Rightarrow> if err = Flags_Rejected Help_Requested then 0 else 2
      | Inr opts \<Rightarrow> (case run_controller env su opts of Inl _ \<Rightarrow> 1 | Inr _ \<Rightarrow> 0))"

section \<open>An accepted command line starts\<close>

lemma parse_command_options_valid:
  "parse_command_options env parse_int args = Inr opts \<Longrightarrow>
     parse_log_level (op_log_level opts) \<noteq> None \<and> settings_wf (settings_of opts)"
  by (auto simp: parse_command_options_def settings_wf_def settings_of_def
      split: sum.splits prod.splits if_splits)

text \<open>The overrides of the ConfigMap as it is at start-up.\<close>

definition startup_overrides :: "parse_env \<Rightarrow> config_map_read \<Rightarrow> runtime_configuration" where
  "startup_overrides env cm =
     (case cm of
        CMFound data \<Rightarrow> (case parse env data of Inr c \<Rightarrow> cs_runtime c | Inl _ \<Rightarrow> empty_runtime)
      | _ \<Rightarrow> empty_runtime)"

lemma startup_overrides_wf: "settings_wf s \<Longrightarrow> settings_wf (overridden s (startup_overrides env cm))"
  using parse_runtime_part
  by (auto simp: startup_overrides_def intro!: overridden_wf split: config_map_read.split sum.split)

lemma bootstrap_starts:
  assumes "settings_wf s" "cm \<noteq> CMError"
  shows "\<exists>r. bootstrap env True cm s = Inr r \<and> kube_runtime_wf r
    \<and> kr_current r = overridden s (startup_overrides env cm)"
proof -
  let ?new = "overridden s (startup_overrides env cm)"
  have "resolve s empty_runtime = Inr s" "resolve s (startup_overrides env cm) = Inr ?new"
    using assms(1) startup_overrides_wf by (simp_all add: resolve_Inr)
  then have new: "new_runtime s (startup_overrides env cm) = Inr \<lparr>kr_fallback = s, kr_current = ?new,
      kr_desired = ?new, kr_limiter = new_limiter (se_qps ?new) (se_burst ?new)\<rparr>"
    by (simp add: new_runtime_def)
  then have "bootstrap env True cm s = Inr \<lparr>kr_fallback = s, kr_current = ?new,
      kr_desired = ?new, kr_limiter = new_limiter (se_qps ?new) (se_burst ?new)\<rparr>"
    using assms(2)
    by (cases cm) (auto simp: bootstrap_def runtime_from_config_map_def startup_overrides_def
        split: sum.splits)
  with new_runtime_wf [OF new] show ?thesis by simp
qed

text \<open>The world answers every request of start-up, for a process with these options.\<close>

definition world_ready :: "parse_env \<Rightarrow> startup \<Rightarrow> command_options \<Rightarrow> bool" where
  "world_ready env su opts \<longleftrightarrow>
     su_rest_config su (op_kubeconfig opts) \<and> su_scheme su \<and> su_client su \<and> su_config_map su \<noteq> CMError
     \<and> su_manager su \<and> su_register_metrics su \<and> su_add_metrics su \<and> su_add_scheduler su
     \<and> list_all (su_accepts su) [''namespace_secrets'', ''service_accounts'', ''configuration'']
     \<and> su_healthz su \<and> su_readyz su \<and> su_start su
     \<and> (op_metrics_secure opts \<and> op_metrics_address opts \<noteq> ''0'' \<longrightarrow>
          op_metrics_cert_dir opts \<noteq> [] \<and> su_key_pair su (op_metrics_cert_dir opts))
     \<and> dns_label env default_controller_namespace = []
     \<and> dns_subdomain env default_config_map_name = []
     \<and> dns_subdomain env default_managed_secret_name = []"

lemma default_names_nonempty:
  "default_controller_namespace \<noteq> []" "default_config_map_name \<noteq> []" "default_managed_secret_name \<noteq> []"
  by (simp_all add: default_controller_namespace_def default_config_map_name_def
      default_managed_secret_name_def)

lemma options_of_runtime_valid:
  assumes "world_ready env su opts" "kube_runtime_wf r"
  shows "validate_controller_options env (controller_defaults (options_of_runtime r)) = None"
    and "co_namespace_reconciles (controller_defaults (options_of_runtime r)) = se_namespace_workers (kr_current r)"
    and "co_service_account_reconciles (controller_defaults (options_of_runtime r)) =
      se_service_account_workers (kr_current r)"
  using assms default_names_nonempty
  by (auto simp: validate_controller_options_def controller_defaults_def options_of_runtime_def
      or_default_name_def or_default_def world_ready_def kube_runtime_wf_def settings_wf_def)

text \<open>
  One set of names throughout a process: the Secret that is written, referenced, counted,
  watched and cached, and the ConfigMap that is read, watched and cached.
\<close>

definition names_everywhere :: "process \<Rightarrow> string \<Rightarrow> string \<Rightarrow> string \<Rightarrow> bool" where
  "names_everywhere p ns config_map secret_name \<longleftrightarrow>
     ss_secret_name (pr_secret_syncer p) = secret_name
     \<and> ay_secret_name (pr_account_syncer p) = secret_name
     \<and> mt_secret_name (pr_metrics p) = secret_name
     \<and> co_managed_secret_name (cf_options (pr_config_reconciler p)) = secret_name
     \<and> co_controller_namespace (cf_options (pr_config_reconciler p)) = ns
     \<and> co_config_map_name (cf_options (pr_config_reconciler p)) = config_map
     \<and> map rg_triggers (pr_registrations p) =
         [[Watch_Kind Kind_Namespace, Watch_Secret_To_Namespace secret_name, Channel_Namespaces],
          [Watch_Kind Kind_Service_Account, Watch_Secret_To_Service_Accounts secret_name,
           Channel_Service_Accounts],
          [Watch_Config_Map ns config_map]]
     \<and> (\<forall>kind namespace name. caches (pr_cache p) kind namespace name \<longleftrightarrow>
         (case kind of
            Kind_Config_Map \<Rightarrow> namespace = ns \<and> name = config_map
          | Kind_Namespace \<Rightarrow> True
          | Kind_Service_Account \<Rightarrow> True
          | Kind_Secret \<Rightarrow> name = secret_name
          | Kind_Other \<Rightarrow> False))"

lemma default_names [simp]:
  "co_controller_namespace (controller_defaults (options_of_runtime r)) = default_controller_namespace"
  "co_config_map_name (controller_defaults (options_of_runtime r)) = default_config_map_name"
  "co_managed_secret_name (controller_defaults (options_of_runtime r)) = default_managed_secret_name"
  by (simp_all add: controller_defaults_def options_of_runtime_def or_default_name_def)

lemma wire_starts:
  assumes "world_ready env su opts" "kube_runtime_wf r" "validate_options (with_defaults sopts) = None"
  shows "\<exists>p. wire env su (options_of_runtime r) sopts r cache election election_id server = Inr p
    \<and> pr_runtime p = r \<and> sc_options (pr_scheduler p) = with_defaults sopts
    \<and> sc_credentials (pr_scheduler p) = empty_cred_store \<and> sc_config (pr_scheduler p) = empty_store
    \<and> pr_config_reconciler p = new_config_reconciler empty_store
        \<lparr>ep_namespace_events = [], ep_service_account_events = []\<rparr> (options_of_runtime r) r
    \<and> pr_cache p = cache \<and> pr_leader_election p = election \<and> pr_leader_election_id p = election_id
    \<and> pr_registrations p =
        [namespace_registration (controller_defaults (options_of_runtime r)),
         service_account_registration (controller_defaults (options_of_runtime r)),
         configuration_registration (controller_defaults (options_of_runtime r))]
    \<and> ss_secret_name (pr_secret_syncer p) = default_managed_secret_name
    \<and> ay_secret_name (pr_account_syncer p) = default_managed_secret_name
    \<and> mt_secret_name (pr_metrics p) = default_managed_secret_name"
proof -
  let ?opts = "controller_defaults (options_of_runtime r)"
  note valid = options_of_runtime_valid [OF assms(1,2)]
  have "setup_with_manager env all_collaborators (su_accepts su) (options_of_runtime r) =
      Inr [namespace_registration ?opts, service_account_registration ?opts,
        configuration_registration ?opts]"
    using assms(1) valid
    by (simp add: setup_with_manager_def all_collaborators_def Let_def world_ready_def
        namespace_registration_def service_account_registration_def configuration_registration_def)
  then show ?thesis
    using assms(1,3) valid default_names_nonempty
    by (simp add: wire_def Let_def new_metrics_def option_error_def unless_error_def map_error_def
        new_event_publisher_def new_scheduler_def new_secret_syncer_def new_sa_syncer_def world_ready_def
        namespace_registration_def service_account_registration_def configuration_registration_def)
qed

lemma start_ok:
  assumes "parse_command_options env parse_int args = Inr opts" "world_ready env su opts"
    and "s = overridden (settings_of opts) (startup_overrides env (su_config_map su))"
  shows "\<exists>p. run_controller env su opts = Inr (Some p)
    \<and> kr_current (pr_runtime p) = s
    \<and> map rg_max_concurrent (pr_registrations p) = [se_namespace_workers s, se_service_account_workers s, 1]
    \<and> map rg_leader_election (pr_registrations p) = [True, True, False]
    \<and> pr_leader_election p = op_leader_election opts
    \<and> names_everywhere p default_controller_namespace default_config_map_name default_managed_secret_name
    \<and> runtime_ok (pr_config_reconciler p) \<and> \<not> cf_pending_fanout (pr_config_reconciler p)
    \<and> cst_current (sc_credentials (pr_scheduler p)) = []
    \<and> \<not> configuration_ready_check (Some (cf_store (pr_config_reconciler p)))"
proof -
  have wf: "settings_wf (settings_of opts)" using parse_command_options_valid [OF assms(1)] by blast
  have "su_config_map su \<noteq> CMError" using assms(2) by (simp add: world_ready_def)
  from bootstrap_starts [OF wf this, of env] obtain r where boot:
    "bootstrap env True (su_config_map su) (settings_of opts) = Inr r"
    and r: "kube_runtime_wf r" "kr_current r = s" using assms(3) by blast
  have sopts: "validate_options (with_defaults zero_scheduler_options) = None" by code_simp
  obtain server where server: "server_options_of (su_key_pair su) (op_metrics_address opts)
      (op_metrics_secure opts) (op_metrics_cert_dir opts) = Inr server"
    using assms(2) that
    by (cases "op_metrics_secure opts \<and> op_metrics_address opts \<noteq> ''0''")
      (simp_all add: server_options_of_def Let_def world_ready_def)
  obtain cache where cache: "new_cache_options env (options_of_runtime r) = Inr cache"
    using options_of_runtime_valid(1) [OF assms(2) r(1)] by (simp add: new_cache_options_def Let_def)
  from wire_starts [OF assms(2) r(1) sopts, of cache "op_leader_election opts" default_leader_election_id server]
  obtain p where wired: "wire env su (options_of_runtime r) zero_scheduler_options r cache
      (op_leader_election opts) default_leader_election_id server = Inr p" by blast
  note parts = wire_starts [OF assms(2) r(1) sopts, of cache "op_leader_election opts"
      default_leader_election_id server, unfolded wired sum.inject ex_simps simp_thms]
  have started: "run_controller env su opts = Inr (Some p)"
    using assms(2) boot server cache wired
    by (simp add: run_controller_def world_ready_def map_error_def unless_error_def)
  have "caches cache kind namespace name \<longleftrightarrow> (case kind of
      Kind_Config_Map \<Rightarrow> namespace = default_controller_namespace \<and> name = default_config_map_name
    | Kind_Namespace \<Rightarrow> True | Kind_Service_Account \<Rightarrow> True
    | Kind_Secret \<Rightarrow> name = default_managed_secret_name | Kind_Other \<Rightarrow> False)" for kind namespace name
    using cache_scope_spec [OF cache, of kind namespace name]
    by (cases kind) (simp_all add: config_map_predicate_def)
  then have names: "names_everywhere p default_controller_namespace default_config_map_name default_managed_secret_name"
    using parts
    by (simp add: names_everywhere_def new_config_reconciler_def namespace_registration_def
        service_account_registration_def configuration_registration_def)
  note workers = options_of_runtime_valid(2,3) [OF assms(2) r(1)]
  show ?thesis
    using started parts names r workers
    by (simp add: runtime_ok_def new_config_reconciler_def empty_cred_store_def empty_store_def
        configuration_ready_check_def store_loaded_def namespace_registration_def
        service_account_registration_def configuration_registration_def)
qed


section \<open>Readiness of a running process\<close>

lemma store_loaded_observed:
  "store_loaded (fold store_observe es s) \<longleftrightarrow> store_loaded s \<or> (\<exists>c. Some c \<in> set es)"
proof (induction es arbitrary: s)
  case (Cons e es)
  have "store_loaded (store_observe e s) \<longleftrightarrow> store_loaded s \<or> (\<exists>c. e = Some c)"
    using store_apply_facts(2)
    by (cases e) (auto simp: store_observe_def store_mark_invalid_def store_loaded_def, metis prod.collapse)
  then show ?case unfolding fold_simps comp_def Cons.IH by auto
qed simp

text \<open>
  C29: A started process becomes ready with the first valid ConfigMap that its configuration
  controller reads, whatever it read before, and stays ready ever after; without one it is
  never ready.
\<close>

theorem ready_after_first_valid:
  assumes "parse_command_options env parse_int args = Inr opts" "world_ready env su opts"
    and "run_controller env su opts = Inr (Some p)"
    and "config_run env rounds (pr_config_reconciler p) = (r', acts)"
  shows "configuration_ready_check (Some (cf_store r')) \<longleftrightarrow>
    (\<exists>c. Some c \<in> set (observed_configs env (cf_options (pr_config_reconciler p)) rounds))"
proof -
  have start: "runtime_ok (pr_config_reconciler p)"
    "\<not> configuration_ready_check (Some (cf_store (pr_config_reconciler p)))"
    using start_ok [OF assms(1,2) refl] assms(3) by auto
  have "cf_store r' = fold store_observe
      (observed_configs env (cf_options (pr_config_reconciler p)) rounds) (cf_store (pr_config_reconciler p))"
    using config_run_ok [OF assms(4) start(1)] by blast
  then show ?thesis
    using start(2) by (simp add: configuration_ready_check_def store_loaded_observed)
qed

section \<open>The end-to-end controller\<close>

definition e2e_user_agent :: string where "e2e_user_agent = ''kubernetes-registry-secret-controller-e2e''"
definition e2e_leader_election_id :: string where
  "e2e_leader_election_id = ''kubernetes-registry-secret-controller-e2e''"
definition default_mock_token_ttl :: duration where "default_mock_token_ttl = 30 * second"
definition e2e_refresh_before :: duration where "e2e_refresh_before = 10 * second"
definition e2e_request_timeout :: duration where "e2e_request_timeout = 5 * second"
definition e2e_retry_base_delay :: duration where "e2e_retry_base_delay = second"
definition e2e_retry_max_delay :: duration where "e2e_retry_max_delay = 5 * second"

text \<open>The values of the flags, after \<open>flag.Parse\<close>.\<close>

record e2e_options =
  ee_log_level :: string
  ee_kubeconfig :: string
  ee_metrics_address :: string
  ee_health_address :: string
  ee_leader_election :: bool
  ee_allow_mock :: bool
  ee_mock_token_ttl :: duration
  ee_refresh_before :: duration
  ee_mock_failures :: "64 word"
  ee_clock_control :: string
  ee_kube_api_qps :: float64
  ee_kube_api_burst :: int
  ee_namespace_concurrency :: int
  ee_service_account_concurrency :: int

definition default_e2e_options :: e2e_options where
  "default_e2e_options =
     \<lparr>ee_log_level = ''info'', ee_kubeconfig = [], ee_metrics_address = default_metrics_address,
      ee_health_address = default_health_address, ee_leader_election = True, ee_allow_mock = False, ee_mock_token_ttl = default_mock_token_ttl,
      ee_refresh_before = e2e_refresh_before, ee_mock_failures = 0, ee_clock_control = [],
      ee_kube_api_qps = default_kube_api_qps, ee_kube_api_burst = default_kube_api_burst,
      ee_namespace_concurrency = default_max_concurrent_namespace_reconciles,
      ee_service_account_concurrency = default_max_concurrent_service_account_reconciles\<rparr>"

text \<open>
  The flags; \<open>kubeconfig\<close> is registered by controller-runtime.
\<close>

definition e2e_flags :: "(string, flag_kind) gomap" where
  "e2e_flags =
     [(''log-level'', Value_Flag), (''metrics-bind-address'', Value_Flag),
      (''health-probe-bind-address'', Value_Flag), (''leader-elect'', Bool_Flag),
      (''allow-mock-provider'', Bool_Flag), (''mock-token-ttl'', Value_Flag),
      (''credential-refresh-before'', Value_Flag), (''mock-initial-failures'', Value_Flag),
      (''mock-clock-control-address'', Value_Flag), (''kube-api-qps'', Value_Flag),
      (''kube-api-burst'', Value_Flag), (''max-concurrent-namespace-reconciles'', Value_Flag),
      (''max-concurrent-service-account-reconciles'', Value_Flag), (''kubeconfig'', Value_Flag)]"

definition set_e2e_flag ::
  "parse_env \<Rightarrow> (string \<Rightarrow> int option) \<Rightarrow> (string \<Rightarrow> duration option) \<Rightarrow> (string \<Rightarrow> 64 word option)
     \<Rightarrow> string \<Rightarrow> string \<Rightarrow> e2e_options \<Rightarrow> e2e_options option" where
  "set_e2e_flag env parse_int parse_duration parse_uint name v opts =
     (if name = ''log-level'' then Some (opts\<lparr>ee_log_level := v\<rparr>)
      else if name = ''metrics-bind-address'' then Some (opts\<lparr>ee_metrics_address := v\<rparr>)
      else if name = ''health-probe-bind-address'' then Some (opts\<lparr>ee_health_address := v\<rparr>)
      else if name = ''leader-elect'' then map_option (\<lambda>b. opts\<lparr>ee_leader_election := b\<rparr>) (parse_bool v)
      else if name = ''allow-mock-provider'' then map_option (\<lambda>b. opts\<lparr>ee_allow_mock := b\<rparr>) (parse_bool v)
      else if name = ''mock-token-ttl''
      then map_option (\<lambda>d. opts\<lparr>ee_mock_token_ttl := d\<rparr>) (parse_duration v)
      else if name = ''credential-refresh-before''
      then map_option (\<lambda>d. opts\<lparr>ee_refresh_before := d\<rparr>) (parse_duration v)
      else if name = ''mock-initial-failures''
      then map_option (\<lambda>n. opts\<lparr>ee_mock_failures := n\<rparr>) (parse_uint v)
      else if name = ''mock-clock-control-address'' then Some (opts\<lparr>ee_clock_control := v\<rparr>)
      else if name = ''kube-api-qps'' then map_option (\<lambda>q. opts\<lparr>ee_kube_api_qps := q\<rparr>) (parse_float env v)
      else if name = ''kube-api-burst'' then map_option (\<lambda>n. opts\<lparr>ee_kube_api_burst := n\<rparr>) (parse_int v)
      else if name = ''max-concurrent-namespace-reconciles''
      then map_option (\<lambda>n. opts\<lparr>ee_namespace_concurrency := n\<rparr>) (parse_int v)
      else if name = ''max-concurrent-service-account-reconciles''
      then map_option (\<lambda>n. opts\<lparr>ee_service_account_concurrency := n\<rparr>) (parse_int v)
      else if name = ''kubeconfig'' then Some (opts\<lparr>ee_kubeconfig := v\<rparr>)
      else None)"

definition check_e2e_options :: "e2e_options \<Rightarrow> start_error option" where
  "check_e2e_options opts =
     (if parse_log_level (ee_log_level opts) = None then Some (Command_Rejected Bad_Log_Level)
      else if \<not> ee_allow_mock opts then Some Mock_Not_Allowed
      else if ee_mock_token_ttl opts \<le> ee_refresh_before opts
      then Some (Bad_Mock_Lifetime (ee_mock_token_ttl opts) (ee_refresh_before opts))
      else if \<not> validate_qps (ee_kube_api_qps opts) then Some (Command_Rejected Bad_QPS)
      else if ee_kube_api_burst opts < 1 then Some (Command_Rejected (Bad_Burst (ee_kube_api_burst opts)))
      else if ee_namespace_concurrency opts < 1
      then Some (Command_Rejected (Bad_Namespace_Workers (ee_namespace_concurrency opts)))
      else if ee_service_account_concurrency opts < 1
      then Some (Command_Rejected (Bad_Service_Account_Workers (ee_service_account_concurrency opts)))
      else None)"

definition e2e_settings :: "e2e_options \<Rightarrow> settings" where
  "e2e_settings opts =
     \<lparr>se_qps = ee_kube_api_qps opts, se_burst = ee_kube_api_burst opts,
      se_namespace_workers = ee_namespace_concurrency opts,
      se_service_account_workers = ee_service_account_concurrency opts\<rparr>"

definition e2e_scheduler_options :: "e2e_options \<Rightarrow> scheduler_options" where
  "e2e_scheduler_options opts =
     \<lparr>so_refresh_before = ee_refresh_before opts, so_request_timeout = e2e_request_timeout,
      so_worker_count = default_worker_count, so_retry_base_delay = e2e_retry_base_delay,
      so_retry_max_delay = e2e_retry_max_delay\<rparr>"

text \<open>\<open>run\<close> of the end-to-end controller; \<open>hostname\<close> is what \<open>os.Hostname\<close> returns, \<open>None\<close> an error.\<close>

definition run_e2e ::
  "parse_env \<Rightarrow> startup \<Rightarrow> bool \<Rightarrow> string option \<Rightarrow> e2e_options
     \<Rightarrow> (start_error, (process \<times> mock_token_provider) option) result" where
  "run_e2e env su add_clock hostname opts =
     (case check_e2e_options opts of
        Some err \<Rightarrow> Inl err
      | None \<Rightarrow>
          if \<not> su_rest_config su (ee_kubeconfig opts) then Inl Rest_Config_Failed
          else if \<not> su_scheme su then Inl Scheme_Failed
          else (case bootstrap env (su_client su) (su_config_map su) (e2e_settings opts) of
              Inl err \<Rightarrow> if su_canceled su then Inr None else Inl (Bootstrap_Failed err)
            | Inr runtime \<Rightarrow>
                bind_result (map_error Cache_Failed (new_cache_options env (options_of_runtime runtime)))
                  (\<lambda>cache.
                bind_result (unless_error (su_manager su) Manager_Failed) (\<lambda>_.
                bind_result (unless_error (ee_clock_control opts = [] \<or> add_clock) (Add_Failed ''clock''))
                  (\<lambda>_.
                bind_result
                  (wire env su (options_of_runtime runtime) (e2e_scheduler_options opts) runtime cache
                    (ee_leader_election opts) e2e_leader_election_id
                    \<lparr>sv_bind_address = ee_metrics_address opts, sv_secure_serving = False,
                     sv_cert_dir = [], sv_authentication = False\<rparr>)
                  (\<lambda>p. Inr (Some (p, new_mock_token_provider
                     (case hostname of None \<Rightarrow> ''unknown'' | Some h \<Rightarrow> if h = [] then ''unknown'' else h)
                     (ee_mock_token_ttl opts) (ee_mock_failures opts)))))))))"

text \<open>
  The process: \<open>flag.Parse\<close> ignores what follows the flags and exits with 0 after help and with
  2 on an error, an error of \<open>run\<close> with 1.
\<close>

definition e2e_main ::
  "parse_env \<Rightarrow> (string \<Rightarrow> int option) \<Rightarrow> (string \<Rightarrow> duration option) \<Rightarrow> (string \<Rightarrow> 64 word option)
     \<Rightarrow> startup \<Rightarrow> bool \<Rightarrow> string option \<Rightarrow> string list \<Rightarrow> int" where
  "e2e_main env parse_int parse_duration parse_uint su add_clock hostname args =
     (case parse_flags e2e_flags (set_e2e_flag env parse_int parse_duration parse_uint) args
             default_e2e_options of
        Inl err \<Rightarrow> if err = Help_Requested then 0 else 2
      | Inr (opts, _) \<Rightarrow> (case run_e2e env su add_clock hostname opts of Inl _ \<Rightarrow> 1 | Inr _ \<Rightarrow> 0))"

section \<open>The control of the mock clock\<close>

definition maximum_clock_advance :: duration where "maximum_clock_advance = 7 * 24 * 60 * minute"

text \<open>\<open>POST /advance\<close>: the clock afterwards and whether the request was accepted.\<close>

definition advance_clock :: "(string \<Rightarrow> duration option) \<Rightarrow> string \<Rightarrow> instant \<Rightarrow> instant \<times> bool" where
  "advance_clock parse_duration query clock =
     (case parse_duration query of
        None \<Rightarrow> (clock, False)
      | Some d \<Rightarrow> if d \<le> 0 \<or> d > maximum_clock_advance then (clock, False) else (clock + d, True))"

lemma wire_parts:
  "wire env su options sopts runtime cache election election_id server = Inr p \<Longrightarrow>
     sc_options (pr_scheduler p) = with_defaults sopts"
  by (auto simp: wire_def Let_def option_error_def map_error_def unless_error_def new_scheduler_def
      split: option.splits sum.splits if_splits)

lemma run_e2e_parts:
  assumes "run_e2e env su add_clock hostname opts = Inr (Some (p, provider))"
  shows "sc_options (pr_scheduler p) = with_defaults (e2e_scheduler_options opts)"
    and "mp_token_ttl provider = ee_mock_token_ttl opts"
    and "check_e2e_options opts = None"
  using assms wire_parts
  by (auto simp: run_e2e_def map_error_def unless_error_def new_mock_token_provider_def
      split: option.splits sum.splits if_splits)

text \<open>
  C30: In a started end-to-end controller the scheduler accepts a mock token that the provider
  issued, after some calls, at time \<open>now\<close> exactly if it is used before the refresh window of the
  scheduler begins; the window is the one given on the command line, except that a window of
  zero, which the command line check takes literally, stands for the scheduler's default of
  five minutes.
\<close>

theorem e2e_token_lifetime:
  assumes "run_e2e env su add_clock hostname opts = Inr (Some (p, provider))"
    and "mock_get_authorization_token (provider\<lparr>mp_calls := calls, mp_remaining_failures := left\<rparr>) None now rq
      = (Inr t, provider')"
  shows "validate_token t after (so_refresh_before (sc_options (pr_scheduler p))) = None \<longleftrightarrow>
    after + (if ee_refresh_before opts = 0 then 5 * minute else ee_refresh_before opts)
      < now + ee_mock_token_ttl opts"
  using assms(2)
  by (auto simp: mock_get_authorization_token_def Let_def validate_token_def mock_password_def
      run_e2e_parts(1,2) [OF assms(1)] with_defaults_def e2e_scheduler_options_def or_default_def
      default_refresh_before_def split: if_splits)

section \<open>Examples\<close>

text \<open>An environment whose validators accept the names of the controller.\<close>

definition command_env :: parse_env where
  "command_env = sample_env\<lparr>dns_label := (\<lambda>_. []), dns_subdomain := (\<lambda>_. [])\<rparr>"

lemma command_parse: "parse command_env sample_data = Inr sample_snapshot"
  by code_simp

definition sample_startup :: startup where
  "sample_startup =
     \<lparr>su_rest_config = (\<lambda>_. True), su_scheme = True, su_client = True,
      su_config_map = CMFound sample_data, su_canceled = False, su_key_pair = (\<lambda>_. False),
      su_manager = True, su_register_metrics = True, su_add_metrics = True, su_add_scheduler = True,
      su_accepts = (\<lambda>_. True), su_healthz = True, su_readyz = True, su_start = True\<rparr>"

definition sample_args :: "string list" where
  "sample_args = [''--leader-elect=false'', ''-max-concurrent-namespace-reconciles'', ''3'']"

definition sample_opts :: command_options where
  "sample_opts =
     default_command_options\<lparr>op_leader_election := False, op_namespace_reconciles := 3\<rparr>"

lemma sample_args_parse: "parse_command_options command_env atoi sample_args = Inr sample_opts"
  by code_simp

lemma sample_world: "world_ready command_env sample_startup sample_opts"
  unfolding world_ready_def
proof (intro conjI)
  qed (simp_all add: command_env_def sample_startup_def sample_opts_def default_command_options_def)


text \<open>A round that reads the ConfigMap of the sample under the names of the command.\<close>

definition first_round :: config_round where
  "first_round =
     \<lparr>rd_request = \<lparr>rr_namespace = default_controller_namespace, rr_name = default_config_map_name\<rparr>,
      rd_answer = Inr sample_config_map, rd_namespaces = (Inr [], None), rd_accounts = (Inr [], None)\<rparr>"

theorem ready_after_first_valid_witness:
  "\<exists>p. run_controller command_env sample_startup sample_opts = Inr (Some p)
     \<and> \<not> configuration_ready_check (Some (cf_store (fst (config_run command_env [] (pr_config_reconciler p)))))
     \<and> configuration_ready_check
         (Some (cf_store (fst (config_run command_env [first_round] (pr_config_reconciler p)))))"
proof -
  from start_ok [OF sample_args_parse sample_world refl] obtain p where
    p: "run_controller command_env sample_startup sample_opts = Inr (Some p)"
    and names: "names_everywhere p default_controller_namespace default_config_map_name
      default_managed_secret_name" by blast
  have "observation command_env (cf_options (pr_config_reconciler p)) first_round = [Some sample_snapshot]"
    using names
    by (simp add: observation_Some names_everywhere_def first_round_def sample_config_map_def command_parse)
  then show ?thesis
    using ready_after_first_valid [OF sample_args_parse sample_world p prod.collapse [symmetric]] p
    by auto
qed

definition sample_e2e :: e2e_options where
  "sample_e2e =
     \<lparr>ee_log_level = ''info'', ee_kubeconfig = [], ee_metrics_address = '':8080'',
      ee_health_address = '':8081'',
      ee_leader_election = True, ee_allow_mock = True, ee_mock_token_ttl = default_mock_token_ttl,
      ee_refresh_before = 0, ee_mock_failures = 0, ee_clock_control = [],
      ee_kube_api_qps = default_kube_api_qps, ee_kube_api_burst = default_kube_api_burst,
      ee_namespace_concurrency = 8, ee_service_account_concurrency = 8\<rparr>"

lemma sample_guards:
  "su_rest_config sample_startup kubeconfig" "su_scheme sample_startup" "su_client sample_startup"
  "su_manager sample_startup" "ee_clock_control sample_e2e = []"
  by (simp_all add: sample_startup_def sample_e2e_def)

lemma sample_e2e_starts:
  obtains p provider where
    "run_e2e command_env sample_startup False (Some ''host'') sample_e2e = Inr (Some (p, provider))"
proof -
  have wf: "settings_wf (e2e_settings sample_e2e)"
    by (simp add: settings_wf_def e2e_settings_def sample_e2e_def validate_qps_iff default_kube_api_qps_def
        default_kube_api_burst_def half_min_float32_def max_float32_def)
  have "su_config_map sample_startup \<noteq> CMError" by (simp add: sample_startup_def)
  from bootstrap_starts [OF wf this, of command_env] obtain r where boot:
    "bootstrap command_env True (su_config_map sample_startup) (e2e_settings sample_e2e) = Inr r"
    and r: "kube_runtime_wf r" by blast
  have sopts: "validate_options (with_defaults (e2e_scheduler_options sample_e2e)) = None" by code_simp
  obtain cache where cache: "new_cache_options command_env (options_of_runtime r) = Inr cache"
    using options_of_runtime_valid(1) [OF sample_world r] by (simp add: new_cache_options_def Let_def)
  have checked: "check_e2e_options sample_e2e = None"
    using wf by (simp add: check_e2e_options_def sample_e2e_def e2e_settings_def settings_wf_def
        parse_log_level_def default_mock_token_ttl_def second_def)
  let ?server = "\<lparr>sv_bind_address = ee_metrics_address sample_e2e, sv_secure_serving = False,
      sv_cert_dir = [], sv_authentication = False\<rparr>"
  have "\<exists>p. wire command_env sample_startup (options_of_runtime r) (e2e_scheduler_options sample_e2e) r cache
      (ee_leader_election sample_e2e) e2e_leader_election_id ?server = Inr p"
    using wire_starts [OF sample_world r sopts, of cache] by blast
  then obtain p where "wire command_env sample_startup (options_of_runtime r)
      (e2e_scheduler_options sample_e2e) r cache (ee_leader_election sample_e2e) e2e_leader_election_id
      ?server = Inr p" ..
  then have "\<exists>provider. run_e2e command_env sample_startup False (Some ''host'') sample_e2e = Inr (Some (p, provider))"
    using boot cache checked
    by (simp add: run_e2e_def sample_guards map_error_def unless_error_def)
  then show ?thesis using that by blast
qed

theorem e2e_token_lifetime_witness:
  "\<exists>p provider t provider'. run_e2e command_env sample_startup False (Some ''host'') sample_e2e
      = Inr (Some (p, provider))
    \<and> mock_get_authorization_token provider None 0 sample_request = (Inr t, provider')
    \<and> validate_token t 0 (so_refresh_before (sc_options (pr_scheduler p))) \<noteq> None"
proof -
  obtain p provider where run:
    "run_e2e command_env sample_startup False (Some ''host'') sample_e2e = Inr (Some (p, provider))"
    by (rule sample_e2e_starts)
  let ?provider = "provider\<lparr>mp_calls := mp_calls provider, mp_remaining_failures := 0\<rparr>"
  have none: "mp_remaining_failures provider = 0"
    using run by (auto simp: run_e2e_def new_mock_token_provider_def map_error_def unless_error_def
        sample_e2e_def split: option.splits sum.splits if_splits)
  obtain t provider' where call:
    "mock_get_authorization_token ?provider None 0 sample_request = (Inr t, provider')"
    by (simp add: mock_get_authorization_token_def Let_def)
  have "?provider = provider" using none by simp
  moreover have "validate_token t 0 (so_refresh_before (sc_options (pr_scheduler p))) \<noteq> None"
    using e2e_token_lifetime [OF run call, of 0]
    by (simp add: sample_e2e_def default_mock_token_ttl_def minute_def second_def)
  ultimately show ?thesis using run call by (intro exI) auto
qed

end
