(* ===== verification/Float64.thy ===== *)
theory Float64
  imports Prelude "HOL-Library.Log_Nat"
begin

text \<open>
  Arithmetic on \<open>float64\<close>: the result of an operation is the exact result rounded to the
  nearest number with 53 significant bits, ties to the even one. The performance driver computes
  with seconds, counts and percentages, far inside the exponent range, so the exponent is an
  unbounded integer here; each operation rounds on its own (no fused multiply-add).
\<close>

section \<open>Rounding to an integer\<close>

definition round_half_even :: "rat \<Rightarrow> int" where
  "round_half_even y =
     (let f = \<lfloor>y\<rfloor>; d = y - of_int f
      in if d < 1 / 2 then f else if d > 1 / 2 then f + 1 else if even f then f else f + 1)"

lemma round_half_even_of_int [simp]: "round_half_even (of_int n) = n"
  by (simp add: round_half_even_def)

lemma round_half_even_bounds: "\<lfloor>y\<rfloor> \<le> round_half_even y" "round_half_even y \<le> \<lfloor>y\<rfloor> + 1"
  by (simp_all add: round_half_even_def Let_def)

lemma round_half_even_mono:
  assumes "x \<le> y" shows "round_half_even x \<le> round_half_even y"
proof (cases "\<lfloor>x\<rfloor> = \<lfloor>y\<rfloor>")
  case True
  with assms show ?thesis by (auto simp: round_half_even_def Let_def)
next
  case False
  with assms have "\<lfloor>x\<rfloor> + 1 \<le> \<lfloor>y\<rfloor>" using floor_mono [OF assms] by simp
  then show ?thesis using round_half_even_bounds [of x] round_half_even_bounds [of y] by simp
qed

section \<open>The binade of a positive number\<close>

definition binade :: "rat \<Rightarrow> int" where
  "binade x =
     (case quotient_of x of (a, b) \<Rightarrow>
        let k = bitlen a - bitlen b in if 2 powi k \<le> x then k else k - 1)"

lemma two_powi_less_iff: "(2::rat) powi m < 2 powi n \<longleftrightarrow> m < n"
proof -
  have up: "i < j \<Longrightarrow> (2::rat) powi i < 2 powi j" for i j
    by (rule power_int_strict_increasing) simp_all
  show ?thesis by (cases m n rule: linorder_cases) (auto dest: up)
qed

lemma two_powi_nat: "0 \<le> n \<Longrightarrow> (2::rat) powi n = 2 ^ nat n"
  by (simp add: power_int_def)

lemma bitlen_powi:
  assumes "0 < a" shows "2 powi (bitlen a - 1) \<le> (of_int a :: rat)" "(of_int a :: rat) < 2 powi bitlen a"
proof -
  have pos: "1 \<le> bitlen a" using assms bitlen_eq_zero_iff [of a] bitlen_nonneg [of a] by linarith
  have "2 ^ nat (bitlen a - 1) \<le> a" "a < 2 ^ nat (bitlen a)" using bitlen_bounds [OF assms] by auto
  then have "(of_int (2 ^ nat (bitlen a - 1)) :: rat) \<le> of_int a" "(of_int a :: rat) < of_int (2 ^ nat (bitlen a))"
    by (simp_all only: of_int_le_iff of_int_less_iff)
  with pos show "2 powi (bitlen a - 1) \<le> (of_int a :: rat)" "(of_int a :: rat) < 2 powi bitlen a"
    by (simp_all add: two_powi_nat)
qed

lemma binade_bounds:
  assumes "0 < x" shows "2 powi binade x \<le> x" "x < 2 powi (binade x + 1)"
proof -
  obtain a b where q: "quotient_of x = (a, b)" by force
  then have b: "0 < b" and x: "x = of_int a / of_int b"
    by (simp_all add: quotient_of_denom_pos quotient_of_div)
  from assms b have a: "0 < a" by (simp add: x zero_less_divide_iff)
  let ?k = "bitlen a - bitlen b"
  have "2 powi (?k - 1) * of_int b \<le> 2 powi (?k - 1) * (2 powi bitlen b :: rat)"
    using bitlen_powi(2) [OF b] by (intro mult_left_mono) auto
  also have "\<dots> = 2 powi (bitlen a - 1)" by (simp add: power_int_add [symmetric])
  also have "\<dots> \<le> of_int a" by (rule bitlen_powi(1) [OF a])
  finally have low: "2 powi (?k - 1) \<le> x" using b by (simp add: x field_simps)
  have "of_int a < (2 powi bitlen a :: rat)" by (rule bitlen_powi(2) [OF a])
  also have "\<dots> = 2 powi (?k + 1) * 2 powi (bitlen b - 1)" by (simp add: power_int_add [symmetric])
  also have "\<dots> \<le> 2 powi (?k + 1) * of_int b"
    using bitlen_powi(1) [OF b] by (intro mult_left_mono) auto
  finally have high: "x < 2 powi (?k + 1)" using b by (simp add: x field_simps)
  show "2 powi binade x \<le> x" "x < 2 powi (binade x + 1)"
    using low high by (auto simp: binade_def q Let_def)
qed

lemma binade_unique:
  assumes "2 powi k \<le> x" "x < 2 powi (k + 1)" shows "binade x = k"
proof -
  have "(0::rat) < 2 powi k" by simp
  with assms have "0 < x" by linarith
  note b = binade_bounds [OF this]
  have "2 powi k < (2 powi (binade x + 1) :: rat)" "2 powi binade x < (2 powi (k + 1) :: rat)"
    using assms b by linarith+
  then show ?thesis by (simp add: two_powi_less_iff)
qed

lemma binade_mono:
  assumes "0 < x" "x \<le> y" shows "binade x \<le> binade y"
proof -
  have "2 powi binade x < (2 powi (binade y + 1) :: rat)"
    using binade_bounds [OF assms(1)] binade_bounds [of y] assms by linarith
  then show ?thesis by (simp add: two_powi_less_iff)
qed

section \<open>Rounding to 53 significant bits\<close>

definition f_round :: "rat \<Rightarrow> rat" where
  "f_round x =
     (if x = 0 then 0
      else let e = binade \<bar>x\<bar> - 52 in of_int (round_half_even (x / 2 powi e)) * 2 powi e)"

definition is_float :: "rat \<Rightarrow> bool" where
  "is_float x \<longleftrightarrow> f_round x = x"

lemma f_round_zero [simp]: "f_round 0 = 0"
  by (simp add: f_round_def)

lemma round_half_even_minus: "round_half_even (- y) = - round_half_even y"
proof (cases "y = of_int \<lfloor>y\<rfloor>")
  case True
  then have "- y = of_int (- \<lfloor>y\<rfloor>)" by simp
  with True show ?thesis by (metis round_half_even_of_int)
next
  case False
  then have "\<lfloor>- y\<rfloor> = - \<lfloor>y\<rfloor> - 1"
    by (intro floor_unique) (linarith, use of_int_floor_le [of y] in \<open>auto simp: less_le\<close>)
  then show ?thesis by (auto simp: round_half_even_def Let_def)
qed

lemma f_round_minus: "f_round (- x) = - f_round x"
  by (simp add: f_round_def Let_def round_half_even_minus)

lemma f_round_exact:
  assumes "x = of_int w * 2 powi (binade \<bar>x\<bar> - 52)" shows "f_round x = x"
proof -
  have "x / 2 powi (binade \<bar>x\<bar> - 52) = of_int w"
    by (subst assms) simp
  then have "round_half_even (x / 2 powi (binade \<bar>x\<bar> - 52)) = w"
    by (simp only: round_half_even_of_int)
  with assms show ?thesis by (simp add: f_round_def Let_def)
qed

text \<open>A number with at most 53 significant bits is not changed.\<close>

lemma f_round_scaled:
  assumes m: "\<bar>m\<bar> \<le> 2 ^ 53" shows "f_round (of_int m * 2 powi e) = of_int m * 2 powi e"
proof (cases "m = 0")
  case False
  let ?x = "of_int m * (2::rat) powi e"
  have abs: "\<bar>?x\<bar> = of_int \<bar>m\<bar> * 2 powi e" by (simp add: abs_mult)
  from False have pos: "0 < \<bar>?x\<bar>" by simp
  define k where "k = binade \<bar>?x\<bar> - 52"
  have "(of_int \<bar>m\<bar> :: rat) \<le> of_int (2 ^ 53)" using m by (simp only: of_int_le_iff)
  then have "\<bar>?x\<bar> \<le> 2 ^ 53 * 2 powi e" by (simp add: abs)
  also have "\<dots> = 2 powi (e + 53)" by (simp add: power_int_add)
  finally have "2 powi binade \<bar>?x\<bar> \<le> (2 powi (e + 53) :: rat)"
    using binade_bounds(1) [OF pos] by linarith
  then have "\<not> (2 powi (e + 53) :: rat) < 2 powi binade \<bar>?x\<bar>" by simp
  then have ke: "k \<le> e + 1" by (simp add: two_powi_less_iff k_def)
  have "\<exists>w. ?x = of_int w * 2 powi k"
  proof (cases "k \<le> e")
    case True
    then have "?x = of_int (m * 2 ^ nat (e - k)) * 2 powi k"
      by (simp add: power_int_add [symmetric] flip: two_powi_nat)
    then show ?thesis by blast
  next
    case False
    with ke have k: "k = e + 1" by simp
    then have "2 ^ 53 * 2 powi e \<le> \<bar>?x\<bar>"
      using binade_bounds(1) [OF pos] by (simp add: power_int_add k_def algebra_simps)
    then have "(2 ^ 53 :: rat) \<le> of_int \<bar>m\<bar>" by (simp add: abs)
    then have "2 ^ 53 \<le> \<bar>m\<bar>" by (metis of_int_le_iff of_int_numeral of_int_power)
    with m have "m = 2 ^ 53 \<or> m = - (2 ^ 53)" by linarith
    then have "?x = of_int (2 ^ 52) * 2 powi k \<or> ?x = of_int (- (2 ^ 52)) * 2 powi k"
      by (auto simp: k power_int_add)
    then show ?thesis by blast
  qed
  then obtain w where "?x = of_int w * 2 powi k" by blast
  then show ?thesis unfolding k_def by (rule f_round_exact)
qed simp

lemma f_round_of_int: "\<bar>n\<bar> \<le> 2 ^ 53 \<Longrightarrow> f_round (of_int n) = of_int n"
  using f_round_scaled [of n 0] by simp

text \<open>Rounding stays in the closed binade; it is monotone and idempotent.\<close>

lemma f_round_pos:
  assumes "0 < x"
  obtains r where "f_round x = of_int r * 2 powi (binade x - 52)" "2 ^ 52 \<le> r" "r \<le> 2 ^ 53"
    "r = round_half_even (x / 2 powi (binade x - 52))"
proof
  let ?q = "x / 2 powi (binade x - 52)"
  have "(2 ^ 52 :: rat) \<le> ?q" "?q \<le> (2 ^ 53 :: rat)"
    using binade_bounds [OF assms] by (simp_all add: power_int_diff power_int_add field_simps)
  then have "round_half_even (of_int (2 ^ 52)) \<le> round_half_even ?q"
    "round_half_even ?q \<le> round_half_even (of_int (2 ^ 53))"
    by (auto intro!: round_half_even_mono)
  then show "2 ^ 52 \<le> round_half_even ?q" "round_half_even ?q \<le> 2 ^ 53"
    by (simp_all only: round_half_even_of_int)
  show "f_round x = of_int (round_half_even ?q) * 2 powi (binade x - 52)"
    using assms by (simp add: f_round_def Let_def)
qed simp

lemma f_round_binade:
  assumes "0 < x" shows "2 powi binade x \<le> f_round x" "f_round x \<le> 2 powi (binade x + 1)"
proof -
  obtain r where r: "f_round x = of_int r * 2 powi (binade x - 52)" "2 ^ 52 \<le> r" "r \<le> 2 ^ 53"
    by (rule f_round_pos [OF assms])
  have "(of_int (2 ^ 52) :: rat) \<le> of_int r" "(of_int r :: rat) \<le> of_int (2 ^ 53)"
    using r(2,3) by (simp_all only: of_int_le_iff)
  then show "2 powi binade x \<le> f_round x" "f_round x \<le> 2 powi (binade x + 1)"
    by (simp_all add: r(1) power_int_diff power_int_add field_simps)
qed

lemma f_round_idem: "f_round (f_round x) = f_round x"
proof -
  have pos: "f_round (f_round y) = f_round y" if y: "0 < y" for y
  proof -
    obtain r where r: "f_round y = of_int r * 2 powi (binade y - 52)" "2 ^ 52 \<le> r" "r \<le> 2 ^ 53"
      by (rule f_round_pos [OF y])
    then show ?thesis using f_round_scaled [of r "binade y - 52"] by simp
  qed
  show ?thesis
  proof (cases x "0::rat" rule: linorder_cases)
    case less
    with pos [of "- x"] show ?thesis by (simp add: f_round_minus)
  qed (simp_all add: pos)
qed

lemma f_round_mono_pos:
  assumes "0 < x" "x \<le> y" shows "f_round x \<le> f_round y"
proof (cases "binade x = binade y")
  case True
  have "round_half_even (x / 2 powi (binade y - 52)) \<le> round_half_even (y / 2 powi (binade y - 52))"
    using assms by (intro round_half_even_mono divide_right_mono) simp_all
  with assms True show ?thesis by (simp add: f_round_def Let_def mult_right_mono)
next
  case False
  with binade_mono [OF assms] have "binade x + 1 \<le> binade y" by simp
  then have "(2 powi (binade x + 1) :: rat) \<le> 2 powi binade y" by (intro power_int_increasing) simp_all
  with f_round_binade(2) [OF assms(1)] f_round_binade(1) [of y] assms show ?thesis by linarith
qed

lemma f_round_nonneg: "0 \<le> x \<Longrightarrow> 0 \<le> f_round x"
proof (cases "x = 0")
  case False
  assume "0 \<le> x"
  with False have "0 < x" by simp
  then have "2 powi binade x \<le> f_round x" by (rule f_round_binade)
  moreover have "(0::rat) < 2 powi binade x" by simp
  ultimately show ?thesis by linarith
qed simp

lemma f_round_mono:
  assumes "x \<le> y" shows "f_round x \<le> f_round y"
proof -
  consider "0 < x" | "x \<le> 0" "0 \<le> y" | "y < 0" by linarith
  then show ?thesis
  proof cases
    case 2
    then have "0 \<le> f_round (- x)" "0 \<le> f_round y" by (simp_all add: f_round_nonneg)
    then show ?thesis by (simp add: f_round_minus)
  next
    case 3
    with assms have "f_round (- y) \<le> f_round (- x)" by (intro f_round_mono_pos) simp_all
    then show ?thesis by (simp add: f_round_minus)
  qed (rule f_round_mono_pos [OF _ assms])
qed

lemma is_float_round [simp]: "is_float (f_round x)"
  by (simp add: is_float_def f_round_idem)

lemma is_float_of_nat: "n \<le> 2 ^ 53 \<Longrightarrow> is_float (of_nat n)"
  using f_round_of_int [of "int n"] by (simp add: is_float_def)

lemma f_round_at_least: "is_float a \<Longrightarrow> a \<le> x \<Longrightarrow> a \<le> f_round x"
  by (metis f_round_mono is_float_def)

lemma f_round_at_most: "is_float a \<Longrightarrow> x \<le> a \<Longrightarrow> f_round x \<le> a"
  by (metis f_round_mono is_float_def)

section \<open>The operations\<close>

text \<open>
  Arithmetic on finite values, and the conversion of an integer. The range of an \<open>int\<close> or a
  \<open>Duration\<close> never overflows a \<open>float64\<close>.
\<close>

definition f_of_int :: "int \<Rightarrow> rat" where "f_of_int n = f_round (of_int n)"
definition f_add :: "rat \<Rightarrow> rat \<Rightarrow> rat" where "f_add x y = f_round (x + y)"
definition f_sub :: "rat \<Rightarrow> rat \<Rightarrow> rat" where "f_sub x y = f_round (x - y)"
definition f_mul :: "rat \<Rightarrow> rat \<Rightarrow> rat" where "f_mul x y = f_round (x * y)"
definition f_div :: "rat \<Rightarrow> rat \<Rightarrow> rat" where "f_div x y = f_round (x / y)"

lemmas f_ops = f_of_int_def f_add_def f_sub_def f_mul_def f_div_def

lemma f_of_int_small: "\<bar>n\<bar> \<le> 2 ^ 53 \<Longrightarrow> f_of_int n = of_int n"
  by (simp add: f_of_int_def f_round_of_int)

section \<open>Interpolation stays between its ends\<close>

lemma float_repr:
  assumes "is_float x" "0 < x"
  obtains m where "x = of_int m * 2 powi (binade x - 52)" "2 ^ 52 \<le> m" "m < 2 ^ 53"
proof -
  obtain m where m: "f_round x = of_int m * 2 powi (binade x - 52)" "2 ^ 52 \<le> m"
    by (rule f_round_pos [OF assms(2)])
  with assms(1) have x: "x = of_int m * 2 powi (binade x - 52)" by (simp add: is_float_def)
  have "of_int m * 2 powi (binade x - 52) < (2 powi (binade x + 1) :: rat)"
    using binade_bounds(2) [OF assms(2)] by (subst x [symmetric])
  also have "\<dots> = 2 ^ 53 * 2 powi (binade x - 52)" by (simp add: power_int_diff power_int_add)
  finally have "(of_int m :: rat) < of_int (2 ^ 53)" by simp
  then have "m < 2 ^ 53" by (simp only: of_int_less_iff)
  with x m(2) show thesis by (rule that)
qed

lemma float_below: "is_float y \<Longrightarrow> y < f_round z \<Longrightarrow> y \<le> z"
  using f_round_at_most [of y z] by linarith

lemma float_less_one:
  assumes "is_float x" "x < 1" shows "x \<le> 1 - 1 / 2 ^ 53"
proof (cases "0 < x")
  case True
  obtain m where m: "x = of_int m * 2 powi (binade x - 52)" "2 ^ 52 \<le> m" "m < 2 ^ 53"
    by (rule float_repr [OF assms(1) True])
  have "2 powi binade x < (2 powi 0 :: rat)" using binade_bounds(1) [OF True] assms(2) by simp
  then have "binade x \<le> - 1" unfolding two_powi_less_iff by simp
  then have "(2 powi (binade x - 52) :: rat) \<le> 2 powi (- 53)" by (intro power_int_increasing) simp_all
  moreover have "(of_int m :: rat) \<le> of_int (2 ^ 53 - 1)" using m(3) by (simp only: of_int_le_iff)
  moreover have "(0 :: rat) \<le> of_int (2 ^ 53 - 1)" by simp
  ultimately have "of_int m * 2 powi (binade x - 52) \<le> (of_int (2 ^ 53 - 1) * 2 powi (- 53) :: rat)"
    by (intro mult_mono) simp_all
  with m(1) show ?thesis by (simp add: power_int_minus)
qed simp

lemma round_half_even_below: "y < of_int m - 1 / 2 \<Longrightarrow> round_half_even y \<le> m - 1"
proof -
  assume y: "y < of_int m - 1 / 2"
  then have "\<lfloor>y\<rfloor> \<le> m - 1" by linarith
  moreover have "y - of_int \<lfloor>y\<rfloor> < 1 / 2" if "\<lfloor>y\<rfloor> = m - 1" using y that by simp
  ultimately show ?thesis by (cases "\<lfloor>y\<rfloor> = m - 1") (auto simp: round_half_even_def Let_def)
qed

lemma f_mul_less:
  assumes d: "is_float d" "0 < d" and q: "is_float q" "0 < q" "q < 1"
  shows "f_mul d q < d"
proof -
  obtain m where m: "d = of_int m * 2 powi (binade d - 52)" "2 ^ 52 \<le> m" "m < 2 ^ 53"
    by (rule float_repr [OF d])
  let ?u = "2 powi (binade d - 52) :: rat"
  have u: "0 < ?u" by simp
  have less: "d * q < d" using d(2) q by simp
  show ?thesis
  proof (cases "m = 2 ^ 52")
    case True
    then have d2: "d = 2 powi binade d" using m(1) by (simp add: power_int_diff)
    obtain k where k: "q = of_int k * 2 powi (binade q - 52)" "2 ^ 52 \<le> k" "k < 2 ^ 53"
      by (rule float_repr [OF q(1,2)])
    have "d * q = of_int k * 2 powi (binade d + (binade q - 52))"
      by (subst d2, subst k(1)) (simp add: power_int_add)
    then have "f_round (d * q) = d * q" using f_round_scaled [of k] k(2,3) by simp
    with less show ?thesis by (simp add: f_mul_def)
  next
    case False
    with m(2) have "2 ^ 52 < m" by simp
    then have half: "(2 ^ 52 :: rat) < of_int m" by (metis of_int_less_iff of_int_numeral of_int_power)
    have pos: "0 < d * q" using d(2) q(2) by simp
    show ?thesis
    proof (cases "binade (d * q) = binade d")
      case True
      have "d * q \<le> d * (1 - 1 / 2 ^ 53)"
        using d(2) float_less_one [OF q(1,3)] by (intro mult_left_mono) simp_all
      then have "d * q / ?u \<le> d * (1 - 1 / 2 ^ 53) / ?u" by (rule divide_right_mono) simp
      also have "\<dots> = of_int m - of_int m / 2 ^ 53" by (subst m(1)) (simp add: right_diff_distrib)
      also have "\<dots> < of_int m - 1 / 2" using half by simp
      finally have "round_half_even (d * q / ?u) \<le> m - 1" by (rule round_half_even_below)
      then have "(of_int (round_half_even (d * q / ?u)) :: rat) < of_int m" by simp
      then have "of_int (round_half_even (d * q / ?u)) * ?u < of_int m * ?u" using u by (rule mult_strict_right_mono)
      also have "\<dots> = d" using m(1) by simp
      finally show ?thesis using True pos d(2) q(2) by (simp add: f_mul_def f_round_def Let_def)
    next
      case False
      with binade_mono [OF pos less_imp_le [OF less]] have "binade (d * q) + 1 \<le> binade d" by simp
      then have "(2 powi (binade (d * q) + 1) :: rat) \<le> 2 powi binade d" by (intro power_int_increasing) simp_all
      with f_round_binade(2) [OF pos] have "f_round (d * q) \<le> 2 ^ 52 * ?u" by (simp add: power_int_diff)
      also have "\<dots> < of_int m * ?u" using half u by (rule mult_strict_right_mono)
      also have "\<dots> = d" using m(1) by simp
      finally show ?thesis by (simp add: f_mul_def)
    qed
  qed
qed

lemma f_interpolate:
  assumes lo: "is_float lo" and hi: "is_float hi" and le: "lo \<le> hi" and q: "is_float q" "0 \<le> q" "q < 1"
  shows "lo \<le> f_add lo (f_mul (f_sub hi lo) q)" "f_add lo (f_mul (f_sub hi lo) q) \<le> hi"
proof -
  let ?d = "f_sub hi lo"
  have d0: "0 \<le> ?d" using le by (simp add: f_sub_def f_round_nonneg)
  have "0 \<le> f_mul ?d q" using d0 q(2) by (simp add: f_mul_def f_round_nonneg)
  then show "lo \<le> f_add lo (f_mul ?d q)" using lo by (simp add: f_add_def f_round_at_least)
  have "f_mul ?d q \<le> hi - lo"
  proof (cases "?d = 0 \<or> q = 0")
    case True
    with le show ?thesis by (auto simp: f_mul_def)
  next
    case False
    with d0 q have "f_mul ?d q < ?d" by (intro f_mul_less) (auto simp: f_sub_def)
    then show ?thesis unfolding f_sub_def by (intro float_below) (simp add: f_mul_def, assumption)
  qed
  then show "f_add lo (f_mul ?d q) \<le> hi" using hi by (simp add: f_add_def f_round_at_most)
qed

text \<open>The fractional part of a value is computed exactly.\<close>

lemma float_fraction:
  assumes "is_float x" "0 \<le> x" shows "f_round (x - of_int \<lfloor>x\<rfloor>) = x - of_int \<lfloor>x\<rfloor>"
proof (cases "x < 1")
  case True
  with assms have "\<lfloor>x\<rfloor> = 0" by (simp add: floor_eq_iff)
  with assms(1) show ?thesis by (simp add: is_float_def)
next
  case False
  then have x: "0 < x" by simp
  obtain m where m: "x = of_int m * 2 powi (binade x - 52)" "2 ^ 52 \<le> m" "m < 2 ^ 53"
    by (rule float_repr [OF assms(1) x])
  show ?thesis
  proof (cases "52 \<le> binade x")
    case True
    then have "x = of_int (m * 2 ^ nat (binade x - 52))"
      by (subst m(1)) (simp flip: two_powi_nat)
    then have "x - of_int \<lfloor>x\<rfloor> = 0" by (metis diff_self floor_of_int)
    then show ?thesis by simp
  next
    case b: False
    define k where "k = nat (52 - binade x)"
    have p: "(2 powi (binade x - 52) :: rat) = 1 / 2 ^ k"
      using b power_int_minus [of "2::rat" "52 - binade x"] by (simp add: k_def two_powi_nat divide_inverse)
    define w where "w = m - \<lfloor>x\<rfloor> * 2 ^ k"
    have w: "x - of_int \<lfloor>x\<rfloor> = of_int w * 2 powi (binade x - 52)"
      by (subst m(1)) (simp add: w_def p field_simps)
    have "0 \<le> x - of_int \<lfloor>x\<rfloor>" by simp
    moreover have "(0::rat) < 2 powi (binade x - 52)" by simp
    ultimately have "(0::rat) \<le> of_int w" unfolding w by (metis mult_less_0_iff not_le)
    then have "0 \<le> w" by simp
    moreover have "w \<le> m" using x by (simp add: w_def)
    ultimately show ?thesis unfolding w using m(3) by (intro f_round_scaled) simp
  qed
qed

end
