(* ===== verification/PerfStats.thy ===== *)
theory PerfStats
  imports Float64 CredentialStore "HOL-Library.Multiset"
begin

text \<open>
  The figures the performance driver reports (\<open>cmd/perf-driver/tracker.go\<close> and
  \<open>mutation.go\<close>): seconds of a duration, percentiles with interpolation, the statistics of
  the durations of a phase, latencies. Numbers are rounded as the code rounds them. A read
  outside of a slice, which would panic, is \<open>None\<close>.
\<close>

section \<open>Seconds\<close>

text \<open>\<open>Duration.Seconds\<close>: whole seconds and the rest, each with the sign of the duration.\<close>

definition go_quot :: "int \<Rightarrow> int \<Rightarrow> int" where
  "go_quot a b = sgn a * (\<bar>a\<bar> div b)"

definition duration_seconds :: "duration \<Rightarrow> rat" where
  "duration_seconds d =
     (let sec = go_quot d second; nsec = d - sec * second
      in f_add (f_of_int sec) (f_div (f_of_int nsec) (f_of_int second)))"

lemma second_pos [simp]: "0 < second"
  by (simp add: second_def)

lemma is_float_seconds [simp]: "is_float (duration_seconds d)"
  by (simp add: duration_seconds_def f_ops Let_def)

lemma go_quot_nonneg: "0 \<le> d \<Longrightarrow> go_quot d second = d div second"
  by (auto simp: go_quot_def sgn_if)

lemma duration_seconds_nonneg: "0 \<le> d \<Longrightarrow> 0 \<le> duration_seconds d"
proof -
  assume d: "0 \<le> d"
  have "0 \<le> f_of_int (d div second)" "0 \<le> f_of_int (d - d div second * second)" "0 \<le> f_of_int second"
    using d second_pos unfolding f_of_int_def minus_div_mult_eq_mod
    by (intro f_round_nonneg of_int_nonneg; simp add: pos_imp_zdiv_nonneg_iff less_imp_le [OF second_pos])+
  then show ?thesis
    by (simp add: duration_seconds_def Let_def go_quot_nonneg d f_add_def f_div_def f_round_nonneg)
qed

section \<open>Percentiles\<close>

definition f_to_int :: "rat \<Rightarrow> int" where
  "f_to_int x = (if 0 \<le> x then \<lfloor>x\<rfloor> else \<lceil>x\<rceil>)"

definition index_at :: "'a list \<Rightarrow> int \<Rightarrow> 'a option" where
  "index_at xs i = (if 0 \<le> i \<and> i < int (length xs) then Some (xs ! nat i) else None)"

definition percentile :: "rat list \<Rightarrow> rat \<Rightarrow> rat option" where
  "percentile sorted_values quantile =
     (if length sorted_values = 0 then Some 0
      else if length sorted_values = 1 then index_at sorted_values 0
      else
        let position = f_mul quantile (f_of_int (int (length sorted_values) - 1));
            lower = f_to_int position; upper = lower + 1
        in if upper \<ge> int (length sorted_values) then index_at sorted_values lower
           else Option.bind (index_at sorted_values lower) (\<lambda>low.
             Option.bind (index_at sorted_values upper) (\<lambda>high.
               let fraction = f_sub position (f_of_int lower)
               in Some (f_add low (f_mul (f_sub high low) fraction)))))"

record completion_stats =
  cs_count :: nat
  cs_p50 :: rat
  cs_p90 :: rat
  cs_p95 :: rat
  cs_p99 :: rat
  cs_maximum :: rat
  cs_objects_per_second :: rat

definition zero_stats :: completion_stats where
  "zero_stats =
     \<lparr>cs_count = 0, cs_p50 = 0, cs_p90 = 0, cs_p95 = 0, cs_p99 = 0, cs_maximum = 0,
      cs_objects_per_second = 0\<rparr>"

definition calculate_stats :: "(string, duration) gomap \<Rightarrow> completion_stats option" where
  "calculate_stats vals =
     (let durations = sort (map (\<lambda>(_, d). duration_seconds d) vals);
          stats = zero_stats\<lparr>cs_count := length durations\<rparr>
      in if length durations = 0 then Some stats
         else
           Option.bind (percentile durations (f_round (50 / 100))) (\<lambda>p50.
           Option.bind (percentile durations (f_round (90 / 100))) (\<lambda>p90.
           Option.bind (percentile durations (f_round (95 / 100))) (\<lambda>p95.
           Option.bind (percentile durations (f_round (99 / 100))) (\<lambda>p99.
           Option.bind (index_at durations (int (length durations) - 1)) (\<lambda>maximum.
             Some (stats\<lparr>cs_p50 := p50, cs_p90 := p90, cs_p95 := p95, cs_p99 := p99,
                     cs_maximum := maximum,
                     cs_objects_per_second :=
                       (if maximum > 0 then f_div (f_of_int (int (length durations))) maximum
                        else 0)\<rparr>)))))))"

section \<open>Latencies\<close>

definition mutation_latency :: "instant \<Rightarrow> instant \<Rightarrow> rat" where
  "mutation_latency started ready =
     (if time_is_zero started \<or> time_is_zero ready \<or> ready < started then 0
      else duration_seconds (time_sub ready started))"

definition later_time :: "instant \<Rightarrow> instant \<Rightarrow> instant" where
  "later_time left right = (if left < right then right else left)"

lemma later_time_max: "later_time left right = max left right"
  by (simp add: later_time_def max_def)

lemma mutation_latency_nonneg: "0 \<le> mutation_latency started ready"
  by (simp add: mutation_latency_def duration_seconds_nonneg time_sub_def max_int64_def le_max_iff_disj)

section \<open>No index out of range\<close>

lemma index_at_Some: "0 \<le> i \<Longrightarrow> i < int (length xs) \<Longrightarrow> index_at xs i = Some (xs ! nat i)"
  by (simp add: index_at_def)

text \<open>The position of a quantile is one of the indices.\<close>

lemma percentile_position:
  assumes "0 \<le> q" "q \<le> 1" "1 \<le> n" "n \<le> 2 ^ 53"
  shows "0 \<le> f_mul q (f_of_int (int n - 1))" "f_mul q (f_of_int (int n - 1)) \<le> of_int (int n - 1)"
proof -
  let ?m = "of_int (int n - 1) :: rat"
  have m: "f_of_int (int n - 1) = ?m" using assms(3,4) by (intro f_of_int_small) auto
  have nn: "0 \<le> ?m" using assms(3) by simp
  show "0 \<le> f_mul q (f_of_int (int n - 1))"
    unfolding m f_mul_def using assms(1) nn by (intro f_round_nonneg mult_nonneg_nonneg)
  have "is_float ?m" unfolding m [symmetric] by (simp add: f_of_int_def)
  moreover have "q * ?m \<le> ?m" using mult_right_mono [OF assms(2) nn] by simp
  ultimately show "f_mul q (f_of_int (int n - 1)) \<le> ?m"
    unfolding m f_mul_def by (rule f_round_at_most)
qed

lemma f_to_int_bounds:
  assumes "0 \<le> x" "x \<le> of_int n"
  shows "0 \<le> f_to_int x" "f_to_int x \<le> n" "of_int (f_to_int x) \<le> x"
  using assms floor_mono [OF assms(2)] by (simp_all add: f_to_int_def)

definition quantile_position :: "rat list \<Rightarrow> rat \<Rightarrow> rat" where
  "quantile_position xs q = f_mul q (f_of_int (int (length xs) - 1))"

lemma quantile_position_mono:
  assumes "xs \<noteq> []" "q \<le> q'" shows "quantile_position xs q \<le> quantile_position xs q'"
proof -
  have "1 \<le> length xs" using assms(1) by (cases xs) simp_all
  then have "(0::rat) \<le> f_of_int (int (length xs) - 1)"
    unfolding f_of_int_def by (intro f_round_nonneg of_int_nonneg) linarith
  with assms(2) show ?thesis by (simp add: quantile_position_def f_mul_def f_round_mono mult_right_mono)
qed

text \<open>
  A percentile is read at the position, or interpolated between its neighbours; the fraction is
  exact and less than one.
\<close>

lemma percentile_cases:
  assumes n: "xs \<noteq> []" "length xs \<le> 2 ^ 53" and q: "0 \<le> q" "q \<le> 1"
    and pos: "pos = quantile_position xs q" and l: "l = nat \<lfloor>pos\<rfloor>"
  obtains "l = length xs - 1" "percentile xs q = Some (xs ! l)"
  | "l + 1 < length xs" "is_float (pos - of_nat l)" "0 \<le> pos - of_nat l" "pos - of_nat l < 1"
    "percentile xs q = Some (f_add (xs ! l) (f_mul (f_sub (xs ! (l + 1)) (xs ! l)) (pos - of_nat l)))"
proof -
  have len: "1 \<le> length xs" using n(1) by (cases xs) simp_all
  have b: "0 \<le> pos" "pos \<le> of_int (int (length xs) - 1)"
    unfolding pos quantile_position_def by (intro percentile_position [OF q] len n(2))+
  define k where "k = \<lfloor>pos\<rfloor>"
  have k: "f_to_int pos = k" "0 \<le> k" "k \<le> int (length xs) - 1" "int l = k"
    using f_to_int_bounds [OF b] b by (simp_all add: f_to_int_def k_def l)
  have low: "index_at xs k = Some (xs ! l)"
    using k len by (subst index_at_Some) (auto simp: l k_def)
  have frac: "f_round (pos - of_int k) = pos - of_int k"
    unfolding k_def using b(1) by (intro float_fraction) (simp_all add: pos quantile_position_def f_mul_def)
  have lk: "of_nat l = (of_int k :: rat)" using k(4) by (metis of_int_of_nat_eq)
  consider "length xs = 1" | "length xs \<noteq> 1" "k + 1 \<ge> int (length xs)" | "length xs \<noteq> 1" "k + 1 < int (length xs)"
    by linarith
  then show thesis
  proof cases
    case 1
    with k have "l = 0" by linarith
    with 1 show thesis by (intro that(1)) (simp_all add: percentile_def index_at_def)
  next
    case 2
    then have "percentile xs q = Some (xs ! l)"
      using n(1) low by (simp add: percentile_def Let_def k(1) flip: pos quantile_position_def)
    moreover have "l = length xs - 1" using 2 k by linarith
    ultimately show thesis by (intro that(1))
  next
    case 3
    then have high: "index_at xs (k + 1) = Some (xs ! (l + 1))"
      using k by (subst index_at_Some) (auto simp: nat_add_distrib l k_def)
    have kf: "f_of_int k = of_int k" using k n(2) by (intro f_of_int_small) auto
    show thesis
    proof (rule that(2))
      show "percentile xs q =
          Some (f_add (xs ! l) (f_mul (f_sub (xs ! (l + 1)) (xs ! l)) (pos - of_nat l)))"
        using n(1) 3 low high frac
        by (simp add: percentile_def Let_def k(1) kf lk f_sub_def [of pos] flip: pos quantile_position_def)
      show "is_float (pos - of_nat l)" using frac by (simp add: is_float_def lk)
      show "0 \<le> pos - of_nat l" "pos - of_nat l < 1"
        unfolding lk k_def using floor_correct [of pos] by linarith+
      show "l + 1 < length xs" using 3 k by linarith
    qed
  qed
qed

lemma percentile_range:
  assumes floats: "\<And>x. x \<in> set xs \<Longrightarrow> is_float x" and sorted: "sorted xs"
    and n: "xs \<noteq> []" "length xs \<le> 2 ^ 53" and q: "0 \<le> q" "q \<le> 1"
    and l: "l = nat \<lfloor>quantile_position xs q\<rfloor>"
  shows "\<exists>p. percentile xs q = Some p \<and> xs ! l \<le> p \<and> p \<le> xs ! min (l + 1) (length xs - 1)
    \<and> l < length xs"
  using refl l
proof (rule percentile_cases [OF n q])
  assume "l + 1 < length xs" and frac: "is_float (quantile_position xs q - of_nat l)"
    "0 \<le> quantile_position xs q - of_nat l" "quantile_position xs q - of_nat l < 1"
  moreover from this have "xs ! l \<le> xs ! (l + 1)" using sorted by (intro sorted_nth_mono) auto
  moreover have "is_float (xs ! l)" "is_float (xs ! (l + 1))" using calculation by (auto intro!: floats)
  moreover assume "percentile xs q =
    Some (f_add (xs ! l) (f_mul (f_sub (xs ! (l + 1)) (xs ! l)) (quantile_position xs q - of_nat l)))"
  ultimately show ?thesis by (auto simp: f_interpolate min_def)
qed (use n in auto)

lemma percentile_mono:
  assumes floats: "\<And>x. x \<in> set xs \<Longrightarrow> is_float x" and sorted: "sorted xs"
    and n: "xs \<noteq> []" "length xs \<le> 2 ^ 53" and q: "0 \<le> q" "q \<le> q'" "q' \<le> 1"
    and p: "percentile xs q = Some p" "percentile xs q' = Some p'"
  shows "p \<le> p'"
proof -
  let ?l = "\<lambda>q. nat \<lfloor>quantile_position xs q\<rfloor>"
  have q': "0 \<le> q'" "q \<le> 1" using q by simp_all
  have posle: "quantile_position xs q \<le> quantile_position xs q'" by (rule quantile_position_mono [OF n(1) q(2)])
  then have "?l q \<le> ?l q'" by (intro nat_mono floor_mono)
  show ?thesis
  proof (cases "?l q = ?l q'")
    case False
    with \<open>?l q \<le> ?l q'\<close> have "?l q + 1 \<le> ?l q'" by simp
    moreover have range: "p \<le> xs ! min (?l q + 1) (length xs - 1)" "xs ! ?l q' \<le> p'" "?l q' < length xs"
      using percentile_range [OF floats sorted n q(1) q'(2) refl] percentile_range [OF floats sorted n q'(1) q(3) refl] p
      by auto
    ultimately have "xs ! min (?l q + 1) (length xs - 1) \<le> xs ! ?l q'"
      using sorted by (intro sorted_nth_mono) auto
    with range show ?thesis by linarith
  next
    case same: True
    from refl refl show ?thesis
    proof (rule percentile_cases [OF n q(1) q'(2)])
      assume a: "?l q = length xs - 1" "percentile xs q = Some (xs ! ?l q)"
      from refl refl show ?thesis
        by (rule percentile_cases [OF n q'(1) q(3)]) (use a p same in auto)
    next
      assume a: "?l q + 1 < length xs" "percentile xs q = Some (f_add (xs ! ?l q)
        (f_mul (f_sub (xs ! (?l q + 1)) (xs ! ?l q)) (quantile_position xs q - of_nat (?l q))))"
      have "xs ! ?l q \<le> xs ! (?l q + 1)" using sorted a(1) by (intro sorted_nth_mono) auto
      then have "0 \<le> f_sub (xs ! (?l q + 1)) (xs ! ?l q)" by (simp add: f_sub_def f_round_nonneg)
      then have "f_add (xs ! ?l q) (f_mul (f_sub (xs ! (?l q + 1)) (xs ! ?l q)) (quantile_position xs q - of_nat (?l q)))
          \<le> f_add (xs ! ?l q) (f_mul (f_sub (xs ! (?l q + 1)) (xs ! ?l q)) (quantile_position xs q' - of_nat (?l q)))"
        using posle unfolding f_add_def f_mul_def by (intro f_round_mono add_left_mono mult_left_mono diff_right_mono)
      then have step: "percentile xs q' = Some (f_add (xs ! ?l q)
          (f_mul (f_sub (xs ! (?l q + 1)) (xs ! ?l q)) (quantile_position xs q' - of_nat (?l q)))) \<Longrightarrow> p \<le> p'"
        using a(2) p by simp
      from refl refl show ?thesis
      proof (rule percentile_cases [OF n q'(1) q(3)])
        assume "?l q' = length xs - 1"
        with a(1) same show ?thesis by simp
      next
        assume "percentile xs q' = Some (f_add (xs ! ?l q')
          (f_mul (f_sub (xs ! (?l q' + 1)) (xs ! ?l q')) (quantile_position xs q' - of_nat (?l q'))))"
        with same show ?thesis by (intro step) simp
      qed
    qed
  qed
qed

definition duration_list :: "(string, duration) gomap \<Rightarrow> rat list" where
  "duration_list vals = sort (map (\<lambda>(_, d). duration_seconds d) vals)"

lemma duration_list_facts:
  "sorted (duration_list vals)" "length (duration_list vals) = length vals"
  "set (duration_list vals) = (\<lambda>(_, d). duration_seconds d) ` set vals"
  "duration_list vals = [] \<longleftrightarrow> vals = []"
  by (simp_all add: duration_list_def flip: length_0_conv)

lemma duration_list_float: "x \<in> set (duration_list vals) \<Longrightarrow> is_float x"
  by (auto simp: duration_list_facts)

lemma duration_list_cong:
  assumes "gm_wf vals" "gm_wf vals'" "gm_get vals = gm_get vals'"
  shows "duration_list vals = duration_list vals'"
proof -
  have "set vals = set vals'"
    using assms map_of_inject_set [of vals vals'] by (simp add: gm_wf_def)
  moreover have "distinct vals" "distinct vals'"
    using assms distinct_map [of fst] by (auto simp: gm_wf_def)
  ultimately have "mset vals = mset vals'" by (simp add: set_eq_iff_mset_eq_distinct)
  then have "mset (map (\<lambda>(_, d). duration_seconds d) vals)
      = mset (map (\<lambda>(_, d). duration_seconds d) vals')"
    by (simp only: mset_map)
  then show ?thesis unfolding duration_list_def by (intro properties_for_sort) simp_all
qed

lemma sorted_last_greatest:
  assumes "sorted xs" "xs \<noteq> []"
  shows "xs ! (length xs - 1) \<in> set xs" "x \<in> set xs \<Longrightarrow> x \<le> xs ! (length xs - 1)"
    "x \<in> set xs \<Longrightarrow> xs ! 0 \<le> x"
  using assms by (simp_all, auto simp: in_set_conv_nth intro!: sorted_nth_mono)

lemma round_hundredth: "0 \<le> x \<Longrightarrow> x \<le> 1 \<Longrightarrow> 0 \<le> f_round x \<and> f_round x \<le> 1"
  using f_round_at_most [of 1 x] is_float_of_nat [of 1] by (simp add: f_round_nonneg)

text \<open>
  The statistics are defined; the percentiles are ordered and lie between the least and the
  greatest duration.
\<close>

lemma calculate_stats_Some:
  assumes "vals \<noteq> []" "length vals \<le> 2 ^ 53"
  obtains s where "calculate_stats vals = Some s" "cs_count s = length vals"
    "cs_maximum s = duration_list vals ! (length vals - 1)"
    "duration_list vals ! 0 \<le> cs_p50 s" "cs_p50 s \<le> cs_p90 s" "cs_p90 s \<le> cs_p95 s"
    "cs_p95 s \<le> cs_p99 s" "cs_p99 s \<le> cs_maximum s"
    "0 < cs_maximum s \<Longrightarrow>
       cs_objects_per_second s = f_div (f_of_int (int (length vals))) (cs_maximum s)"
proof -
  let ?ds = "duration_list vals"
  have ds: "?ds \<noteq> []" "length ?ds \<le> 2 ^ 53" "sorted ?ds"
    using assms by (simp_all add: duration_list_facts)
  note range = percentile_range [where xs = ?ds, OF duration_list_float [where vals = vals] ds(3,1,2) _ _ refl]
  have "\<exists>p. percentile ?ds (f_round q) = Some p \<and> ?ds ! 0 \<le> p \<and> p \<le> ?ds ! (length vals - 1)"
    if q: "0 \<le> q" "q \<le> 1" for q
  proof -
    obtain p l where p: "percentile ?ds (f_round q) = Some p" "?ds ! l \<le> p"
        "p \<le> ?ds ! min (l + 1) (length ?ds - 1)" "l < length ?ds"
      using range [where q = "f_round q"] round_hundredth [OF q] by blast
    have "?ds ! 0 \<le> ?ds ! l" "?ds ! min (l + 1) (length ?ds - 1) \<le> ?ds ! (length ?ds - 1)"
      using p(4) by (intro sorted_nth_mono ds; simp)+
    with p show ?thesis by (auto simp: duration_list_facts)
  qed
  note pc = this
  obtain p50 p90 p95 p99 where p:
      "percentile ?ds (f_round (50 / 100)) = Some p50" "?ds ! 0 \<le> p50"
      "percentile ?ds (f_round (90 / 100)) = Some p90"
      "percentile ?ds (f_round (95 / 100)) = Some p95"
      "percentile ?ds (f_round (99 / 100)) = Some p99" "p99 \<le> ?ds ! (length vals - 1)"
    using pc [of "50 / 100"] pc [of "90 / 100"] pc [of "95 / 100"] pc [of "99 / 100"] by auto
  note mono = percentile_mono [OF duration_list_float [where vals = vals] ds(3,1,2)]
  have hundredths: "f_round q \<le> f_round q'" "0 \<le> f_round q" "f_round q' \<le> 1"
    if "0 \<le> q" "q \<le> q'" "q' \<le> 1" for q q'
    using that round_hundredth [of q] round_hundredth [of q'] f_round_mono [of q q'] by auto
  have le: "p50 \<le> p90"
    using hundredths [of "50 / 100" "90 / 100"] by (intro mono [OF _ _ _ _ p(1,3)]) auto
  moreover have "p90 \<le> p95"
    using hundredths [of "90 / 100" "95 / 100"] by (intro mono [OF _ _ _ _ p(3,4)]) auto
  moreover have "p95 \<le> p99"
    using hundredths [of "95 / 100" "99 / 100"] by (intro mono [OF _ _ _ _ p(4,5)]) auto
  ultimately have le: "p50 \<le> p90" "p90 \<le> p95" "p95 \<le> p99" by auto
  have last: "index_at ?ds (int (length ?ds) - 1) = Some (?ds ! (length vals - 1))"
    using assms by (cases vals) (simp_all add: index_at_def duration_list_facts nat_diff_distrib)
  show thesis
  proof (rule that)
    show "calculate_stats vals =
        Some \<lparr>cs_count = length vals, cs_p50 = p50, cs_p90 = p90, cs_p95 = p95, cs_p99 = p99,
              cs_maximum = ?ds ! (length vals - 1),
              cs_objects_per_second =
                (if ?ds ! (length vals - 1) > 0
                 then f_div (f_of_int (int (length vals))) (?ds ! (length vals - 1)) else 0)\<rparr>"
      using assms last p(1,3,4,5)
      by (simp add: calculate_stats_def Let_def duration_list_facts zero_stats_def
        flip: duration_list_def)
  qed (use p le in auto)
qed

lemma calculate_stats_Nil: "calculate_stats [] = Some zero_stats"
  by (simp add: calculate_stats_def zero_stats_def)

lemma calculate_stats_cong:
  assumes "gm_wf vals" "gm_wf vals'" "gm_get vals = gm_get vals'"
  shows "calculate_stats vals = calculate_stats vals'"
  using duration_list_cong [OF assms] unfolding calculate_stats_def duration_list_def by simp

section \<open>The reported statistics\<close>

text \<open>
  Whatever the durations of the completed objects are, the statistics of a phase are computed
  without an index out of range, do not depend on the order in which the map is visited, count
  every object, report the greatest duration as the maximum, and list percentiles that are ordered
  and lie between the least and the greatest duration, although every operation rounds; the
  throughput is the count over the maximum.
\<close>

lemma statistics_of_durations:
  assumes wf: "gm_wf vals" and ne: "vals \<noteq> []" and size: "length vals \<le> 2 ^ 53"
  shows "\<exists>s. calculate_stats vals = Some s
    \<and> (\<forall>other. gm_wf other \<and> gm_get other = gm_get vals \<longrightarrow> calculate_stats other = Some s)
    \<and> cs_count s = length vals
    \<and> cs_maximum s \<in> duration_seconds ` snd ` set vals
    \<and> (\<forall>(_, d) \<in> set vals. duration_seconds d \<le> cs_maximum s)
    \<and> (\<exists>(_, d) \<in> set vals. duration_seconds d \<le> cs_p50 s)
    \<and> cs_p50 s \<le> cs_p90 s \<and> cs_p90 s \<le> cs_p95 s \<and> cs_p95 s \<le> cs_p99 s
    \<and> cs_p99 s \<le> cs_maximum s
    \<and> (0 < cs_maximum s \<longrightarrow>
         cs_objects_per_second s = f_div (f_of_int (int (length vals))) (cs_maximum s))"
proof -
  obtain s where s: "calculate_stats vals = Some s" "cs_count s = length vals"
    "cs_maximum s = duration_list vals ! (length vals - 1)"
    "duration_list vals ! 0 \<le> cs_p50 s" "cs_p50 s \<le> cs_p90 s" "cs_p90 s \<le> cs_p95 s"
    "cs_p95 s \<le> cs_p99 s" "cs_p99 s \<le> cs_maximum s"
    "0 < cs_maximum s \<Longrightarrow>
       cs_objects_per_second s = f_div (f_of_int (int (length vals))) (cs_maximum s)"
    using calculate_stats_Some [OF ne size] by metis
  have ds: "sorted (duration_list vals)" "duration_list vals \<noteq> []"
    using ne by (simp_all add: duration_list_facts)
  note last = sorted_last_greatest [OF ds, unfolded duration_list_facts(2,3)]
  have first: "duration_list vals ! 0 \<in> (\<lambda>(_, d). duration_seconds d) ` set vals"
    using ds(2) nth_mem [of 0 "duration_list vals"] by (simp add: duration_list_facts)
  have "calculate_stats other = Some s" if "gm_wf other \<and> gm_get other = gm_get vals" for other
    using calculate_stats_cong [of other vals] that wf s(1) by simp
  moreover have "cs_maximum s \<in> duration_seconds ` snd ` set vals"
    using last(1) by (simp add: s(3) image_image case_prod_unfold)
  moreover have "\<forall>(_, d) \<in> set vals. duration_seconds d \<le> cs_maximum s"
    using last(2) by (auto simp: s(3))
  moreover have "\<exists>(_, d) \<in> set vals. duration_seconds d \<le> cs_p50 s"
    using first s(4) by (force simp: case_prod_unfold)
  ultimately show ?thesis using s by blast
qed

definition sample_durations :: "(string, duration) gomap" where
  "sample_durations = [(''b'', 3 * second), (''a'', second), (''c'', 2 * second)]"

lemma statistics_of_durations_witness:
  "\<exists>s. calculate_stats sample_durations = Some s \<and> cs_count s = 3 \<and> cs_p50 s \<le> cs_maximum s
     \<and> gm_wf sample_durations"
proof -
  have wf: "gm_wf sample_durations" by (simp add: sample_durations_def gm_wf_def)
  have ne: "sample_durations \<noteq> []" and size: "length sample_durations \<le> 2 ^ 53"
    by (simp_all add: sample_durations_def)
  show ?thesis using statistics_of_durations [OF wf ne size] wf
    by (fastforce simp: sample_durations_def)
qed

text \<open>The example of the repository's own test.\<close>

lemma percentile_example: "percentile [1, 2, 3, 4, 5] (f_round (90 / 100)) = Some (f_round (46 / 10))"
  by code_simp

end
