(* ===== verification/PerfTracker.thy ===== *)
theory PerfTracker
  imports PerfStats ServiceAccountSyncer ControllerSetup
begin

text \<open>
  \<open>cmd/perf-driver/tracker.go\<close> and the types of \<open>mutation.go\<close>: what the performance driver
  concludes from the Secrets and ServiceAccounts its informers show it. Phases and injections are
  objects shared through pointers: they live in the lists \<open>tk_phases\<close> and \<open>tk_mutations\<close>, a pointer
  is an index. A channel that is closed once is a Boolean; an instant that was not set is
  \<open>zero_time\<close>. Every operation holds the tracker's mutex, so an execution is a sequence of
  operations; the current time is an argument.
\<close>

section \<open>Phases\<close>

datatype phase_kind = Initial_Phase | Expiry_Phase

definition phase_name :: "phase_kind \<Rightarrow> string" where
  "phase_name kind = (case kind of Initial_Phase \<Rightarrow> ''initial'' | Expiry_Phase \<Rightarrow> ''expiry'')"

record tracked_phase =
  tp_kind :: phase_kind
  tp_started_at :: instant
  tp_completed_at :: instant
  tp_secret_total :: nat
  tp_account_total :: nat
  tp_secret_durations :: "(string, duration) gomap"
  tp_secret_fingerprints :: "(string, string) gomap"
  tp_account_durations :: "(string, duration) gomap"
  tp_unexpected_accounts :: "(string, unit) gomap"
  tp_done :: bool

record tracked_mutation =
  tm_trigger_percent :: int
  tm_triggered_at :: instant
  tm_secrets_complete_at_trigger :: nat
  tm_secrets_total_at_trigger :: nat
  tm_existing_namespace :: string
  tm_expected_fingerprint :: string
  tm_late_account_name :: string
  tm_late_namespace :: string
  tm_late_namespace_accounts :: "(string, unit) gomap"
  tm_account_request_started :: instant
  tm_account_created_at :: instant
  tm_account_ready_at :: instant
  tm_namespace_request_started :: instant
  tm_namespace_created_at :: instant
  tm_prerequisites_at :: instant
  tm_secret_ready_at :: instant
  tm_secret_fingerprint :: string
  tm_stale_fingerprints :: "(string, unit) gomap"
  tm_account_ready :: "(string, instant) gomap"
  tm_done :: bool

record tracker =
  tk_target_namespaces :: "(string, unit) gomap"
  tk_target_accounts :: "(string, unit) gomap"
  tk_baseline_secrets :: "(string, string) gomap"
  tk_baseline_accounts :: "(string, string) gomap"
  tk_phases :: "tracked_phase list"
  tk_current :: "nat option"
  tk_mutations :: "tracked_mutation list"
  tk_mutation :: "nat option"

definition account_key :: "string \<Rightarrow> string \<Rightarrow> string" where
  "account_key namespace name = namespace @ ''/'' @ name"

definition new_tracker :: "string list \<Rightarrow> string list \<Rightarrow> tracker" where
  "new_tracker namespaces names =
     \<lparr>tk_target_namespaces = fold (\<lambda>ns. gm_put ns ()) namespaces [],
      tk_target_accounts =
        fold (\<lambda>ns m. fold (\<lambda>name. gm_put (account_key ns name) ()) names m) namespaces [],
      tk_baseline_secrets = [], tk_baseline_accounts = [], tk_phases = [], tk_current = None,
      tk_mutations = [], tk_mutation = None\<rparr>"

definition new_phase :: "phase_kind \<Rightarrow> instant \<Rightarrow> tracker \<Rightarrow> tracked_phase" where
  "new_phase kind started t =
     \<lparr>tp_kind = kind, tp_started_at = started, tp_completed_at = zero_time,
      tp_secret_total = length (tk_target_namespaces t),
      tp_account_total =
        (if kind = Expiry_Phase then 0 else length (tk_target_accounts t)),
      tp_secret_durations = [], tp_secret_fingerprints = [], tp_account_durations = [],
      tp_unexpected_accounts = [], tp_done = False\<rparr>"

definition start_phase :: "phase_kind \<Rightarrow> instant \<Rightarrow> tracker \<Rightarrow> nat \<times> tracker" where
  "start_phase kind started t =
     (length (tk_phases t),
      t\<lparr>tk_phases := tk_phases t @ [new_phase kind started t],
        tk_current := Some (length (tk_phases t))\<rparr>)"

definition update_phase :: "nat \<Rightarrow> (tracked_phase \<Rightarrow> tracked_phase) \<Rightarrow> tracker \<Rightarrow> tracker" where
  "update_phase i f t = t\<lparr>tk_phases := (tk_phases t)[i := f (tk_phases t ! i)]\<rparr>"

section \<open>What an object tells\<close>

definition references_managed_secret :: "service_account \<Rightarrow> bool" where
  "references_managed_secret account \<longleftrightarrow>
     list_ex (\<lambda>reference. reference = default_managed_secret_name) (sa_image_pull_secrets account)"

definition secret_fingerprint :: "codec \<Rightarrow> secret \<Rightarrow> string" where
  "secret_fingerprint cd s =
     cd_sha256_hex cd (gm_get0 [] (se_data s) docker_config_json_key @ [CHR 0x00]
       @ gm_get0 [] (se_annotations s) state_annotation_key)"

section \<open>Injected resources\<close>

definition update_mutation ::
  "nat \<Rightarrow> (tracked_mutation \<Rightarrow> tracked_mutation) \<Rightarrow> tracker \<Rightarrow> tracker" where
  "update_mutation i f t = t\<lparr>tk_mutations := (tk_mutations t)[i := f (tk_mutations t ! i)]\<rparr>"

definition mutation_complete :: "tracked_mutation \<Rightarrow> bool" where
  "mutation_complete m \<longleftrightarrow>
     \<not> (tm_late_account_name m \<noteq> []
        \<and> (time_is_zero (tm_account_created_at m) \<or> time_is_zero (tm_account_ready_at m)))
     \<and> \<not> (time_is_zero (tm_namespace_created_at m) \<or> time_is_zero (tm_prerequisites_at m)
          \<or> time_is_zero (tm_secret_ready_at m)
          \<or> length (tm_account_ready m) \<noteq> length (tm_late_namespace_accounts m))"

definition maybe_complete_mutation :: "tracked_mutation \<Rightarrow> tracked_mutation" where
  "maybe_complete_mutation m = (if mutation_complete m then m\<lparr>tm_done := True\<rparr> else m)"

definition see_mutation_secret ::
  "string \<Rightarrow> string \<Rightarrow> instant \<Rightarrow> tracked_mutation \<Rightarrow> tracked_mutation" where
  "see_mutation_secret namespace fingerprint now m =
     (if namespace \<noteq> tm_late_namespace m then m
      else if fingerprint \<noteq> tm_expected_fingerprint m
      then m\<lparr>tm_stale_fingerprints := gm_put fingerprint () (tm_stale_fingerprints m)\<rparr>
      else maybe_complete_mutation
        (if time_is_zero (tm_secret_ready_at m)
         then m\<lparr>tm_secret_ready_at := now, tm_secret_fingerprint := fingerprint\<rparr> else m))"

definition observe_mutation_secret :: "string \<Rightarrow> string \<Rightarrow> instant \<Rightarrow> tracker \<Rightarrow> tracker" where
  "observe_mutation_secret namespace fingerprint now t =
     (case tk_mutation t of None \<Rightarrow> t
      | Some i \<Rightarrow> update_mutation i (see_mutation_secret namespace fingerprint now) t)"

definition see_mutation_account ::
  "service_account \<Rightarrow> instant \<Rightarrow> tracked_mutation \<Rightarrow> tracked_mutation" where
  "see_mutation_account account now m =
     (if \<not> references_managed_secret account then m
      else
        let m1 =
              (if sa_namespace account = tm_existing_namespace m
                  \<and> sa_name account = tm_late_account_name m
                  \<and> time_is_zero (tm_account_ready_at m)
               then m\<lparr>tm_account_ready_at := now\<rparr> else m);
            m2 =
              (if sa_namespace account = tm_late_namespace m1
                  \<and> gm_get (tm_late_namespace_accounts m1) (sa_name account) \<noteq> None
                  \<and> gm_get (tm_account_ready m1) (sa_name account) = None
               then m1\<lparr>tm_account_ready := gm_put (sa_name account) now (tm_account_ready m1)\<rparr>
               else m1)
        in maybe_complete_mutation m2)"

definition observe_mutation_account :: "service_account \<Rightarrow> instant \<Rightarrow> tracker \<Rightarrow> tracker" where
  "observe_mutation_account account now t =
     (case tk_mutation t of None \<Rightarrow> t
      | Some i \<Rightarrow> update_mutation i (see_mutation_account account now) t)"

section \<open>Observations\<close>

definition phase_converged :: "tracked_phase \<Rightarrow> bool" where
  "phase_converged p \<longleftrightarrow>
     length (tp_secret_durations p) = tp_secret_total p
     \<and> (tp_kind p = Initial_Phase \<longrightarrow> length (tp_account_durations p) = tp_account_total p)"

definition maybe_complete :: "instant \<Rightarrow> tracked_phase \<Rightarrow> tracked_phase" where
  "maybe_complete now p =
     (if phase_converged p \<and> \<not> tp_done p then p\<lparr>tp_completed_at := now, tp_done := True\<rparr> else p)"

definition complete_secret ::
  "string \<Rightarrow> string \<Rightarrow> instant \<Rightarrow> tracked_phase \<Rightarrow> tracked_phase" where
  "complete_secret namespace fingerprint now p =
     (if gm_get (tp_secret_durations p) namespace = None
      then p\<lparr>tp_secret_durations :=
               gm_put namespace (time_sub now (tp_started_at p)) (tp_secret_durations p),
             tp_secret_fingerprints := gm_put namespace fingerprint (tp_secret_fingerprints p)\<rparr>
      else p)"

definition observe_secret :: "codec \<Rightarrow> secret option \<Rightarrow> instant \<Rightarrow> tracker \<Rightarrow> tracker" where
  "observe_secret cd secret now t =
     (case secret of None \<Rightarrow> t
      | Some s \<Rightarrow>
          if se_name s \<noteq> default_managed_secret_name then t
          else if \<not> is_usable_for_service_account s then t
          else
            let ns = se_namespace s; fingerprint = secret_fingerprint cd s;
                t1 = observe_mutation_secret ns fingerprint now t
            in if gm_get (tk_target_namespaces t1) ns = None then t1
               else (case tk_current t1 of None \<Rightarrow> t1
                 | Some i \<Rightarrow>
                     let p = tk_phases t1 ! i
                     in if now < tp_started_at p then t1
                        else (case tp_kind p of
                            Initial_Phase \<Rightarrow>
                              update_phase i (maybe_complete now \<circ> complete_secret ns fingerprint now)
                                (t1\<lparr>tk_baseline_secrets :=
                                      gm_put ns fingerprint (tk_baseline_secrets t1)\<rparr>)
                          | Expiry_Phase \<Rightarrow>
                              (case gm_get (tk_baseline_secrets t1) ns of None \<Rightarrow> t1
                               | Some baseline \<Rightarrow>
                                   if fingerprint = baseline then t1
                                   else update_phase i
                                     (maybe_complete now \<circ> complete_secret ns fingerprint now) t1))))"

definition complete_account :: "string \<Rightarrow> instant \<Rightarrow> tracked_phase \<Rightarrow> tracked_phase" where
  "complete_account key now p =
     (if gm_get (tp_account_durations p) key = None
      then p\<lparr>tp_account_durations :=
               gm_put key (time_sub now (tp_started_at p)) (tp_account_durations p)\<rparr>
      else p)"

definition unexpected_account :: "string \<Rightarrow> tracked_phase \<Rightarrow> tracked_phase" where
  "unexpected_account key p =
     p\<lparr>tp_unexpected_accounts := gm_put key () (tp_unexpected_accounts p)\<rparr>"

definition observe_account :: "service_account option \<Rightarrow> instant \<Rightarrow> tracker \<Rightarrow> tracker" where
  "observe_account account now t =
     (case account of None \<Rightarrow> t
      | Some a \<Rightarrow>
          let key = account_key (sa_namespace a) (sa_name a);
              t1 = observe_mutation_account a now t
          in if gm_get (tk_target_accounts t1) key = None then t1
             else (case tk_current t1 of None \<Rightarrow> t1
               | Some i \<Rightarrow>
                   let p = tk_phases t1 ! i
                   in if now < tp_started_at p then t1
                      else (case tp_kind p of
                          Initial_Phase \<Rightarrow>
                            if \<not> references_managed_secret a then t1
                            else update_phase i (maybe_complete now \<circ> complete_account key now)
                              (t1\<lparr>tk_baseline_accounts :=
                                    gm_put key (sa_resource_version a) (tk_baseline_accounts t1)\<rparr>)
                        | Expiry_Phase \<Rightarrow>
                            (case gm_get (tk_baseline_accounts t1) key of
                               None \<Rightarrow> update_phase i (maybe_complete now) t1
                             | Some baseline \<Rightarrow>
                                 if sa_resource_version a \<noteq> baseline
                                 then update_phase i (maybe_complete now \<circ> unexpected_account key) t1
                                 else update_phase i (maybe_complete now) t1))))"

section \<open>Reports\<close>

record phase_progress =
  pg_timestamp :: instant
  pg_elapsed :: duration
  pg_secrets_complete :: nat
  pg_secrets_total :: nat
  pg_accounts_complete :: nat
  pg_accounts_total :: nat
  pg_unexpected_accounts :: nat

definition phase_elapsed :: "tracked_phase \<Rightarrow> instant \<Rightarrow> duration" where
  "phase_elapsed p now =
     (if \<not> time_is_zero (tp_completed_at p) then time_sub (tp_completed_at p) (tp_started_at p)
      else time_sub now (tp_started_at p))"

definition progress_of :: "tracked_phase \<Rightarrow> instant \<Rightarrow> phase_progress" where
  "progress_of p now =
     \<lparr>pg_timestamp = now, pg_elapsed = phase_elapsed p now,
      pg_secrets_complete = length (tp_secret_durations p), pg_secrets_total = tp_secret_total p,
      pg_accounts_complete = length (tp_account_durations p),
      pg_accounts_total = tp_account_total p,
      pg_unexpected_accounts = length (tp_unexpected_accounts p)\<rparr>"

record phase_summary =
  ps_name :: string
  ps_started_at :: instant
  ps_completed_at :: instant
  ps_duration_seconds :: rat
  ps_secret_completion :: completion_stats
  ps_account_completion :: completion_stats
  ps_unexpected_accounts :: nat

definition summary_of :: "tracked_phase \<Rightarrow> instant \<Rightarrow> phase_summary option" where
  "summary_of p now =
     (let completed = (if time_is_zero (tp_completed_at p) then now else tp_completed_at p)
      in Option.bind (calculate_stats (tp_secret_durations p)) (\<lambda>secrets.
         Option.bind (calculate_stats (tp_account_durations p)) (\<lambda>accounts.
           Some \<lparr>ps_name = phase_name (tp_kind p), ps_started_at = tp_started_at p,
                 ps_completed_at = completed,
                 ps_duration_seconds = duration_seconds (time_sub completed (tp_started_at p)),
                 ps_secret_completion = secrets, ps_account_completion = accounts,
                 ps_unexpected_accounts = length (tp_unexpected_accounts p)\<rparr>)))"

section \<open>The trigger of an injection\<close>

text \<open>The least of the Namespaces that are complete; the empty string when there is none.\<close>

definition least_namespace :: "string list \<Rightarrow> string" where
  "least_namespace candidates =
     fold (\<lambda>candidate ns. if ns = [] \<or> candidate < ns then candidate else ns) candidates []"

definition mutation_trigger_candidate ::
  "tracked_phase \<Rightarrow> instant \<Rightarrow> phase_progress \<times> (string \<times> string) option" where
  "mutation_trigger_candidate p now =
     (let progress =
            \<lparr>pg_timestamp = now, pg_elapsed = phase_elapsed p now,
             pg_secrets_complete = length (tp_secret_durations p),
             pg_secrets_total = tp_secret_total p,
             pg_accounts_complete = length (tp_account_durations p),
             pg_accounts_total = tp_account_total p, pg_unexpected_accounts = 0\<rparr>;
          namespace = least_namespace (gm_keys (tp_secret_durations p))
      in if namespace = [] then (progress, None)
         else (progress,
               map_option (Pair namespace) (gm_get (tp_secret_fingerprints p) namespace)))"

definition start_concurrent_mutation ::
  "int \<Rightarrow> instant \<Rightarrow> phase_progress \<Rightarrow> string \<Rightarrow> string \<Rightarrow> string \<Rightarrow> string list \<Rightarrow> string
     \<Rightarrow> tracker \<Rightarrow> nat \<times> tracker" where
  "start_concurrent_mutation percent triggered progress existing account late accounts expected t =
     (length (tk_mutations t),
      t\<lparr>tk_mutations := tk_mutations t @
          [\<lparr>tm_trigger_percent = percent, tm_triggered_at = triggered,
            tm_secrets_complete_at_trigger = pg_secrets_complete progress,
            tm_secrets_total_at_trigger = pg_secrets_total progress,
            tm_existing_namespace = existing, tm_expected_fingerprint = expected,
            tm_late_account_name = account, tm_late_namespace = late,
            tm_late_namespace_accounts = fold (\<lambda>name. gm_put name ()) accounts [],
            tm_account_request_started = zero_time, tm_account_created_at = zero_time,
            tm_account_ready_at = zero_time, tm_namespace_request_started = zero_time,
            tm_namespace_created_at = zero_time, tm_prerequisites_at = zero_time,
            tm_secret_ready_at = zero_time, tm_secret_fingerprint = [],
            tm_stale_fingerprints = [], tm_account_ready = [], tm_done = False\<rparr>],
        tk_mutation := Some (length (tk_mutations t))\<rparr>)"

section \<open>Marks\<close>

definition with_current_mutation ::
  "nat \<Rightarrow> (tracked_mutation \<Rightarrow> tracked_mutation) \<Rightarrow> tracker \<Rightarrow> tracker" where
  "with_current_mutation i f t = (if tk_mutation t = Some i then update_mutation i f t else t)"

definition mark_account_request_started :: "nat \<Rightarrow> instant \<Rightarrow> tracker \<Rightarrow> tracker" where
  "mark_account_request_started i now =
     with_current_mutation i (\<lambda>m. m\<lparr>tm_account_request_started := now\<rparr>)"

definition mark_account_created :: "nat \<Rightarrow> instant \<Rightarrow> tracker \<Rightarrow> tracker" where
  "mark_account_created i now =
     with_current_mutation i (\<lambda>m. maybe_complete_mutation (m\<lparr>tm_account_created_at := now\<rparr>))"

definition mark_namespace_request_started :: "nat \<Rightarrow> instant \<Rightarrow> tracker \<Rightarrow> tracker" where
  "mark_namespace_request_started i now =
     with_current_mutation i (\<lambda>m. m\<lparr>tm_namespace_request_started := now\<rparr>)"

definition mark_namespace_created :: "nat \<Rightarrow> instant \<Rightarrow> tracker \<Rightarrow> tracker" where
  "mark_namespace_created i now =
     with_current_mutation i (\<lambda>m. maybe_complete_mutation (m\<lparr>tm_namespace_created_at := now\<rparr>))"

definition mark_prerequisites_ready :: "nat \<Rightarrow> instant \<Rightarrow> tracker \<Rightarrow> tracker" where
  "mark_prerequisites_ready i now =
     with_current_mutation i (\<lambda>m. maybe_complete_mutation (m\<lparr>tm_prerequisites_at := now\<rparr>))"

section \<open>Executions\<close>

datatype tracker_event =
    Start_Phase phase_kind instant
  | See_Secret "secret option" instant
  | See_Account "service_account option" instant
  | Start_Mutation int instant phase_progress string string string "string list" string
  | Mark_Account_Request nat instant
  | Mark_Account_Created nat instant
  | Mark_Namespace_Request nat instant
  | Mark_Namespace_Created nat instant
  | Mark_Prerequisites nat instant

definition tracker_step :: "codec \<Rightarrow> tracker_event \<Rightarrow> tracker \<Rightarrow> tracker" where
  "tracker_step cd e t =
     (case e of
        Start_Phase kind started \<Rightarrow> snd (start_phase kind started t)
      | See_Secret secret now \<Rightarrow> observe_secret cd secret now t
      | See_Account account now \<Rightarrow> observe_account account now t
      | Start_Mutation percent triggered progress existing account late accounts expected \<Rightarrow>
          snd (start_concurrent_mutation percent triggered progress existing account late accounts
            expected t)
      | Mark_Account_Request i now \<Rightarrow> mark_account_request_started i now t
      | Mark_Account_Created i now \<Rightarrow> mark_account_created i now t
      | Mark_Namespace_Request i now \<Rightarrow> mark_namespace_request_started i now t
      | Mark_Namespace_Created i now \<Rightarrow> mark_namespace_created i now t
      | Mark_Prerequisites i now \<Rightarrow> mark_prerequisites_ready i now t)"

definition tracker_run :: "codec \<Rightarrow> tracker_event list \<Rightarrow> tracker \<Rightarrow> tracker" where
  "tracker_run cd es t = fold (tracker_step cd) es t"

lemma tracker_run_simps [simp]:
  "tracker_run cd [] t = t" "tracker_run cd (e # es) t = tracker_run cd es (tracker_step cd e t)"
  "tracker_run cd (es @ es') t = tracker_run cd es' (tracker_run cd es t)"
  by (simp_all add: tracker_run_def)

section \<open>Which observations count\<close>

definition secret_counts ::
  "codec \<Rightarrow> phase_kind \<Rightarrow> (string \<Rightarrow> string option) \<Rightarrow> instant \<Rightarrow> secret \<Rightarrow> instant \<Rightarrow> bool" where
  "secret_counts cd kind baseline started s now \<longleftrightarrow>
     se_name s = default_managed_secret_name \<and> is_usable_for_service_account s \<and> started \<le> now
     \<and> (kind = Expiry_Phase \<longrightarrow>
          baseline (se_namespace s) \<noteq> None
          \<and> baseline (se_namespace s) \<noteq> Some (secret_fingerprint cd s))"

definition account_counts :: "phase_kind \<Rightarrow> instant \<Rightarrow> service_account \<Rightarrow> instant \<Rightarrow> bool" where
  "account_counts kind started a now \<longleftrightarrow>
     kind = Initial_Phase \<and> references_managed_secret a \<and> started \<le> now"

text \<open>What an operation on injections leaves alone.\<close>

lemma update_mutation_frame [simp]:
  "tk_target_namespaces (update_mutation i f t) = tk_target_namespaces t"
  "tk_target_accounts (update_mutation i f t) = tk_target_accounts t"
  "tk_baseline_secrets (update_mutation i f t) = tk_baseline_secrets t"
  "tk_baseline_accounts (update_mutation i f t) = tk_baseline_accounts t"
  "tk_phases (update_mutation i f t) = tk_phases t"
  "tk_current (update_mutation i f t) = tk_current t"
  "tk_mutation (update_mutation i f t) = tk_mutation t"
  "length (tk_mutations (update_mutation i f t)) = length (tk_mutations t)"
  by (simp_all add: update_mutation_def)

lemma update_phase_frame [simp]:
  "tk_target_namespaces (update_phase i f t) = tk_target_namespaces t"
  "tk_target_accounts (update_phase i f t) = tk_target_accounts t"
  "tk_baseline_secrets (update_phase i f t) = tk_baseline_secrets t"
  "tk_baseline_accounts (update_phase i f t) = tk_baseline_accounts t"
  "tk_current (update_phase i f t) = tk_current t"
  "tk_mutation (update_phase i f t) = tk_mutation t"
  "tk_mutations (update_phase i f t) = tk_mutations t"
  "tk_phases (update_phase i f t) = (tk_phases t)[i := f (tk_phases t ! i)]"
  by (simp_all add: update_phase_def)

lemma observe_mutation_frame [simp]:
  "tk_target_namespaces (observe_mutation_secret ns fp now t) = tk_target_namespaces t"
  "tk_target_accounts (observe_mutation_secret ns fp now t) = tk_target_accounts t"
  "tk_baseline_secrets (observe_mutation_secret ns fp now t) = tk_baseline_secrets t"
  "tk_baseline_accounts (observe_mutation_secret ns fp now t) = tk_baseline_accounts t"
  "tk_phases (observe_mutation_secret ns fp now t) = tk_phases t"
  "tk_current (observe_mutation_secret ns fp now t) = tk_current t"
  "tk_mutation (observe_mutation_secret ns fp now t) = tk_mutation t"
  "tk_target_namespaces (observe_mutation_account a now t) = tk_target_namespaces t"
  "tk_target_accounts (observe_mutation_account a now t) = tk_target_accounts t"
  "tk_baseline_secrets (observe_mutation_account a now t) = tk_baseline_secrets t"
  "tk_baseline_accounts (observe_mutation_account a now t) = tk_baseline_accounts t"
  "tk_phases (observe_mutation_account a now t) = tk_phases t"
  "tk_current (observe_mutation_account a now t) = tk_current t"
  "tk_mutation (observe_mutation_account a now t) = tk_mutation t"
  by (simp_all add: observe_mutation_secret_def observe_mutation_account_def split: option.split)

lemmas mark_defs = mark_account_request_started_def mark_account_created_def
  mark_namespace_request_started_def mark_namespace_created_def mark_prerequisites_ready_def

lemma with_current_mutation_frame [simp]:
  "tk_target_namespaces (with_current_mutation i f t) = tk_target_namespaces t"
  "tk_target_accounts (with_current_mutation i f t) = tk_target_accounts t"
  "tk_baseline_secrets (with_current_mutation i f t) = tk_baseline_secrets t"
  "tk_baseline_accounts (with_current_mutation i f t) = tk_baseline_accounts t"
  "tk_phases (with_current_mutation i f t) = tk_phases t"
  "tk_current (with_current_mutation i f t) = tk_current t"
  by (simp_all add: with_current_mutation_def)

lemma observe_secret_frame [simp]:
  "tk_target_namespaces (observe_secret cd s now t) = tk_target_namespaces t"
  "tk_target_accounts (observe_secret cd s now t) = tk_target_accounts t"
  "tk_baseline_accounts (observe_secret cd s now t) = tk_baseline_accounts t"
  "tk_current (observe_secret cd s now t) = tk_current t"
  by (simp_all add: observe_secret_def Let_def split: option.split phase_kind.split)

lemma observe_account_frame [simp]:
  "tk_target_namespaces (observe_account a now t) = tk_target_namespaces t"
  "tk_target_accounts (observe_account a now t) = tk_target_accounts t"
  "tk_baseline_secrets (observe_account a now t) = tk_baseline_secrets t"
  "tk_current (observe_account a now t) = tk_current t"
  by (simp_all add: observe_account_def Let_def split: option.split phase_kind.split)

text \<open>An observation changes the current phase only, and only when it counts.\<close>

lemma observe_secret_phases:
  assumes "tk_current t = Some i"
  shows "tk_phases (observe_secret cd (Some s) now t) =
    (if gm_get (tk_target_namespaces t) (se_namespace s) \<noteq> None
        \<and> secret_counts cd (tp_kind (tk_phases t ! i)) (gm_get (tk_baseline_secrets t))
             (tp_started_at (tk_phases t ! i)) s now
     then (tk_phases t)[i := maybe_complete now
            (complete_secret (se_namespace s) (secret_fingerprint cd s) now (tk_phases t ! i))]
     else tk_phases t)"
  using assms
  by (auto simp: observe_secret_def Let_def secret_counts_def split: option.split phase_kind.split)

lemma observe_account_phases:
  assumes "tk_current t = Some i"
  shows "tk_phases (observe_account (Some a) now t) =
    (let key = account_key (sa_namespace a) (sa_name a); p = tk_phases t ! i
     in if gm_get (tk_target_accounts t) key = None \<or> now < tp_started_at p
          \<or> (tp_kind p = Initial_Phase \<and> \<not> references_managed_secret a)
        then tk_phases t
        else (tk_phases t)[i := maybe_complete now
            (if account_counts (tp_kind p) (tp_started_at p) a now then complete_account key now p
             else if gm_get (tk_baseline_accounts t) key \<noteq> None
                  \<and> gm_get (tk_baseline_accounts t) key \<noteq> Some (sa_resource_version a)
             then unexpected_account key p else p)])"
  using assms
  by (auto simp: observe_account_def Let_def account_counts_def split: option.split phase_kind.split)

lemma observe_none [simp]:
  "tk_current t = None \<Longrightarrow> tk_phases (observe_secret cd s now t) = tk_phases t"
  "tk_current t = None \<Longrightarrow> tk_phases (observe_account a now t) = tk_phases t"
  "observe_secret cd None now t = t" "observe_account None now t = t"
  by (simp_all add: observe_secret_def observe_account_def Let_def split: option.split)

section \<open>One event and one phase\<close>

text \<open>The instant at which an event shows an object of the phase in its final form.\<close>

definition secret_instant ::
  "codec \<Rightarrow> phase_kind \<Rightarrow> (string \<Rightarrow> string option) \<Rightarrow> instant \<Rightarrow> string \<Rightarrow> tracker_event
     \<Rightarrow> instant option" where
  "secret_instant cd kind baseline started ns e =
     (case e of
        See_Secret (Some s) now \<Rightarrow>
          if se_namespace s = ns \<and> secret_counts cd kind baseline started s now then Some now else None
      | _ \<Rightarrow> None)"

definition account_instant ::
  "phase_kind \<Rightarrow> instant \<Rightarrow> string \<Rightarrow> tracker_event \<Rightarrow> instant option" where
  "account_instant kind started key e =
     (case e of
        See_Account (Some a) now \<Rightarrow>
          if account_key (sa_namespace a) (sa_name a) = key \<and> account_counts kind started a now
          then Some now else None
      | _ \<Rightarrow> None)"

definition is_start :: "tracker_event \<Rightarrow> bool" where
  "is_start e \<longleftrightarrow> (case e of Start_Phase _ _ \<Rightarrow> True | _ \<Rightarrow> False)"

text \<open>The current phase after an event, as a function of the phase alone.\<close>

definition phase_after :: "codec \<Rightarrow> tracker \<Rightarrow> tracker_event \<Rightarrow> tracked_phase \<Rightarrow> tracked_phase" where
  "phase_after cd t e p =
     (case e of
        See_Secret (Some s) now \<Rightarrow>
          if gm_get (tk_target_namespaces t) (se_namespace s) \<noteq> None
             \<and> secret_counts cd (tp_kind p) (gm_get (tk_baseline_secrets t)) (tp_started_at p) s now
          then maybe_complete now
            (complete_secret (se_namespace s) (secret_fingerprint cd s) now p)
          else p
      | See_Account (Some a) now \<Rightarrow>
          (let key = account_key (sa_namespace a) (sa_name a)
           in if gm_get (tk_target_accounts t) key = None \<or> now < tp_started_at p
                \<or> (tp_kind p = Initial_Phase \<and> \<not> references_managed_secret a)
              then p
              else maybe_complete now
                (if account_counts (tp_kind p) (tp_started_at p) a now then complete_account key now p
                 else if gm_get (tk_baseline_accounts t) key \<noteq> None
                      \<and> gm_get (tk_baseline_accounts t) key \<noteq> Some (sa_resource_version a)
                 then unexpected_account key p else p))
      | _ \<Rightarrow> p)"

lemma step_frame:
  assumes "\<not> is_start e"
  shows "tk_target_namespaces (tracker_step cd e t) = tk_target_namespaces t"
    "tk_target_accounts (tracker_step cd e t) = tk_target_accounts t"
    "tk_current (tracker_step cd e t) = tk_current t"
  using assms
  by (cases e; simp add: tracker_step_def is_start_def mark_defs start_concurrent_mutation_def)+

lemma step_phases:
  assumes "\<not> is_start e" "tk_current t = Some i" "i < length (tk_phases t)"
  shows "tk_phases (tracker_step cd e t)
    = (tk_phases t)[i := phase_after cd t e (tk_phases t ! i)]"
proof (cases e)
  case (See_Secret secret now)
  with assms show ?thesis
    by (cases secret) (simp_all add: tracker_step_def phase_after_def observe_secret_phases)
next
  case (See_Account account now)
  with assms show ?thesis
    by (cases account) (simp_all add: tracker_step_def phase_after_def observe_account_phases Let_def)
qed (use assms in \<open>simp_all add: tracker_step_def phase_after_def mark_defs is_start_def
  start_concurrent_mutation_def\<close>)

lemma step_baseline:
  assumes "\<not> is_start e" "tk_current t = Some i" "tp_kind (tk_phases t ! i) = Expiry_Phase"
  shows "tk_baseline_secrets (tracker_step cd e t) = tk_baseline_secrets t"
proof (cases e)
  case (See_Secret secret now)
  with assms show ?thesis
    by (cases secret) (auto simp: tracker_step_def observe_secret_def Let_def split: option.split)
qed (use assms in \<open>auto simp: tracker_step_def mark_defs is_start_def
  start_concurrent_mutation_def\<close>)

lemma maybe_complete_frame [simp]:
  "tp_kind (maybe_complete now p) = tp_kind p"
  "tp_started_at (maybe_complete now p) = tp_started_at p"
  "tp_secret_total (maybe_complete now p) = tp_secret_total p"
  "tp_account_total (maybe_complete now p) = tp_account_total p"
  "tp_secret_durations (maybe_complete now p) = tp_secret_durations p"
  "tp_secret_fingerprints (maybe_complete now p) = tp_secret_fingerprints p"
  "tp_account_durations (maybe_complete now p) = tp_account_durations p"
  "tp_unexpected_accounts (maybe_complete now p) = tp_unexpected_accounts p"
  "tp_done (maybe_complete now p) \<longleftrightarrow> tp_done p \<or> phase_converged p"
  by (auto simp: maybe_complete_def)

lemma complete_frame [simp]:
  "tp_kind (complete_secret ns fp now p) = tp_kind p"
  "tp_started_at (complete_secret ns fp now p) = tp_started_at p"
  "tp_secret_total (complete_secret ns fp now p) = tp_secret_total p"
  "tp_account_total (complete_secret ns fp now p) = tp_account_total p"
  "tp_account_durations (complete_secret ns fp now p) = tp_account_durations p"
  "tp_done (complete_secret ns fp now p) = tp_done p"
  "tp_kind (complete_account key now p) = tp_kind p"
  "tp_started_at (complete_account key now p) = tp_started_at p"
  "tp_secret_total (complete_account key now p) = tp_secret_total p"
  "tp_account_total (complete_account key now p) = tp_account_total p"
  "tp_secret_durations (complete_account key now p) = tp_secret_durations p"
  "tp_secret_fingerprints (complete_account key now p) = tp_secret_fingerprints p"
  "tp_done (complete_account key now p) = tp_done p"
  by (simp_all add: complete_secret_def complete_account_def)

lemma unexpected_frame [simp]:
  "tp_kind (unexpected_account key p) = tp_kind p"
  "tp_started_at (unexpected_account key p) = tp_started_at p"
  "tp_secret_total (unexpected_account key p) = tp_secret_total p"
  "tp_account_total (unexpected_account key p) = tp_account_total p"
  "tp_secret_durations (unexpected_account key p) = tp_secret_durations p"
  "tp_secret_fingerprints (unexpected_account key p) = tp_secret_fingerprints p"
  "tp_account_durations (unexpected_account key p) = tp_account_durations p"
  "tp_done (unexpected_account key p) = tp_done p"
  by (simp_all add: unexpected_account_def)

lemma complete_secret_durations:
  "gm_get (tp_secret_durations (complete_secret ns fp now p)) k =
     (if k = ns \<and> gm_get (tp_secret_durations p) ns = None
      then Some (time_sub now (tp_started_at p)) else gm_get (tp_secret_durations p) k)"
  by (simp add: complete_secret_def map_laws)

lemma complete_account_durations:
  "gm_get (tp_account_durations (complete_account key now p)) k =
     (if k = key \<and> gm_get (tp_account_durations p) key = None
      then Some (time_sub now (tp_started_at p)) else gm_get (tp_account_durations p) k)"
  by (simp add: complete_account_def map_laws)

lemma phase_after_frame [simp]:
  "tp_kind (phase_after cd t e p) = tp_kind p"
  "tp_started_at (phase_after cd t e p) = tp_started_at p"
  "tp_secret_total (phase_after cd t e p) = tp_secret_total p"
  "tp_account_total (phase_after cd t e p) = tp_account_total p"
  by (simp_all add: phase_after_def Let_def split: tracker_event.split option.split)

lemma phase_after_secret:
  "gm_get (tp_secret_durations (phase_after cd t e p)) ns =
     (case gm_get (tp_secret_durations p) ns of
        Some d \<Rightarrow> Some d
      | None \<Rightarrow>
          if gm_get (tk_target_namespaces t) ns = None then None
          else map_option (\<lambda>now. time_sub now (tp_started_at p))
            (secret_instant cd (tp_kind p) (gm_get (tk_baseline_secrets t)) (tp_started_at p) ns e))"
  by (cases e)
     (auto simp: phase_after_def secret_instant_def Let_def complete_secret_durations
        split: option.split)

lemma phase_after_account:
  "gm_get (tp_account_durations (phase_after cd t e p)) key =
     (case gm_get (tp_account_durations p) key of
        Some d \<Rightarrow> Some d
      | None \<Rightarrow>
          if gm_get (tk_target_accounts t) key = None then None
          else map_option (\<lambda>now. time_sub now (tp_started_at p))
            (account_instant (tp_kind p) (tp_started_at p) key e))"
  by (cases e)
     (auto simp: phase_after_def account_instant_def Let_def complete_account_durations
        account_counts_def split: option.split)

section \<open>The first observation that counts\<close>

fun first_some :: "('a \<Rightarrow> 'b option) \<Rightarrow> 'a list \<Rightarrow> 'b option" where
  "first_some f [] = None"
| "first_some f (x # xs) = (case f x of None \<Rightarrow> first_some f xs | Some y \<Rightarrow> Some y)"

lemma first_some_None: "first_some f xs = None \<longleftrightarrow> list_all (\<lambda>x. f x = None) xs"
  by (induction xs) (auto split: option.split)

lemma secret_instant_initial: "secret_instant cd Initial_Phase b = secret_instant cd Initial_Phase b'"
  by (simp add: fun_eq_iff secret_instant_def secret_counts_def split: tracker_event.split option.split)

lemma step_secret_instant:
  assumes "\<not> is_start e" "tk_current t = Some i" "kind = tp_kind (tk_phases t ! i)"
  shows "secret_instant cd kind (gm_get (tk_baseline_secrets (tracker_step cd e t)))
    = secret_instant cd kind (gm_get (tk_baseline_secrets t))"
proof (cases kind)
  case Expiry_Phase
  with assms have "tk_baseline_secrets (tracker_step cd e t) = tk_baseline_secrets t"
    by (intro step_baseline) auto
  then show ?thesis by simp
qed (simp add: secret_instant_initial)

text \<open>What is recorded for an object: once recorded it stays, else the first event counts.\<close>

definition recorded :: "duration option \<Rightarrow> bool \<Rightarrow> instant \<Rightarrow> instant option \<Rightarrow> duration option" where
  "recorded before target started seen =
     (case before of
        Some d \<Rightarrow> Some d
      | None \<Rightarrow> if target then map_option (\<lambda>now. time_sub now started) seen else None)"

text \<open>
  Without a new phase, an execution folds \<open>phase_after\<close> over the current one: it keeps what
  identifies the phase and records the first event that counts for each object.
\<close>

lemma run_phase:
  assumes "list_all (\<lambda>e. \<not> is_start e) es" "tk_current t = Some i" "i < length (tk_phases t)"
    and "tk_phases t ! i = p"
  shows "tk_current (tracker_run cd es t) = Some i
    \<and> length (tk_phases (tracker_run cd es t)) = length (tk_phases t)
    \<and> tk_target_namespaces (tracker_run cd es t) = tk_target_namespaces t
    \<and> tk_target_accounts (tracker_run cd es t) = tk_target_accounts t
    \<and> tp_kind (tk_phases (tracker_run cd es t) ! i) = tp_kind p
    \<and> tp_started_at (tk_phases (tracker_run cd es t) ! i) = tp_started_at p
    \<and> gm_get (tp_secret_durations (tk_phases (tracker_run cd es t) ! i)) ns =
        recorded (gm_get (tp_secret_durations p) ns) (gm_get (tk_target_namespaces t) ns \<noteq> None)
          (tp_started_at p)
          (first_some (secret_instant cd (tp_kind p) (gm_get (tk_baseline_secrets t))
             (tp_started_at p) ns) es)
    \<and> gm_get (tp_account_durations (tk_phases (tracker_run cd es t) ! i)) key =
        recorded (gm_get (tp_account_durations p) key) (gm_get (tk_target_accounts t) key \<noteq> None)
          (tp_started_at p) (first_some (account_instant (tp_kind p) (tp_started_at p) key) es)"
  using assms
proof (induction es arbitrary: t p)
  case (Cons e es)
  let ?t = "tracker_step cd e t"
  have e: "\<not> is_start e" "list_all (\<lambda>e. \<not> is_start e) es" using Cons.prems(1) by simp_all
  note frame = step_frame [OF e(1), where cd = cd and t = t]
  have phases: "tk_phases ?t = (tk_phases t)[i := phase_after cd t e p]"
    using step_phases [OF e(1) Cons.prems(2,3)] Cons.prems(4) by simp
  have now: "tk_phases ?t ! i = phase_after cd t e p" using Cons.prems(3) by (simp add: phases)
  have ready: "secret_instant cd (tp_kind p) (gm_get (tk_baseline_secrets ?t))
      = secret_instant cd (tp_kind p) (gm_get (tk_baseline_secrets t))"
    using step_secret_instant [OF e(1) Cons.prems(2)] Cons.prems(4) by simp
  have "i < length (tk_phases ?t)" "tk_current ?t = Some i"
    using Cons.prems(2,3) by (simp_all add: phases frame)
  then show ?case
    using Cons.IH [OF e(2) _ _ now]
    by (simp add: phases frame ready phase_after_secret phase_after_account recorded_def
      split: option.split)
qed (simp add: recorded_def split: option.split)

section \<open>Well-formed trackers\<close>

definition all_in :: "(string, 'v) gomap \<Rightarrow> (string, 'w) gomap \<Rightarrow> bool" where
  "all_in m m' \<longleftrightarrow> list_all (\<lambda>k. gm_get m' k \<noteq> None) (gm_keys m)"

lemma all_in_iff: "all_in m m' \<longleftrightarrow> (\<forall>k. gm_get m k \<noteq> None \<longrightarrow> gm_get m' k \<noteq> None)"
  by (auto simp: all_in_def list_all_iff gm_keys_get)

text \<open>Counting decides whether a map has every key of a map it is part of.\<close>

lemma length_eq_iff_all_in:
  assumes "gm_wf m" "gm_wf m'" "all_in m m'"
  shows "length m = length m' \<longleftrightarrow> all_in m' m"
proof -
  have sets: "set (gm_keys m) \<subseteq> set (gm_keys m')" using assms(3) by (auto simp: all_in_def list_all_iff gm_keys_get)
  have card: "card (set (gm_keys m)) = length m" "card (set (gm_keys m')) = length m'"
    using assms(1,2) gm.wf_keys distinct_card [of "gm_keys m"] distinct_card [of "gm_keys m'"]
    by (auto simp: gm_keys_def)
  have "all_in m' m \<longleftrightarrow> set (gm_keys m') \<subseteq> set (gm_keys m)"
    by (auto simp: all_in_def list_all_iff gm_keys_get)
  also have "\<dots> \<longleftrightarrow> card (set (gm_keys m)) = card (set (gm_keys m'))"
    using sets card_subset_eq [of "set (gm_keys m')" "set (gm_keys m)"] by auto
  finally show ?thesis by (simp add: card)
qed

definition phase_ok :: "(string, unit) gomap \<Rightarrow> (string, unit) gomap \<Rightarrow> tracked_phase \<Rightarrow> bool" where
  "phase_ok namespaces accounts p \<longleftrightarrow>
     gm_wf (tp_secret_durations p) \<and> all_in (tp_secret_durations p) namespaces
     \<and> tp_secret_total p = length namespaces
     \<and> gm_wf (tp_account_durations p) \<and> all_in (tp_account_durations p) accounts
     \<and> (tp_kind p = Initial_Phase \<longrightarrow> tp_account_total p = length accounts)
     \<and> (tp_done p \<longrightarrow> phase_converged p)
     \<and> (phase_converged p \<and> namespaces \<noteq> [] \<longrightarrow> tp_done p)"

definition tracker_wf :: "tracker \<Rightarrow> bool" where
  "tracker_wf t \<longleftrightarrow>
     gm_wf (tk_target_namespaces t) \<and> gm_wf (tk_target_accounts t)
     \<and> (case tk_current t of None \<Rightarrow> True | Some i \<Rightarrow> i < length (tk_phases t))
     \<and> (case tk_mutation t of None \<Rightarrow> True | Some i \<Rightarrow> i < length (tk_mutations t))
     \<and> (\<forall>p \<in> set (tk_phases t). phase_ok (tk_target_namespaces t) (tk_target_accounts t) p)"

lemma phase_converged_iff:
  assumes "gm_wf namespaces" "gm_wf accounts" "phase_ok namespaces accounts p"
  shows "phase_converged p \<longleftrightarrow>
    all_in namespaces (tp_secret_durations p)
    \<and> (tp_kind p = Initial_Phase \<longrightarrow> all_in accounts (tp_account_durations p))"
proof -
  have "length (tp_secret_durations p) = tp_secret_total p \<longleftrightarrow> all_in namespaces (tp_secret_durations p)"
    using assms by (simp add: phase_ok_def length_eq_iff_all_in)
  moreover have "tp_kind p = Initial_Phase \<Longrightarrow>
      length (tp_account_durations p) = tp_account_total p \<longleftrightarrow> all_in accounts (tp_account_durations p)"
    using assms by (simp add: phase_ok_def length_eq_iff_all_in)
  ultimately show ?thesis unfolding phase_converged_def by blast
qed

lemma all_in_put: "all_in m m' \<Longrightarrow> gm_get m' k \<noteq> None \<Longrightarrow> all_in (gm_put k v m) m'"
  by (simp add: all_in_iff map_laws)



lemma maybe_complete_ok:
  assumes "phase_ok namespaces accounts p \<or>
    gm_wf (tp_secret_durations p) \<and> all_in (tp_secret_durations p) namespaces
     \<and> tp_secret_total p = length namespaces
     \<and> gm_wf (tp_account_durations p) \<and> all_in (tp_account_durations p) accounts
     \<and> (tp_kind p = Initial_Phase \<longrightarrow> tp_account_total p = length accounts)
     \<and> (tp_done p \<longrightarrow> phase_converged p)"
  shows "phase_ok namespaces accounts (maybe_complete now p)"
  using assms by (auto simp: phase_ok_def phase_converged_def)

text \<open>A phase that is done has every target, so nothing is recorded any more.\<close>

lemma complete_ok:
  assumes wf: "gm_wf namespaces" "gm_wf accounts" and ok: "phase_ok namespaces accounts p"
  shows "gm_get namespaces ns \<noteq> None \<Longrightarrow>
      phase_ok namespaces accounts (maybe_complete now (complete_secret ns fp now p))"
    and "gm_get accounts key \<noteq> None \<Longrightarrow>
      phase_ok namespaces accounts (maybe_complete now (complete_account key now p))"
    and "phase_ok namespaces accounts (maybe_complete now (unexpected_account key p))"
    and "phase_ok namespaces accounts (maybe_complete now p)"
proof -
  note conv = phase_converged_iff [OF wf ok]
  have conv': "phase_converged p" if "tp_done p" using ok that by (simp add: phase_ok_def)
  show "phase_ok namespaces accounts (maybe_complete now (complete_secret ns fp now p))"
    if ns: "gm_get namespaces ns \<noteq> None"
  proof (cases "gm_get (tp_secret_durations p) ns = None")
    case True
    with ns have "\<not> tp_done p" using conv conv' by (auto simp: all_in_iff)
    with ok ns show ?thesis
      by (intro maybe_complete_ok disjI2)
         (auto simp: phase_ok_def complete_secret_def all_in_put split: if_splits)
  qed (use ok in \<open>auto simp: complete_secret_def intro: maybe_complete_ok\<close>)
  show "phase_ok namespaces accounts (maybe_complete now (complete_account key now p))"
    if key: "gm_get accounts key \<noteq> None"
  proof (cases "gm_get (tp_account_durations p) key = None \<and> tp_kind p = Initial_Phase")
    case True
    with key have "\<not> tp_done p" using conv conv' by (auto simp: all_in_iff)
    with ok key show ?thesis
      by (intro maybe_complete_ok disjI2)
         (auto simp: phase_ok_def complete_account_def all_in_put split: if_splits)
  next
    case False
    then have "phase_converged (complete_account key now p) = phase_converged p"
      by (cases "tp_kind p") (auto simp: complete_account_def phase_converged_def)
    with ok key show ?thesis
      by (intro maybe_complete_ok disjI2) (simp add: phase_ok_def complete_account_def all_in_put)
  qed
  show "phase_ok namespaces accounts (maybe_complete now p)" using ok by (simp add: maybe_complete_ok)
  have "phase_converged (unexpected_account key p) = phase_converged p"
    by (simp add: phase_converged_def)
  with ok show "phase_ok namespaces accounts (maybe_complete now (unexpected_account key p))"
    by (intro maybe_complete_ok disjI2) (simp add: phase_ok_def)
qed

lemma phase_after_ok:
  assumes "gm_wf (tk_target_namespaces t)" "gm_wf (tk_target_accounts t)"
    "phase_ok (tk_target_namespaces t) (tk_target_accounts t) p"
  shows "phase_ok (tk_target_namespaces t) (tk_target_accounts t) (phase_after cd t e p)"
  using complete_ok [OF assms] assms(3)
  by (auto simp: phase_after_def Let_def split: tracker_event.split option.split)

lemma new_phase_ok:
  "phase_ok (tk_target_namespaces t) (tk_target_accounts t) (new_phase kind started t)"
  by (simp add: phase_ok_def new_phase_def all_in_def gm_keys_def phase_converged_def)

lemma mutations_grow: "length (tk_mutations t) \<le> length (tk_mutations (tracker_step cd e t))
  \<and> (tk_mutation (tracker_step cd e t) = tk_mutation t
     \<or> tk_mutation (tracker_step cd e t) = Some (length (tk_mutations t))
       \<and> length (tk_mutations (tracker_step cd e t)) = Suc (length (tk_mutations t)))"
proof (cases e)
  case (See_Secret s now)
  then show ?thesis
    by (simp add: tracker_step_def observe_secret_def observe_mutation_secret_def Let_def
      split: option.split phase_kind.split)
next
  case (See_Account a now)
  then show ?thesis
    by (simp add: tracker_step_def observe_account_def observe_mutation_account_def Let_def
      split: option.split phase_kind.split)
qed (simp_all add: tracker_step_def start_phase_def start_concurrent_mutation_def mark_defs
  with_current_mutation_def)

text \<open>An event that starts no phase keeps the list of phases and their well-formedness.\<close>

lemma step_phases_ok:
  assumes "\<not> is_start e" "tracker_wf t"
  shows "length (tk_phases (tracker_step cd e t)) = length (tk_phases t)
    \<and> (\<forall>p \<in> set (tk_phases (tracker_step cd e t)).
         phase_ok (tk_target_namespaces t) (tk_target_accounts t) p)"
proof (cases "tk_current t")
  case None
  with assms(1) have "tk_phases (tracker_step cd e t) = tk_phases t"
    by (cases e) (simp_all add: tracker_step_def is_start_def mark_defs start_concurrent_mutation_def)
  with assms(2) show ?thesis by (simp add: tracker_wf_def)
next
  case (Some i)
  with assms(2) have i: "i < length (tk_phases t)" by (simp add: tracker_wf_def)
  have "phase_ok (tk_target_namespaces t) (tk_target_accounts t) (phase_after cd t e (tk_phases t ! i))"
    using assms(2) i by (intro phase_after_ok) (auto simp: tracker_wf_def)
  with assms(2) i show ?thesis unfolding step_phases [OF assms(1) Some i]
    by (auto simp: tracker_wf_def dest!: set_update_subset_insert [THEN subsetD])
qed

lemma tracker_step_wf:
  assumes wf: "tracker_wf t" shows "tracker_wf (tracker_step cd e t)"
proof -
  have mutation: "case tk_mutation (tracker_step cd e t) of None \<Rightarrow> True
      | Some i \<Rightarrow> i < length (tk_mutations (tracker_step cd e t))"
    using wf mutations_grow [of t cd e] by (auto simp: tracker_wf_def split: option.splits)
  show ?thesis
  proof (cases "is_start e")
    case True
    then obtain kind started where "e = Start_Phase kind started"
      by (cases e) (simp_all add: is_start_def)
    with wf new_phase_ok [of t kind started] show ?thesis
      by (auto simp: tracker_step_def start_phase_def tracker_wf_def split: option.split)
  next
    case False
    with wf mutation step_phases_ok [OF False wf, of cd] step_frame [OF False, where cd = cd and t = t]
    show ?thesis by (simp add: tracker_wf_def split: option.splits)
  qed
qed

lemma tracker_run_wf: "tracker_wf t \<Longrightarrow> tracker_wf (tracker_run cd es t)"
  by (induction es arbitrary: t) (simp_all add: tracker_step_wf)

lemma fold_nested_wf: "gm_wf m \<Longrightarrow> gm_wf (fold (\<lambda>ns. fold (\<lambda>name. gm_put (f ns name) ()) names) nss m)"
proof (induction nss arbitrary: m)
  case (Cons ns nss)
  have "gm_wf (fold (\<lambda>name. gm_put (f ns name) ()) xs m)" if "gm_wf m" for xs m
    using that by (induction xs arbitrary: m) simp_all
  with Cons show ?case by simp
qed simp

lemma fold_nested_get:
  "gm_get (fold (\<lambda>ns. fold (\<lambda>name. gm_put (f ns name) ()) names) nss m) k =
     (if \<exists>ns \<in> set nss. \<exists>name \<in> set names. f ns name = k then Some () else gm_get m k)"
proof (induction nss arbitrary: m)
  case (Cons ns nss)
  have "gm_get (fold (\<lambda>name. gm_put (f ns name) ()) xs m) k =
      (if \<exists>name \<in> set xs. f ns name = k then Some () else gm_get m k)" for xs m
    by (induction xs arbitrary: m) (auto simp: map_laws)
  with Cons show ?case by simp
qed simp

lemma new_tracker_targets:
  "gm_get (tk_target_namespaces (new_tracker nss names)) ns \<noteq> None \<longleftrightarrow> ns \<in> set nss"
  "gm_get (tk_target_accounts (new_tracker nss names)) key \<noteq> None
     \<longleftrightarrow> (\<exists>ns \<in> set nss. \<exists>name \<in> set names. account_key ns name = key)"
  by (simp_all add: new_tracker_def fold_nested_get gm.get_fold_put)

lemma new_tracker_wf: "tracker_wf (new_tracker nss names)"
  by (simp add: tracker_wf_def new_tracker_def fold_nested_wf gm.wf_fold_put)

lemma step_targets [simp]:
  "tk_target_namespaces (tracker_step cd e t) = tk_target_namespaces t"
  "tk_target_accounts (tracker_step cd e t) = tk_target_accounts t"
  by (cases "is_start e"; cases e;
      simp add: step_frame; simp add: is_start_def tracker_step_def start_phase_def)+

lemma run_targets [simp]:
  "tk_target_namespaces (tracker_run cd es t) = tk_target_namespaces t"
  "tk_target_accounts (tracker_run cd es t) = tk_target_accounts t"
  by (induction es arbitrary: t) simp_all

section \<open>What a phase reports\<close>

lemma account_instant_expiry: "first_some (account_instant Expiry_Phase started key) es = None"
  by (auto simp: first_some_None list_all_iff account_instant_def account_counts_def
    split: tracker_event.split option.split)

lemma all_in_targets:
  "all_in (tk_target_namespaces (new_tracker nss names)) m \<longleftrightarrow> (\<forall>ns \<in> set nss. gm_get m ns \<noteq> None)"
  "all_in (tk_target_accounts (new_tracker nss names)) m
     \<longleftrightarrow> (\<forall>ns \<in> set nss. \<forall>name \<in> set names. gm_get m (account_key ns name) \<noteq> None)"
  unfolding all_in_iff new_tracker_targets by auto

text \<open>
  C33: In every execution of the tracker, whatever phases, injections and observations came before,
  a phase is done exactly when each target Namespace has a recorded Secret and, in the initial
  phase, each target ServiceAccount is recorded: it is not reported early, and not missed.
\<close>

theorem phase_done_iff_converged:
  assumes "nss \<noteq> []" "p \<in> set (tk_phases (tracker_run cd es (new_tracker nss names)))"
  shows "tp_done p \<longleftrightarrow>
    (\<forall>ns \<in> set nss. gm_get (tp_secret_durations p) ns \<noteq> None)
    \<and> (tp_kind p = Initial_Phase \<longrightarrow>
         (\<forall>ns \<in> set nss. \<forall>name \<in> set names.
            gm_get (tp_account_durations p) (account_key ns name) \<noteq> None))"
proof -
  let ?t = "tracker_run cd es (new_tracker nss names)" and ?n = "new_tracker nss names"
  have wf: "tracker_wf ?t" by (simp add: tracker_run_wf new_tracker_wf)
  then have ok: "phase_ok (tk_target_namespaces ?n) (tk_target_accounts ?n) p"
    "gm_wf (tk_target_namespaces ?n)" "gm_wf (tk_target_accounts ?n)"
    using assms(2) by (auto simp: tracker_wf_def)
  obtain ns where "gm_get (tk_target_namespaces ?n) ns \<noteq> None"
    using assms(1) new_tracker_targets(1) [of nss names] by (cases nss) auto
  then have "tk_target_namespaces ?n \<noteq> []" by auto
  with ok(1) have "tp_done p \<longleftrightarrow> phase_converged p" by (auto simp: phase_ok_def)
  then show ?thesis using phase_converged_iff [OF ok(2,3,1)] by (simp add: all_in_targets)
qed

text \<open>
  C34: A phase refines the history of the observations: for a target Namespace it records the time
  from the start of the phase to the first observation of a usable managed Secret that counts (in
  the expiry phase, of a fingerprint other than the one known before), for a ServiceAccount of the
  initial phase that to the first observation with the managed reference; nothing for anything
  else, and no later event changes it.
\<close>

theorem phase_records_first_observation:
  assumes start: "start_phase kind started t0 = (i, t1)"
    and reached: "t0 = tracker_run cd before (new_tracker nss names)"
    and no_start: "list_all (\<lambda>e. \<not> is_start e) es"
  shows "gm_get (tp_secret_durations (tk_phases (tracker_run cd es t1) ! i)) ns =
      (if ns \<in> set nss
       then map_option (\<lambda>now. time_sub now started)
         (first_some (secret_instant cd kind (gm_get (tk_baseline_secrets t0)) started ns) es)
       else None)
    \<and> gm_get (tp_account_durations (tk_phases (tracker_run cd es t1) ! i)) key =
      (if kind = Initial_Phase \<and> (\<exists>ns \<in> set nss. \<exists>name \<in> set names. account_key ns name = key)
       then map_option (\<lambda>now. time_sub now started)
         (first_some (account_instant Initial_Phase started key) es)
       else None)"
proof -
  have i: "i = length (tk_phases t0)" and t1: "t1 = snd (start_phase kind started t0)"
    using start by (auto simp: start_phase_def)
  have cur: "tk_current t1 = Some i" "i < length (tk_phases t1)"
    and p: "tk_phases t1 ! i = new_phase kind started t0"
    and base: "tk_baseline_secrets t1 = tk_baseline_secrets t0"
    and targets: "tk_target_namespaces t1 = tk_target_namespaces (new_tracker nss names)"
      "tk_target_accounts t1 = tk_target_accounts (new_tracker nss names)"
    by (simp_all add: t1 i start_phase_def reached)
  show ?thesis
    using run_phase [OF no_start cur p, of cd ns key] account_instant_expiry [of started key es]
    by (cases kind)
       (auto simp: recorded_def targets new_tracker_targets base new_phase_def simp del: not_None_eq)
qed

text \<open>A run of two Namespaces: both Secrets appear, one expires and is replaced.\<close>

definition shown_secret :: "string \<Rightarrow> string \<Rightarrow> secret" where
  "shown_secret ns data = garbled_secret
     \<lparr>se_namespace := ns, se_name := default_managed_secret_name,
      se_type := secret_type_docker_config_json, se_data := [(docker_config_json_key, data)]\<rparr>"

definition plain_codec :: codec where
  "plain_codec = blank_codec\<lparr>cd_sha256_hex := (\<lambda>s. s)\<rparr>"

definition sample_phase_events :: "tracker_event list" where
  "sample_phase_events =
     [See_Secret (Some (shown_secret ''a'' ''one'')) (12 * second),
      See_Secret (Some (shown_secret ''c'' ''one'')) (13 * second),
      See_Secret (Some (shown_secret ''b'' ''one'')) (14 * second),
      See_Secret (Some (shown_secret ''a'' ''two'')) (15 * second)]"

theorem phase_done_iff_converged_witness:
  "tp_done (tk_phases (tracker_run plain_codec
      (Start_Phase Initial_Phase (10 * second) # sample_phase_events) (new_tracker [''a'', ''b''] [])) ! 0)"
proof -
  let ?t = "tracker_run plain_codec (Start_Phase Initial_Phase (10 * second) # sample_phase_events)
    (new_tracker [''a'', ''b''] [])"
  have p: "tk_phases ?t ! 0 \<in> set (tk_phases ?t)"
    by (rule nth_mem) code_simp
  have "gm_get (tp_secret_durations (tk_phases ?t ! 0)) ''a'' \<noteq> None \<and>
        gm_get (tp_secret_durations (tk_phases ?t ! 0)) ''b'' \<noteq> None"
    by code_simp
  then show ?thesis using phase_done_iff_converged [OF _ p] by simp
qed

theorem phase_records_first_observation_witness:
  "gm_get (tp_secret_durations (tk_phases (tracker_run plain_codec sample_phase_events
      (snd (start_phase Initial_Phase (10 * second) (new_tracker [''a'', ''b''] [])))) ! 0)) ''a''
   = Some (2 * second)"
proof -
  have start: "start_phase Initial_Phase (10 * second) (new_tracker [''a'', ''b''] [])
      = (0, snd (start_phase Initial_Phase (10 * second) (new_tracker [''a'', ''b''] [])))"
    by (simp add: start_phase_def new_tracker_def)
  have none: "list_all (\<lambda>e. \<not> is_start e) sample_phase_events" by code_simp
  have first: "map_option (\<lambda>now. time_sub now (10 * second))
      (first_some (secret_instant plain_codec Initial_Phase
        (gm_get (tk_baseline_secrets (new_tracker [''a'', ''b''] []))) (10 * second) ''a'')
        sample_phase_events) = Some (2 * second)"
    by code_simp
  show ?thesis
    using phase_records_first_observation [OF start _ none, of plain_codec "[]" "[''a'', ''b'']" "[]" "''a''"] first
    by simp
qed

end
