(* ===== verification/PerfPool.thy ===== *)
theory PerfPool
  imports Prelude "HOL-Library.Multiset"
begin

text \<open>
  \<open>runParallel\<close> of \<open>cmd/perf-driver/main.go\<close>: a pool of goroutines that take items from a channel
  and stop at the first error. The feeder, the workers and the cancellation of the caller's
  context interleave freely, so the pool is a step relation; what an operation returns is chosen
  by the step. The log of the finished operations is kept for the statements only.
\<close>

section \<open>State and steps\<close>

record 'e pool =
  pl_unsent :: "string list"
  pl_feeding :: bool
  pl_waiting :: nat
  pl_running :: "string multiset"
  pl_error :: "'e option"
  pl_canceled :: bool
  pl_parent_done :: bool
  pl_log :: "(string \<times> 'e option) list"

definition pool_workers :: "string list \<Rightarrow> int \<Rightarrow> nat" where
  "pool_workers items workers = nat (min workers (max 1 (int (length items))))"

definition new_pool :: "string list \<Rightarrow> int \<Rightarrow> 'e pool" where
  "new_pool items workers =
     \<lparr>pl_unsent = items, pl_feeding = True, pl_waiting = pool_workers items workers,
      pl_running = {#}, pl_error = None, pl_canceled = False, pl_parent_done = False, pl_log = []\<rparr>"

text \<open>
  An item passes from the feeder to a waiting worker; the feeder ends when all are sent or a
  context is done, and closes the channel; a worker that finishes without an error waits again,
  one with an error leaves it in \<open>errCh\<close> when that is empty, cancels, and ends; a waiting worker
  ends when the channel is closed.
\<close>

inductive pool_step :: "'e pool \<Rightarrow> 'e pool \<Rightarrow> bool" where
  send: "pl_feeding s \<Longrightarrow> pl_unsent s = item # rest \<Longrightarrow> pl_waiting s = Suc n
    \<Longrightarrow> pool_step s (s\<lparr>pl_unsent := rest, pl_waiting := n,
          pl_running := add_mset item (pl_running s)\<rparr>)"
| feed_end: "pl_feeding s \<Longrightarrow> pl_unsent s = [] \<Longrightarrow> pool_step s (s\<lparr>pl_feeding := False\<rparr>)"
| feed_stop: "pl_feeding s \<Longrightarrow> pl_canceled s \<or> pl_parent_done s
    \<Longrightarrow> pool_step s (s\<lparr>pl_feeding := False\<rparr>)"
| finish_ok: "item \<in># pl_running s
    \<Longrightarrow> pool_step s (s\<lparr>pl_running := pl_running s - {#item#}, pl_waiting := Suc (pl_waiting s),
          pl_log := pl_log s @ [(item, None)]\<rparr>)"
| finish_error: "item \<in># pl_running s
    \<Longrightarrow> pool_step s (s\<lparr>pl_running := pl_running s - {#item#},
          pl_canceled := pl_canceled s \<or> pl_error s = None,
          pl_error := (case pl_error s of None \<Rightarrow> Some err | Some first \<Rightarrow> Some first),
          pl_log := pl_log s @ [(item, Some err)]\<rparr>)"
| worker_end: "\<not> pl_feeding s \<Longrightarrow> pl_waiting s = Suc n \<Longrightarrow> pool_step s (s\<lparr>pl_waiting := n\<rparr>)"
| parent_done: "\<not> pl_parent_done s \<Longrightarrow> pool_step s (s\<lparr>pl_parent_done := True\<rparr>)"

definition pool_reach :: "'e pool \<Rightarrow> 'e pool \<Rightarrow> bool" where
  "pool_reach s s' \<longleftrightarrow> pool_step\<^sup>*\<^sup>* s s'"

text \<open>\<open>group.Wait\<close> has returned; then what \<open>runParallel\<close> returns: an operation's error, or the
  context's.\<close>

definition pool_final :: "'e pool \<Rightarrow> bool" where
  "pool_final s \<longleftrightarrow> pl_waiting s = 0 \<and> pl_running s = {#}"

datatype 'e pool_result = Pool_Ok | Pool_Failed 'e | Pool_Context_Done

definition pool_result :: "'e pool \<Rightarrow> 'e pool_result" where
  "pool_result s =
     (case pl_error s of
        Some err \<Rightarrow> Pool_Failed err
      | None \<Rightarrow> if pl_parent_done s then Pool_Context_Done else Pool_Ok)"

section \<open>Invariant\<close>

definition pool_ok :: "string list \<Rightarrow> nat \<Rightarrow> 'e pool \<Rightarrow> bool" where
  "pool_ok items workers s \<longleftrightarrow>
     mset items = mset (map fst (pl_log s)) + pl_running s + mset (pl_unsent s)
     \<and> (pl_error s = None \<longrightarrow> \<not> pl_canceled s \<and> (\<forall>(_, r) \<in> set (pl_log s). r = None)
          \<and> (pl_feeding s \<longrightarrow> pl_waiting s + size (pl_running s) = workers))
     \<and> (\<forall>err. pl_error s = Some err \<longrightarrow> pl_canceled s \<and> (\<exists>item. (item, Some err) \<in> set (pl_log s)))
     \<and> (\<not> pl_feeding s \<longrightarrow> pl_unsent s = [] \<or> pl_canceled s \<or> pl_parent_done s)"

lemma new_pool_ok: "pool_ok items (pool_workers items workers) (new_pool items workers)"
  by (simp add: pool_ok_def new_pool_def)

lemma pool_step_ok: "pool_step s s' \<Longrightarrow> pool_ok items workers s \<Longrightarrow> pool_ok items workers s'"
proof (induction rule: pool_step.induct)
  case (finish_ok item s)
  then obtain r where r: "pl_running s = add_mset item r" by (blast dest: multi_member_split)
  with finish_ok.prems show ?case by (auto simp: pool_ok_def)
next
  case (finish_error item s err)
  then obtain r where r: "pl_running s = add_mset item r" by (blast dest: multi_member_split)
  with finish_error.prems show ?case by (auto simp: pool_ok_def split: option.splits)
qed (auto simp: pool_ok_def)

lemma pool_reach_ok: "pool_reach s s' \<Longrightarrow> pool_ok items workers s \<Longrightarrow> pool_ok items workers s'"
  unfolding pool_reach_def by (induction rule: rtranclp_induct) (blast intro: pool_step_ok)+

section \<open>Termination\<close>

definition pool_measure :: "'e pool \<Rightarrow> nat" where
  "pool_measure s =
     3 * length (pl_unsent s) + 2 * size (pl_running s) + pl_waiting s
     + (if pl_feeding s then 1 else 0) + (if pl_parent_done s then 0 else 1)"

lemma pool_step_decreases: "pool_step s s' \<Longrightarrow> pool_measure s' < pool_measure s"
  by (induction rule: pool_step.induct)
     (auto simp: pool_measure_def size_Diff_singleton dest: multi_member_split)

lemma pool_steps_bounded: "(pool_step ^^ n) s s' \<Longrightarrow> n \<le> pool_measure s"
proof -
  have "(pool_step ^^ n) s s' \<Longrightarrow> pool_measure s' + n \<le> pool_measure s"
  proof (induction n arbitrary: s')
    case (Suc n)
    then obtain b where "(pool_step ^^ n) s b" "pool_step b s'" by auto
    with Suc.IH [of b] pool_step_decreases [of b s'] show ?case by simp
  qed simp
  then show "(pool_step ^^ n) s s' \<Longrightarrow> n \<le> pool_measure s" by simp
qed

text \<open>Before \<open>group.Wait\<close> returns something can happen that does not depend on the caller.\<close>

lemma pool_progress:
  assumes "\<not> pool_final s"
  shows "\<exists>s'. pool_step s s' \<and> pl_parent_done s' = pl_parent_done s"
proof (cases "pl_running s = {#}")
  case False
  then obtain item where "item \<in># pl_running s" by blast
  from pool_step.finish_ok [OF this] show ?thesis by force
next
  case True
  with assms obtain n where n: "pl_waiting s = Suc n" by (cases "pl_waiting s") (auto simp: pool_final_def)
  show ?thesis
  proof (cases "pl_feeding s")
    case feeding: True
    show ?thesis
    proof (cases "pl_unsent s")
      case Nil
      from pool_step.feed_end [OF feeding this] show ?thesis by force
    next
      case (Cons item rest)
      from pool_step.send [OF feeding this n] show ?thesis by force
    qed
  next
    case False
    from pool_step.worker_end [OF this n] show ?thesis by force
  qed
qed

section \<open>What the caller learns\<close>

lemma pool_all_done:
  assumes reach: "pool_reach (new_pool items workers) s" and final: "pool_final s"
    and workers: "0 < workers" and result: "pool_result s = Pool_Ok"
  shows "mset (map fst (pl_log s)) = mset items \<and> (\<forall>(_, r) \<in> set (pl_log s). r = None)"
proof -
  have ok: "pool_ok items (pool_workers items workers) s"
    by (rule pool_reach_ok [OF reach new_pool_ok])
  have n: "0 < pool_workers items workers" using workers by (simp add: pool_workers_def)
  from result have none: "pl_error s = None" "\<not> pl_parent_done s"
    by (auto simp: pool_result_def split: option.splits if_splits)
  have "\<not> pl_feeding s" using ok none final n by (auto simp: pool_ok_def pool_final_def)
  with ok none have "pl_unsent s = []" by (auto simp: pool_ok_def)
  with ok none final show ?thesis by (simp add: pool_ok_def pool_final_def)
qed

text \<open>
  C39: Whatever the interleaving of the workers, the feeder and the caller's cancellation, when
  \<open>runParallel\<close> has waited for its workers and returns nil, each item was processed exactly as
  often as it was given and every operation returned nil; the error it returns otherwise is one
  that an operation returned, or the caller's context is done.
\<close>

theorem run_parallel_complete:
  assumes reach: "pool_reach (new_pool items workers) s" and final: "pool_final s"
    and workers: "0 < workers"
  shows "case pool_result s of
      Pool_Ok \<Rightarrow> mset (map fst (pl_log s)) = mset items \<and> (\<forall>(_, r) \<in> set (pl_log s). r = None)
    | Pool_Failed err \<Rightarrow> \<exists>item \<in> set items. (item, Some err) \<in> set (pl_log s)
    | Pool_Context_Done \<Rightarrow> pl_parent_done s"
proof (cases "pl_error s")
  case None
  then have result: "pool_result s = (if pl_parent_done s then Pool_Context_Done else Pool_Ok)"
    by (simp add: pool_result_def)
  show ?thesis
  proof (cases "pl_parent_done s")
    case False
    with result pool_all_done [OF reach final workers] show ?thesis by simp
  qed (simp add: result)
next
  case (Some err)
  have ok: "pool_ok items (pool_workers items workers) s"
    by (rule pool_reach_ok [OF reach new_pool_ok])
  with Some obtain item where item: "(item, Some err) \<in> set (pl_log s)"
    by (auto simp: pool_ok_def)
  then have "item \<in># mset (map fst (pl_log s))" by force
  moreover from ok have "mset items = mset (map fst (pl_log s)) + pl_running s + mset (pl_unsent s)"
    by (simp add: pool_ok_def)
  ultimately have "item \<in># mset items" by simp
  with item show ?thesis by (auto simp: pool_result_def Some)
qed

text \<open>
  C40: The pool cannot run forever or get stuck while operations return: an execution has at most
  a number of steps that is linear in the number of items, and as long as \<open>group.Wait\<close> has not
  returned some step is possible, without any help of the caller.
\<close>

theorem run_parallel_terminates:
  "((pool_step ^^ n) (new_pool items workers) s \<longrightarrow>
      n \<le> 3 * length items + pool_workers items workers + 2)
   \<and> (pool_final s \<or> (\<exists>s'. pool_step s s' \<and> pl_parent_done s' = pl_parent_done s))"
  using pool_steps_bounded [of n "new_pool items workers" s] pool_progress [of s]
  by (auto simp: pool_measure_def new_pool_def)

text \<open>A pool that has processed its single item.\<close>

definition single_pool :: "string \<Rightarrow> 'e pool" where
  "single_pool item =
     \<lparr>pl_unsent = [], pl_feeding = False, pl_waiting = 0, pl_running = {#}, pl_error = None,
      pl_canceled = False, pl_parent_done = False, pl_log = [(item, None)]\<rparr>"

lemma single_pool_facts [simp]:
  "pool_final (single_pool item)" "pool_result (single_pool item) = Pool_Ok"
  "pl_log (single_pool item) = [(item, None)]"
  by (simp_all add: pool_final_def pool_result_def single_pool_def)

lemma single_pool_reached:
  assumes "1 \<le> workers" shows "(pool_step ^^ 4) (new_pool [item] workers) (single_pool item)"
proof -
  have one: "pool_workers [item] workers = 1" using assms by (simp add: pool_workers_def min_def)
  let ?s0 = "new_pool [item] workers"
  let ?s1 = "?s0\<lparr>pl_unsent := [], pl_waiting := 0, pl_running := {#item#}\<rparr>"
  let ?s2 = "?s1\<lparr>pl_running := {#}, pl_waiting := 1, pl_log := [(item, None)]\<rparr>"
  let ?s3 = "?s2\<lparr>pl_feeding := False\<rparr>"
  have "pool_step ?s0 ?s1"
    using pool_step.send [of ?s0 item "[]" 0] by (simp add: new_pool_def one)
  moreover have "pool_step ?s1 ?s2"
    using pool_step.finish_ok [of item ?s1] by (simp add: new_pool_def one)
  moreover have "pool_step ?s2 ?s3" using pool_step.feed_end [of ?s2] by (simp add: new_pool_def one)
  moreover have "pool_step ?s3 (single_pool item)"
    using pool_step.worker_end [of ?s3 0] by (simp add: new_pool_def single_pool_def one)
  ultimately have "(pool_step ^^ Suc (Suc (Suc (Suc 0)))) ?s0 (single_pool item)" by auto
  then show ?thesis by (simp add: numeral_eq_Suc)
qed

lemma single_pool_reach: "1 \<le> workers \<Longrightarrow> pool_reach (new_pool [item] workers) (single_pool item)"
  unfolding pool_reach_def by (rule relpowp_imp_rtranclp [OF single_pool_reached])

theorem run_parallel_complete_witness:
  "pool_result (single_pool ''a'' :: string pool) = Pool_Ok
   \<and> mset (map fst (pl_log (single_pool ''a'' :: string pool))) = mset [''a'']"
  using run_parallel_complete [of "[''a'']" 5 "single_pool ''a'' :: string pool"]
    single_pool_reach [of 5 "''a''"] by simp

theorem run_parallel_terminates_witness:
  "(pool_step ^^ 4) (new_pool [''a''] 5) (single_pool ''a'' :: string pool) \<and> (4::nat) \<le> 6
   \<and> pool_final (single_pool ''a'' :: string pool)"
  using run_parallel_terminates [of 4 "[''a'']" 5 "single_pool ''a'' :: string pool"]
    single_pool_reached [of 5 "''a''"]
  by (auto simp: pool_workers_def single_pool_def pool_final_def)

end
