(* ===== verification/PerfCluster.thy ===== *)
theory PerfCluster
  imports PerfTracker PerfPool
begin

text \<open>
  What the performance driver does to the cluster (\<open>cmd/perf-driver/main.go\<close>): names of a
  dataset, preparation of Namespaces, ServiceAccounts and RoleBindings, the reset of managed
  Secrets, the controller's configuration and scale, and the checks of the final state. The
  answers of the API server are arguments, the requests are actions. \<open>retry.RetryOnConflict\<close> of
  client-go repeats its function while it answers a conflict, at most \<open>retries\<close> more times.
\<close>

section \<open>Names\<close>

definition performance_run_label :: string where
  "performance_run_label = ''registry-secret-controller.io/performance-run''"
definition service_account_default :: string where "service_account_default = ''default''"
definition service_account_workload :: string where "service_account_workload = ''workload''"
definition service_account_late :: string where "service_account_late = ''late-workload''"
definition maximum_config_map_data_size :: nat where "maximum_config_map_data_size = 900 * 1024"

definition target_service_accounts :: "string list" where
  "target_service_accounts = [service_account_default, service_account_workload]"

text \<open>\<open>%05d\<close> of an index.\<close>

definition pad5 :: "nat \<Rightarrow> string" where
  "pad5 n = replicate (5 - length (show_nat n)) (CHR ''0'') @ show_nat n"

definition namespace_names :: "string \<Rightarrow> nat \<Rightarrow> string list" where
  "namespace_names run_id n =
     map (\<lambda>index. ''krsc-perf-'' @ run_id @ ''-'' @ pad5 index) [0..<n]"

definition concurrent_namespace_name :: "string \<Rightarrow> string" where
  "concurrent_namespace_name run_id = ''krsc-perf-'' @ run_id @ ''-late''"

section \<open>Requests\<close>

datatype cluster_error =
    Request_Failed kube_error
  | List_Failed string kube_error
  | Namespace_Not_Of_Run string
  | Create_Namespace_Failed string kube_error
  | Create_Account_Failed string string kube_error
  | Create_Binding_Failed string kube_error
  | Outside_Dataset string string nat
  | Selector_Too_Large nat
  | Wrong_Secret_Count nat nat
  | Wrong_Account_Count nat nat

record run_account =
  ra_account :: service_account
  ra_labels :: "(string, string) gomap"

text \<open>API group, kind and name of a role; kind, name and namespace of a subject.\<close>

record role_binding =
  rb_labels :: "(string, string) gomap"
  rb_role :: "string \<times> string \<times> string"
  rb_subjects :: "(string \<times> string \<times> string) list"

datatype cluster_action =
    Create_Namespace string "(string, string) gomap"
  | Create_Account string string "(string, string) gomap"
  | Update_Account run_account
  | Create_Binding string role_binding
  | Update_Binding string role_binding
  | Update_Config_Map "(string, string) gomap"
  | Scale int

type_synonym outcome = "cluster_action list \<times> kube_error option"

fun retry_on_conflict :: "nat \<Rightarrow> nat \<Rightarrow> (nat \<Rightarrow> outcome) \<Rightarrow> outcome" where
  "retry_on_conflict 0 k attempt = attempt k"
| "retry_on_conflict (Suc n) k attempt =
     (case attempt k of
        (acts, Some Update_Conflict) \<Rightarrow>
          (case retry_on_conflict n (Suc k) attempt of (later, err) \<Rightarrow> (acts @ later, err))
      | answer \<Rightarrow> answer)"

lemma retry_on_conflict_actions:
  "a \<in> set (fst (retry_on_conflict n k attempt)) \<Longrightarrow> \<exists>j. a \<in> set (fst (attempt j))"
proof (induction n arbitrary: k)
  case (Suc n)
  show ?case
  proof (cases "snd (attempt k) = Some Update_Conflict")
    case True
    with Suc.prems have "a \<in> set (fst (attempt k)) \<or> a \<in> set (fst (retry_on_conflict n (Suc k) attempt))"
      by (cases "attempt k"; cases "retry_on_conflict n (Suc k) attempt") auto
    with Suc.IH show ?thesis by blast
  next
    case False
    then have "retry_on_conflict (Suc n) k attempt = attempt k"
      by (cases "attempt k") (auto split: option.splits kube_error.splits)
    with Suc.prems show ?thesis by auto
  qed
qed auto

lemma retry_on_conflict_last: "\<exists>j. snd (retry_on_conflict n k attempt) = snd (attempt j)"
proof (induction n arbitrary: k)
  case (Suc n)
  show ?case
  proof (cases "snd (attempt k) = Some Update_Conflict")
    case True
    then have "snd (retry_on_conflict (Suc n) k attempt) = snd (retry_on_conflict n (Suc k) attempt)"
      by (cases "attempt k") (simp split: prod.split)
    with Suc.IH [of "Suc k"] show ?thesis by simp
  next
    case False
    then have "retry_on_conflict (Suc n) k attempt = attempt k"
      by (cases "attempt k") (auto split: option.splits kube_error.splits)
    then show ?thesis by auto
  qed
qed auto

section \<open>ServiceAccounts\<close>

text \<open>The loop of \<open>removeManagedSecretReference\<close>.\<close>

definition remove_managed_secret_reference :: "string list \<Rightarrow> string list" where
  "remove_managed_secret_reference references =
     fold (\<lambda>reference desired.
        if reference \<noteq> default_managed_secret_name then desired @ [reference] else desired)
       references []"

text \<open>
  The update of an existing ServiceAccount, if it needs one. An object of the API server without
  references has a nil slice, and \<open>reflect.DeepEqual\<close> tells it from the empty slice that the reset
  builds.
\<close>

definition prepared_account ::
  "(string, string) gomap \<Rightarrow> bool \<Rightarrow> run_account \<Rightarrow> run_account option" where
  "prepared_account labels reset current =
     (let references = sa_image_pull_secrets (ra_account current);
          desired = (if reset then remove_managed_secret_reference references else references);
          run = gm_get0 [] labels performance_run_label
      in if gm_get0 [] (ra_labels current) performance_run_label = run \<and> references = desired
            \<and> (reset \<longrightarrow> references \<noteq> [])
         then None
         else Some \<lparr>ra_account = (ra_account current)\<lparr>sa_image_pull_secrets := desired\<rparr>,
                    ra_labels = gm_put performance_run_label run (ra_labels current)\<rparr>)"

definition update_account_attempt ::
  "(string, string) gomap \<Rightarrow> bool \<Rightarrow> (kube_error, run_account) result \<Rightarrow> kube_error option
     \<Rightarrow> outcome" where
  "update_account_attempt labels reset get_answer update_answer =
     (case get_answer of
        Inl err \<Rightarrow> ([], Some err)
      | Inr current \<Rightarrow>
          (case prepared_account labels reset current of
             None \<Rightarrow> ([], None)
           | Some desired \<Rightarrow> ([Update_Account desired], update_answer)))"

definition ensure_service_account ::
  "nat \<Rightarrow> string \<Rightarrow> string \<Rightarrow> (string, string) gomap \<Rightarrow> bool \<Rightarrow> kube_error option
     \<Rightarrow> (nat \<Rightarrow> (kube_error, run_account) result) \<Rightarrow> (nat \<Rightarrow> kube_error option)
     \<Rightarrow> cluster_action list \<times> cluster_error option" where
  "ensure_service_account retries namespace name labels reset create_answer gets updates =
     (case create_answer of
        None \<Rightarrow> ([Create_Account namespace name labels], None)
      | Some err \<Rightarrow>
          if err \<noteq> Already_Exists
          then ([Create_Account namespace name labels], Some (Create_Account_Failed namespace name err))
          else (case retry_on_conflict retries 0
                  (\<lambda>k. update_account_attempt labels reset (gets k) (updates k)) of
              (acts, err') \<Rightarrow>
                (Create_Account namespace name labels # acts, map_option Request_Failed err')))"

section \<open>RoleBindings\<close>

definition writer_binding :: "(string, string) gomap \<Rightarrow> role_binding" where
  "writer_binding labels =
     \<lparr>rb_labels = labels,
      rb_role = (''rbac.authorization.k8s.io'', ''ClusterRole'', ''registry-secret-controller-perf-writer''),
      rb_subjects = [(''ServiceAccount'', ''registry-secret-controller'', default_controller_namespace)]\<rparr>"

definition update_binding_attempt ::
  "string \<Rightarrow> (string, string) gomap \<Rightarrow> (kube_error, role_binding) result \<Rightarrow> kube_error option
     \<Rightarrow> outcome" where
  "update_binding_attempt namespace labels get_answer update_answer =
     (let desired = writer_binding labels
      in case get_answer of
           Inl err \<Rightarrow> ([], Some err)
         | Inr current \<Rightarrow>
             if gm_get0 [] (rb_labels current) performance_run_label
                  = gm_get0 [] labels performance_run_label
                \<and> rb_role current = rb_role desired \<and> rb_subjects current = rb_subjects desired
             then ([], None)
             else ([Update_Binding namespace (current\<lparr>rb_labels := rb_labels desired,
                      rb_role := rb_role desired, rb_subjects := rb_subjects desired\<rparr>)],
                   update_answer))"

definition ensure_writer_binding ::
  "nat \<Rightarrow> string \<Rightarrow> (string, string) gomap \<Rightarrow> kube_error option
     \<Rightarrow> (nat \<Rightarrow> (kube_error, role_binding) result) \<Rightarrow> (nat \<Rightarrow> kube_error option)
     \<Rightarrow> cluster_action list \<times> cluster_error option" where
  "ensure_writer_binding retries namespace labels create_answer gets updates =
     (case create_answer of
        None \<Rightarrow> ([Create_Binding namespace (writer_binding labels)], None)
      | Some err \<Rightarrow>
          if err \<noteq> Already_Exists
          then ([Create_Binding namespace (writer_binding labels)],
                Some (Create_Binding_Failed namespace err))
          else (case retry_on_conflict retries 0
                  (\<lambda>k. update_binding_attempt namespace labels (gets k) (updates k)) of
              (acts, err') \<Rightarrow>
                (Create_Binding namespace (writer_binding labels) # acts,
                 map_option Request_Failed err')))"

section \<open>Namespaces\<close>

text \<open>What the API server answers to the requests for one Namespace.\<close>

record namespace_answers =
  na_create :: "kube_error option"
  na_get_labels :: "(kube_error, (string, string) gomap) result"
  na_account_create :: "string \<Rightarrow> kube_error option"
  na_account_get :: "string \<Rightarrow> nat \<Rightarrow> (kube_error, run_account) result"
  na_account_update :: "string \<Rightarrow> nat \<Rightarrow> kube_error option"
  na_binding_create :: "kube_error option"
  na_binding_get :: "nat \<Rightarrow> (kube_error, role_binding) result"
  na_binding_update :: "nat \<Rightarrow> kube_error option"

text \<open>A sequence of fallible steps stops at the first error and keeps the requests made.\<close>

fun sequence_steps ::
  "(cluster_action list \<times> cluster_error option) list \<Rightarrow> cluster_action list \<times> cluster_error option"
where
  "sequence_steps [] = ([], None)"
| "sequence_steps ((acts, Some err) # rest) = (acts, Some err)"
| "sequence_steps ((acts, None) # rest) =
     (case sequence_steps rest of (later, err) \<Rightarrow> (acts @ later, err))"

lemma sequence_steps_ok:
  "snd (sequence_steps steps) = None \<longleftrightarrow> (\<forall>(_, err) \<in> set steps. err = None)"
  by (induction steps rule: sequence_steps.induct) (auto split: prod.split)

lemma sequence_steps_actions:
  "a \<in> set (fst (sequence_steps steps)) \<Longrightarrow> \<exists>(acts, _) \<in> set steps. a \<in> set acts"
  by (induction steps rule: sequence_steps.induct) (auto split: prod.splits)

definition ensure_account_of ::
  "nat \<Rightarrow> namespace_answers \<Rightarrow> string \<Rightarrow> (string, string) gomap \<Rightarrow> bool \<Rightarrow> string
     \<Rightarrow> cluster_action list \<times> cluster_error option" where
  "ensure_account_of retries ans namespace labels reset name =
     ensure_service_account retries namespace name labels reset (na_account_create ans name)
       (na_account_get ans name) (na_account_update ans name)"

definition ensure_binding_of ::
  "nat \<Rightarrow> namespace_answers \<Rightarrow> string \<Rightarrow> (string, string) gomap
     \<Rightarrow> cluster_action list \<times> cluster_error option" where
  "ensure_binding_of retries ans namespace labels =
     ensure_writer_binding retries namespace labels (na_binding_create ans) (na_binding_get ans)
       (na_binding_update ans)"

text \<open>The operation of \<open>prepareWorkload\<close> on one Namespace.\<close>

definition create_run_namespace ::
  "namespace_answers \<Rightarrow> string \<Rightarrow> string \<Rightarrow> cluster_action list \<times> cluster_error option" where
  "create_run_namespace ans run_id namespace =
     ([Create_Namespace namespace [(performance_run_label, run_id)]],
      case na_create ans of
        None \<Rightarrow> None
      | Some err \<Rightarrow>
          if err \<noteq> Already_Exists then Some (Create_Namespace_Failed namespace err)
          else (case na_get_labels ans of
              Inl err' \<Rightarrow> Some (Create_Namespace_Failed namespace err')
            | Inr labels \<Rightarrow>
                if gm_get0 [] labels performance_run_label \<noteq> run_id
                then Some (Namespace_Not_Of_Run namespace) else None))"

definition prepare_namespace ::
  "nat \<Rightarrow> (string \<Rightarrow> namespace_answers) \<Rightarrow> string \<Rightarrow> string
     \<Rightarrow> cluster_action list \<times> cluster_error option" where
  "prepare_namespace retries answers run_id namespace =
     (let ans = answers namespace; labels = [(performance_run_label, run_id)]
      in sequence_steps
          (create_run_namespace ans run_id namespace
           # map (ensure_account_of retries ans namespace labels True) target_service_accounts
           @ [ensure_binding_of retries ans namespace labels]))"

section \<open>Managed Secrets\<close>

text \<open>The Namespaces whose managed Secret \<open>resetManagedSecrets\<close> deletes, and what a deletion
  returns: a Secret that is gone already is no error.\<close>

definition secrets_to_delete :: "string list \<Rightarrow> secret list \<Rightarrow> string list" where
  "secrets_to_delete namespaces secrets =
     (let targets = fold (\<lambda>ns. gm_put ns ()) namespaces []
      in map se_namespace (filter (\<lambda>s. gm_get targets (se_namespace s) \<noteq> None) secrets))"

definition delete_result :: "kube_error option \<Rightarrow> kube_error option" where
  "delete_result answer = (if answer = Some Not_Found then None else answer)"

section \<open>The controller under test\<close>

fun join_strings :: "string list \<Rightarrow> string \<Rightarrow> string" where
  "join_strings [] sep = []"
| "join_strings [x] sep = x"
| "join_strings (x # y # rest) sep = x @ sep @ join_strings (y # rest) sep"

definition mock_registries :: string where
  "mock_registries =
     ''- regionID: mock-region'' @ [CHR 0x0A]
     @ ''  instanceID: mock-registry'' @ [CHR 0x0A]
     @ ''  accessKeyID: mock-access-key'' @ [CHR 0x0A]
     @ ''  accessKeySecret: mock-access-secret'' @ [CHR 0x0A]
     @ ''  domains:'' @ [CHR 0x0A]
     @ ''    - registry.mock.example'' @ [CHR 0x0A]"

definition target_data :: "string list \<Rightarrow> string list \<Rightarrow> (string, string) gomap" where
  "target_data namespaces accounts =
     [(namespace_key, join_strings namespaces '',''), (service_account_key, join_strings accounts '',''),
      (registries_key, mock_registries)]"

definition configure_targets ::
  "nat \<Rightarrow> string list \<Rightarrow> string list \<Rightarrow> (nat \<Rightarrow> kube_error option) \<Rightarrow> (nat \<Rightarrow> kube_error option)
     \<Rightarrow> cluster_action list \<times> cluster_error option" where
  "configure_targets retries namespaces accounts gets updates =
     (let value = join_strings namespaces '',''
      in if length value > maximum_config_map_data_size
         then ([], Some (Selector_Too_Large (length value)))
         else (case retry_on_conflict retries 0
                 (\<lambda>k. case gets k of Some err \<Rightarrow> ([], Some err)
                   | None \<Rightarrow> ([Update_Config_Map (target_data namespaces accounts)], updates k)) of
             (acts, err) \<Rightarrow> (acts, map_option Request_Failed err)))"

text \<open>The answer to a get is the number of replicas of the Deployment, \<open>None\<close> when it has none set.\<close>

definition set_deployment_replicas ::
  "nat \<Rightarrow> int \<Rightarrow> (nat \<Rightarrow> (kube_error, int option) result) \<Rightarrow> (nat \<Rightarrow> kube_error option)
     \<Rightarrow> cluster_action list \<times> cluster_error option" where
  "set_deployment_replicas retries replicas gets updates =
     (case retry_on_conflict retries 0
        (\<lambda>k. case gets k of
            Inl err \<Rightarrow> ([], Some err)
          | Inr current \<Rightarrow>
              if current = Some replicas then ([], None) else ([Scale replicas], updates k)) of
        (acts, err) \<Rightarrow> (acts, map_option Request_Failed err))"

text \<open>The conditions of a Pod: type and status.\<close>

type_synonym pod = "(string \<times> string) list"

definition pod_ready :: "pod \<Rightarrow> bool" where
  "pod_ready conditions \<longleftrightarrow>
     list_ex (\<lambda>(type, status). type = ''Ready'' \<and> status = ''True'') conditions"

text \<open>
  A loop that polls: each round has an answer, and if that does not end the loop, what the
  \<open>select\<close> picks. \<open>None\<close> when the rounds given do not suffice.
\<close>

datatype wake = Wake_Context string | Wake_Deadline | Wake_Tick

datatype wait_error = Wait_List_Failed kube_error | Wait_Context string | Wait_Timeout

fun poll_until ::
  "('a \<Rightarrow> bool) \<Rightarrow> ((kube_error, 'a) result \<times> wake) list \<Rightarrow> (wait_error, 'a) result option" where
  "poll_until good [] = None"
| "poll_until good ((answer, wake) # rounds) =
     (case answer of
        Inl err \<Rightarrow> Some (Inl (Wait_List_Failed err))
      | Inr x \<Rightarrow>
          if good x then Some (Inr x)
          else (case wake of
              Wake_Context err \<Rightarrow> Some (Inl (Wait_Context err))
            | Wake_Deadline \<Rightarrow> Some (Inl Wait_Timeout)
            | Wake_Tick \<Rightarrow> poll_until good rounds))"

definition pods_wanted :: "bool \<Rightarrow> pod list \<Rightarrow> bool" where
  "pods_wanted want_ready pods \<longleftrightarrow>
     (\<not> want_ready \<and> length pods = 0)
     \<or> (want_ready \<and> length pods = 1 \<and> pod_ready (hd pods))"

definition wait_for_controller_pods ::
  "bool \<Rightarrow> ((kube_error, pod list) result \<times> wake) list \<Rightarrow> (wait_error, pod list) result option" where
  "wait_for_controller_pods want_ready = poll_until (pods_wanted want_ready)"

section \<open>Clean-up and reuse\<close>

text \<open>
  \<open>cleanupRun\<close>: the Namespaces of the run, what deleting them in parallel returned, and the
  rounds of the loop that waits until none is left.
\<close>

datatype cleanup_error = Cleanup_List_Failed kube_error | Cleanup_Delete_Failed kube_error
  | Cleanup_Canceled | Cleanup_Wait_Failed wait_error

definition cleanup_run ::
  "(kube_error, string list) result \<Rightarrow> kube_error pool_result
     \<Rightarrow> ((kube_error, string list) result \<times> wake) list \<Rightarrow> cleanup_error option option" where
  "cleanup_run answered deleted rounds =
     (case answered of
        Inl err \<Rightarrow> Some (Some (Cleanup_List_Failed err))
      | Inr names \<Rightarrow>
          if length names = 0 then Some None
          else (case deleted of
              Pool_Failed err \<Rightarrow> Some (Some (Cleanup_Delete_Failed err))
            | Pool_Context_Done \<Rightarrow> Some (Some Cleanup_Canceled)
            | Pool_Ok \<Rightarrow>
                (case poll_until (\<lambda>remaining. length remaining = 0) rounds of
                   None \<Rightarrow> None
                 | Some (Inl err) \<Rightarrow> Some (Some (Cleanup_Wait_Failed err))
                 | Some (Inr _) \<Rightarrow> Some None)))"

definition validate_reusable_dataset ::
  "string \<Rightarrow> nat \<Rightarrow> (kube_error, string list) result \<Rightarrow> cluster_error option" where
  "validate_reusable_dataset dataset_id desired answered =
     (let expected = fold (\<lambda>ns. gm_put ns ()) (namespace_names dataset_id desired) []
      in case answered of
           Inl err \<Rightarrow> Some (List_Failed ''reusable dataset'' err)
         | Inr existing \<Rightarrow>
             map_option (\<lambda>ns. Outside_Dataset dataset_id ns desired)
               (find (\<lambda>ns. gm_get expected ns = None) existing))"

section \<open>The final state\<close>

definition contains_string :: "string list \<Rightarrow> string \<Rightarrow> bool" where
  "contains_string vals wanted \<longleftrightarrow> list_ex (\<lambda>v. v = wanted) vals"

text \<open>
  The Secrets are those named like the managed one in any Namespace, the ServiceAccounts those
  with the label of the run.
\<close>

definition valid_secrets :: "string list \<Rightarrow> secret list \<Rightarrow> secret list" where
  "valid_secrets namespaces =
     filter (\<lambda>s. gm_get (fold (\<lambda>ns. gm_put ns ()) namespaces []) (se_namespace s) \<noteq> None
       \<and> is_usable_for_service_account s)"

definition valid_accounts :: "string list \<Rightarrow> service_account list \<Rightarrow> service_account list" where
  "valid_accounts namespaces =
     filter (\<lambda>a. gm_get (fold (\<lambda>ns. gm_put ns ()) namespaces []) (sa_namespace a) \<noteq> None
       \<and> contains_string target_service_accounts (sa_name a) \<and> references_managed_secret a)"

definition verify_final_state ::
  "string list \<Rightarrow> (kube_error, secret list) result \<Rightarrow> (kube_error, service_account list) result
     \<Rightarrow> cluster_error option" where
  "verify_final_state namespaces secrets accounts =
     (case secrets of
        Inl err \<Rightarrow> Some (List_Failed ''Secrets'' err)
      | Inr ss \<Rightarrow>
          if length (valid_secrets namespaces ss) \<noteq> length namespaces
          then Some (Wrong_Secret_Count (length (valid_secrets namespaces ss)) (length namespaces))
          else (case accounts of
              Inl err \<Rightarrow> Some (List_Failed ''ServiceAccounts'' err)
            | Inr sas \<Rightarrow>
                (let wanted = length namespaces * length target_service_accounts
                 in if length (valid_accounts namespaces sas) \<noteq> wanted
                    then Some (Wrong_Account_Count (length (valid_accounts namespaces sas)) wanted)
                    else None)))"

end
