(* ===== verification/PerfClusterSpec.thy ===== *)
theory PerfClusterSpec
  imports PerfCluster
begin

text \<open>
  What the cluster operations of the performance driver guarantee: preparing a ServiceAccount
  undoes the controller's patch or leaves it alone, the configuration written is the one the
  controller reads, the final check accepts exactly the converged state, and which retained
  datasets can be reused.
\<close>

section \<open>References\<close>

lemma remove_managed_filter [simp]:
  "remove_managed_secret_reference references
    = filter (\<lambda>r. r \<noteq> default_managed_secret_name) references"
proof -
  have "fold (\<lambda>reference desired. if reference \<noteq> m then desired @ [reference] else desired) xs ys
      = ys @ filter (\<lambda>r. r \<noteq> m) xs" for m :: string and xs ys
    by (induction xs arbitrary: ys) auto
  then show ?thesis by (simp add: remove_managed_secret_reference_def)
qed

text \<open>
  The driver's reset of a ServiceAccount is the controller's own removal of the reference, and
  it undoes the controller's patch whatever it was: the references of other owners stay as they
  are, in their order.
\<close>

lemma reset_undoes_patch:
  "remove_managed_secret_reference references
     = reconcile_references references default_managed_secret_name False
   \<and> remove_managed_secret_reference
       (reconcile_references references default_managed_secret_name should)
     = remove_managed_secret_reference references"
  by (simp add: reconcile_foreign)

lemma reset_always_writes:
  "sa_image_pull_secrets (ra_account a) = [] \<Longrightarrow> prepared_account labels True a \<noteq> None"
  by (simp add: prepared_account_def Let_def)

lemma prepared_account_Some:
  assumes "prepared_account labels reset a = Some b"
  shows "sa_image_pull_secrets (ra_account b) =
      (if reset then remove_managed_secret_reference (sa_image_pull_secrets (ra_account a))
       else sa_image_pull_secrets (ra_account a))"
    "gm_get0 [] (ra_labels b) performance_run_label = gm_get0 [] labels performance_run_label"
    "(reset \<longrightarrow> sa_image_pull_secrets (ra_account b) \<noteq> []) \<Longrightarrow> prepared_account labels reset b = None"
  using assms by (auto simp: prepared_account_def Let_def gm_get0_def map_laws split: if_splits)

text \<open>
  Ensuring a ServiceAccount writes only what it read: an update carries the label of the run
  and the references of some answer to a get, without the managed one when it resets and unchanged
  when it does not, so that preparing an injected account never undoes a patch of the controller;
  what was written needs no further update, except that a reset of an account without references
  is always written again. No error means that the account was created, needed nothing, or was
  updated.
\<close>

lemma ensured_account:
  assumes "ensure_service_account retries namespace name labels reset create_answer gets updates
    = (acts, err)"
  shows "(\<forall>b. Update_Account b \<in> set acts \<longrightarrow>
        (\<exists>k a. gets k = Inr a
          \<and> sa_image_pull_secrets (ra_account b) =
             (if reset then reconcile_references (sa_image_pull_secrets (ra_account a))
                default_managed_secret_name False
              else sa_image_pull_secrets (ra_account a))
          \<and> gm_get0 [] (ra_labels b) performance_run_label = gm_get0 [] labels performance_run_label
          \<and> ((reset \<longrightarrow> sa_image_pull_secrets (ra_account b) \<noteq> [])
              \<longrightarrow> prepared_account labels reset b = None)))
    \<and> (err = None \<longrightarrow>
        create_answer = None
        \<or> (\<exists>k a. gets k = Inr a \<and> (prepared_account labels reset a = None \<or> updates k = None)))"
proof -
  define attempt where "attempt = (\<lambda>k. update_account_attempt labels reset (gets k) (updates k))"
  define tried where "tried = retry_on_conflict retries 0 attempt"
  have acts: "Update_Account b \<in> set acts \<longleftrightarrow>
      create_answer = Some Already_Exists \<and> Update_Account b \<in> set (fst tried)" for b
    using assms by (auto simp: ensure_service_account_def attempt_def tried_def
      split: option.splits if_splits prod.splits)
  have updated: "\<exists>k a. gets k = Inr a \<and> prepared_account labels reset a = Some b"
    if "Update_Account b \<in> set acts" for b
  proof -
    have "Update_Account b \<in> set (fst tried)" using that by (simp add: acts)
    then obtain j where "Update_Account b \<in> set (fst (attempt j))"
      using retry_on_conflict_actions unfolding tried_def by blast
    then show ?thesis
      by (auto simp: attempt_def update_account_attempt_def split: sum.splits option.splits)
  qed
  moreover have "create_answer = None
      \<or> (\<exists>k a. gets k = Inr a \<and> (prepared_account labels reset a = None \<or> updates k = None))"
    if "err = None"
  proof (cases create_answer)
    case (Some e)
    with that assms have "snd tried = None"
      by (auto simp: ensure_service_account_def attempt_def tried_def split: if_splits prod.splits)
    moreover obtain j where "snd tried = snd (attempt j)"
      using retry_on_conflict_last unfolding tried_def by blast
    ultimately have "snd (attempt j) = None" by simp
    then show ?thesis
      by (auto simp: attempt_def update_account_attempt_def split: sum.splits option.splits)
  qed simp
  ultimately show ?thesis by (fastforce dest: prepared_account_Some)
qed

section \<open>The final state\<close>

text \<open>Counting the images of an injective enumeration.\<close>

lemma length_eq_iff_covers:
  assumes "distinct xs" "distinct (map f ys)" "f ` set ys \<subseteq> set xs"
  shows "length ys = length xs \<longleftrightarrow> set xs \<subseteq> f ` set ys"
proof -
  have card: "card (f ` set ys) = length ys" "card (set xs) = length xs"
    using assms(1,2) distinct_card [of "map f ys"] by (simp_all add: distinct_card)
  show ?thesis
  proof
    assume "length ys = length xs"
    with card have "f ` set ys = set xs" using assms(3) by (intro card_subset_eq) auto
    then show "set xs \<subseteq> f ` set ys" by simp
  next
    assume "set xs \<subseteq> f ` set ys"
    with assms(3) have "f ` set ys = set xs" by blast
    with card show "length ys = length xs" by simp
  qed
qed

lemma fold_put_get: "gm_get (fold (\<lambda>ns. gm_put ns ()) xs []) k \<noteq> None \<longleftrightarrow> k \<in> set xs"
  by (simp add: gm.get_fold_put)

lemma valid_secrets_set:
  "set (valid_secrets nss ss) = {s \<in> set ss. se_namespace s \<in> set nss \<and> is_usable_for_service_account s}"
  unfolding valid_secrets_def set_filter fold_put_get ..

lemma valid_accounts_set:
  "set (valid_accounts nss sas) =
    {a \<in> set sas. sa_namespace a \<in> set nss \<and> sa_name a \<in> set target_service_accounts
       \<and> references_managed_secret a}"
  by (auto simp: valid_accounts_def fold_put_get contains_string_def list_ex_iff simp del: not_None_eq)

definition account_id :: "service_account \<Rightarrow> string \<times> string" where
  "account_id a = (sa_namespace a, sa_name a)"

text \<open>
  C37: The final verification counts, and the count is exact: when the API server lists every
  object once, it accepts precisely the states in which each Namespace of the dataset has a usable
  managed Secret and each of its target ServiceAccounts references it, whatever other objects
  (those of an injection among them) the lists contain.
\<close>

theorem final_state_verified:
  assumes namespaces: "distinct nss"
    and secrets: "distinct (map se_namespace ss)" and accounts: "distinct (map account_id sas)"
  shows "verify_final_state nss (Inr ss) (Inr sas) = None \<longleftrightarrow>
    (\<forall>ns \<in> set nss.
       (\<exists>s \<in> set ss. se_namespace s = ns \<and> is_usable_for_service_account s)
       \<and> (\<forall>name \<in> set target_service_accounts.
            \<exists>a \<in> set sas. account_id a = (ns, name) \<and> references_managed_secret a))"
proof -
  let ?vs = "valid_secrets nss ss" and ?va = "valid_accounts nss sas"
  let ?pairs = "List.product nss target_service_accounts"
  have "distinct (map se_namespace ?vs)" "distinct (map account_id ?va)"
    using secrets accounts by (simp_all add: valid_secrets_def valid_accounts_def distinct_map_filter)
  moreover have "distinct target_service_accounts" by code_simp
  then have "distinct ?pairs" using namespaces by (rule distinct_product [rotated])
  moreover have "se_namespace ` set ?vs \<subseteq> set nss" "account_id ` set ?va \<subseteq> set ?pairs"
    by (auto simp: valid_secrets_set valid_accounts_set account_id_def)
  ultimately have counts: "length ?vs = length nss \<longleftrightarrow> set nss \<subseteq> se_namespace ` set ?vs"
    "length ?va = length ?pairs \<longleftrightarrow> set ?pairs \<subseteq> account_id ` set ?va"
    using namespaces by (simp_all only: length_eq_iff_covers)
  have "verify_final_state nss (Inr ss) (Inr sas) = None \<longleftrightarrow>
      length ?vs = length nss \<and> length ?va = length ?pairs"
    by (simp add: verify_final_state_def Let_def length_product)
  also have "\<dots> \<longleftrightarrow> set nss \<subseteq> se_namespace ` set ?vs \<and> set ?pairs \<subseteq> account_id ` set ?va"
    unfolding counts ..
  also have "set nss \<subseteq> se_namespace ` set ?vs \<longleftrightarrow>
      (\<forall>ns \<in> set nss. \<exists>s \<in> set ss. se_namespace s = ns \<and> is_usable_for_service_account s)"
    by (auto simp: valid_secrets_set image_iff)
  also have "set ?pairs \<subseteq> account_id ` set ?va \<longleftrightarrow>
      (\<forall>ns \<in> set nss. \<forall>name \<in> set target_service_accounts.
         \<exists>a \<in> set sas. account_id a = (ns, name) \<and> references_managed_secret a)"
    by (fastforce simp: valid_accounts_set account_id_def image_iff)
  finally show ?thesis by blast
qed

section \<open>Datasets\<close>

lemma digits_value_zeros: "digits_value 0 (replicate n (CHR ''0'') @ s) = digits_value 0 s"
  by (induction n) (simp_all add: digit_value_def)

lemma pad5_value: "digits_value 0 (pad5 n) = Some (int n)"
  by (simp add: pad5_def digits_value_zeros digits_value_show)

lemma pad5_inject: "pad5 m = pad5 n \<longleftrightarrow> m = n"
  by (metis pad5_value of_nat_eq_iff option.inject)

lemma late_not_number: "pad5 n \<noteq> ''late''"
proof
  assume "pad5 n = ''late''"
  then have "digits_value 0 ''late'' = Some (int n)" using pad5_value [of n] by simp
  moreover have "digits_value 0 ''late'' = None" by code_simp
  ultimately show False by simp
qed

lemma namespace_names_facts:
  "distinct (namespace_names d n)" "length (namespace_names d n) = n"
  "m \<le> n \<Longrightarrow> set (namespace_names d m) \<subseteq> set (namespace_names d n)"
  "concurrent_namespace_name d \<notin> set (namespace_names d n)"
  using late_not_number [symmetric]
  by (auto simp: namespace_names_def distinct_map inj_on_def pad5_inject concurrent_namespace_name_def)

text \<open>
  A dataset can be reused exactly when every Namespace that carries its label is one of the
  first ones asked for: a retained tier can be grown and not shrunk. In particular a dataset
  retained after an injection is refused for any size, because the injected Namespace carries the
  label of the dataset and is never one of its numbered names.
\<close>

lemma reusable_dataset:
  "(validate_reusable_dataset d n (Inr existing) = None
      \<longleftrightarrow> set existing \<subseteq> set (namespace_names d n))
   \<and> (m \<le> n \<longrightarrow> validate_reusable_dataset d n (Inr (namespace_names d m)) = None)
   \<and> (concurrent_namespace_name d \<in> set existing
      \<longrightarrow> validate_reusable_dataset d n (Inr existing) \<noteq> None)"
proof -
  have iff: "validate_reusable_dataset d n (Inr existing) = None
      \<longleftrightarrow> set existing \<subseteq> set (namespace_names d n)" for existing
    unfolding validate_reusable_dataset_def Let_def
    by (auto simp: find_None_iff gm.get_fold_put split: if_splits)
  show ?thesis unfolding iff using namespace_names_facts(3,4) by blast
qed

section \<open>The configuration the controller reads\<close>

definition visible_char :: "char \<Rightarrow> bool" where
  "visible_char c \<longleftrightarrow> CHR ''!'' \<le> c \<and> c \<le> CHR ''~''"

lemma spaces_invisible:
  "list_all (\<lambda>p. p = [] \<or> \<not> visible_char (hd p)) space_encodings"
  "list_all (\<lambda>p. p = [] \<or> \<not> visible_char (hd p)) (map rev space_encodings)"
  by code_simp+

lemma trim_visible: "list_all visible_char s \<Longrightarrow> trim_space s = s"
proof -
  have strip: "unstrippable ps s"
    if "list_all (\<lambda>p. p = [] \<or> \<not> visible_char (hd p)) ps" "list_all visible_char s" for ps s
    using that by (cases s) (force simp: unstrippable_def starts_with_def list_all_iff neq_Nil_conv)+
  show "list_all visible_char s \<Longrightarrow> trim_space s = s"
    unfolding trim_space_fixed using strip spaces_invisible by (auto simp: list_all_iff)
qed

lemma split_on_append: "sep \<notin> set x \<Longrightarrow> split_on sep (x @ sep # s) = x # split_on sep s"
  by (induction x) auto

lemma split_on_plain: "sep \<notin> set x \<Longrightarrow> split_on sep x = [x]"
  by (induction x) auto

lemma split_join:
  "names \<noteq> [] \<Longrightarrow> \<forall>x \<in> set names. sep \<notin> set x \<Longrightarrow> split_on sep (join_strings names [sep]) = names"
  by (induction names "[sep]" rule: join_strings.induct) (auto simp: split_on_append split_on_plain)

text \<open>A name as the validators accept it: visible characters, no comma, not the wildcard.\<close>

definition plain_name :: "(string \<Rightarrow> string list) \<Rightarrow> string \<Rightarrow> bool" where
  "plain_name validate name \<longleftrightarrow>
     name \<noteq> [] \<and> list_all (\<lambda>c. visible_char c \<and> c \<noteq> CHR '','') name \<and> name \<noteq> wildcard
     \<and> validate name = []"

lemma plain_name_facts:
  assumes "plain_name validate name"
  shows "name \<noteq> []" "CHR '','' \<notin> set name" "trim_space name = name" "list_all visible_char name"
    "name \<noteq> wildcard" "validate name = []"
proof -
  show visible: "list_all visible_char name" using assms by (simp add: plain_name_def list_all_iff)
  then show "trim_space name = name" by (rule trim_visible)
  show "CHR '','' \<notin> set name" using assms unfolding plain_name_def list_all_iff by blast
  show "name \<noteq> []" "name \<noteq> wildcard" "validate name = []"
    using assms unfolding plain_name_def by blast+
qed

lemma comma_visible: "visible_char (CHR '','')"
  by code_simp

lemma join_visible:
  "\<forall>x \<in> set names. list_all visible_char x \<Longrightarrow> list_all visible_char (join_strings names '','')"
  by (induction names "'',''" rule: join_strings.induct) (simp_all add: comma_visible)

lemma join_eq_Nil: "names \<noteq> [] \<Longrightarrow> [] \<notin> set names \<Longrightarrow> join_strings names sep \<noteq> []"
  by (induction names sep rule: join_strings.induct) auto

lemma map_result_all: "\<forall>x \<in> set xs. f x = Inr x \<Longrightarrow> map_result f xs = Inr xs"
  by (induction xs) auto

text \<open>Reading back a list of names that was joined with commas.\<close>

lemma parse_joined_names:
  assumes "names \<noteq> []" "\<forall>x \<in> set names. plain_name validate x"
  shows "parse_name_selector (join_strings names '','') field validate
    = Inr \<lparr>sel_match_all = False, sel_names = sorted_unique names\<rparr>"
proof -
  note facts = plain_name_facts [of validate]
  let ?raw = "join_strings names '',''"
  have trim: "trim_space ?raw = ?raw" using assms(2) facts(4) by (intro trim_visible join_visible) blast
  have "?raw \<noteq> []" using assms facts(1) by (intro join_eq_Nil) auto
  moreover have "split_on CHR '','' ?raw = names" using assms facts(2) by (intro split_join) auto
  moreover have "map_result (parse_name field validate True) names = Inr names"
    using assms(2) facts by (intro map_result_all) (simp add: parse_name_def)
  moreover have "\<not> contains_sorted (sorted_unique names) wildcard"
    using assms(2) facts(5) by (auto simp: contains_sorted_iff)
  ultimately show ?thesis
    by (simp add: parse_name_selector_def Let_def trim parse_name_list_def)
qed

definition mock_registry :: registry_config where
  "mock_registry =
     \<lparr>rc_region = ''mock-region'', rc_instance = ''mock-registry'',
      rc_access_key_id = ''mock-access-key'', rc_access_key_secret = ''mock-access-secret'',
      rc_domains = [''registry.mock.example'']\<rparr>"

lemma mock_registry_trims:
  "trim_space ''mock-region'' = ''mock-region''" "trim_space ''mock-registry'' = ''mock-registry''"
  "trim_space ''mock-access-key'' = ''mock-access-key''"
  "trim_space ''mock-access-secret'' = ''mock-access-secret''"
  "trim_space ''registry.mock.example'' = ''registry.mock.example''"
  "trim_suffix (to_lower ''registry.mock.example'') ''.'' = ''registry.mock.example''"
  "\<not> str_contains ''registry.mock.example'' ''://''" "\<not> contains_any ''registry.mock.example'' ''/?#@:''"
  "trim_space mock_registries \<noteq> []"
  by code_simp+

lemma mock_registries_parse:
  assumes "yaml_registries env mock_registries = Some [mock_registry]"
    and "dns_subdomain env ''registry.mock.example'' = []"
  shows "parse_registries env mock_registries = Inr [(config_key mock_registry, mock_registry)]"
proof -
  have "normalize_domain (dns_subdomain env) ''registry.mock.example'' = Inr ''registry.mock.example''"
    using assms(2)
    by (simp add: normalize_domain_def mock_registry_trims Let_def
      del: to_lower.simps str_contains.simps)
  then have "normalize_registry (dns_subdomain env) mock_registry = Inr mock_registry"
    by (simp add: normalize_registry_def mock_registry_def mock_registry_trims sorted_unique_def)
  moreover have "merge_registry [] [] mock_registry
      = Inr ([(config_key mock_registry, mock_registry)], [(''registry.mock.example'', config_key mock_registry)])"
    by (simp add: merge_registry_def mock_registry_def Let_def)
  ultimately show ?thesis
    using assms(1) by (simp add: parse_registries_def mock_registry_trims)
qed

lemma target_data_reads:
  "gm_get0 [] (target_data nss sas) namespace_key = join_strings nss '',''"
  "gm_get0 [] (target_data nss sas) exclude_namespace_key = []"
  "gm_get0 [] (target_data nss sas) service_account_key = join_strings sas '',''"
  "gm_get0 [] (target_data nss sas) registries_key = mock_registries"
  "gm_get (target_data nss sas) kube_api_qps_key = None"
  "gm_get (target_data nss sas) kube_api_burst_key = None"
  "gm_get (target_data nss sas) workers_key = None"
  "set (gm_keys (target_data nss sas)) \<subseteq> set supported_keys"
  by (simp_all add: target_data_def gm_get0_def gm_keys_def supported_keys_def namespace_key_def
    exclude_namespace_key_def service_account_key_def registries_key_def kube_api_qps_key_def
    kube_api_burst_key_def workers_key_def)

text \<open>
  C38: What the driver writes into the ConfigMap is what the controller reads: for names that the
  validators accept, with the mock registry decoded as written, the data parses, and the parsed
  configuration targets exactly the given Namespaces and ServiceAccounts; so the controller under
  test serves the tracked dataset and nothing else.
\<close>

theorem configured_targets_read_back:
  assumes namespaces: "nss \<noteq> []" "\<forall>x \<in> set nss. plain_name (dns_label env) x"
    and accounts: "sas \<noteq> []" "\<forall>x \<in> set sas. plain_name (dns_subdomain env) x"
    and decoded: "yaml_registries env mock_registries = Some [mock_registry]"
    and domain: "dns_subdomain env ''registry.mock.example'' = []"
  shows "\<exists>s. parse env (target_data nss sas) = Inr s
    \<and> (\<forall>n. matches_namespace s n \<longleftrightarrow> n \<in> set nss)
    \<and> (\<forall>a. selector_matches (cs_accounts s) a \<longleftrightarrow> a \<in> set sas)
    \<and> cs_registries s = [(config_key mock_registry, mock_registry)]"
proof -
  let ?d = "target_data nss sas"
  obtain runtime where runtime: "parse_runtime (parse_float env) ?d = Inr runtime"
    by (auto simp: parse_runtime_def parse_qps_def parse_positive_def target_data_reads)
  define s where "s = \<lparr>cs_generation = 0,
      cs_namespaces = \<lparr>sel_match_all = False, sel_names = sorted_unique nss\<rparr>, cs_excluded = [],
      cs_accounts = \<lparr>sel_match_all = False, sel_names = sorted_unique sas\<rparr>,
      cs_registries = [(config_key mock_registry, mock_registry)], cs_runtime = runtime\<rparr>"
  have "parse env ?d = Inr s"
    unfolding parse_Inr
    by (simp add: s_def target_data_reads runtime parse_joined_names [OF namespaces]
      parse_joined_names [OF accounts] mock_registries_parse [OF decoded domain]
      parse_optional_name_list_def)
  moreover have "matches_namespace s n \<longleftrightarrow> n \<in> set nss" for n
    by (simp add: s_def matches_namespace_def selector_matches_def contains_sorted_iff)
  moreover have "selector_matches (cs_accounts s) a \<longleftrightarrow> a \<in> set sas" for a
    by (simp add: s_def selector_matches_def contains_sorted_iff)
  moreover have "cs_registries s = [(config_key mock_registry, mock_registry)]" by (simp add: s_def)
  ultimately show ?thesis by blast
qed

section \<open>Witnesses\<close>

definition perf_env :: parse_env where
  "perf_env = sample_env\<lparr>dns_label := (\<lambda>_. []), dns_subdomain := (\<lambda>_. []),
     yaml_registries := (\<lambda>_. Some [mock_registry])\<rparr>"

theorem configured_targets_read_back_witness:
  "\<exists>s. parse perf_env (target_data [''krsc-perf-a-00000''] target_service_accounts) = Inr s
     \<and> matches_namespace s ''krsc-perf-a-00000'' \<and> \<not> selector_matches (cs_accounts s) ''other''"
proof -
  let ?nss = "[''krsc-perf-a-00000'']"
  have ns: "\<forall>x \<in> set ?nss. plain_name (dns_label perf_env) x"
    and sa: "\<forall>x \<in> set target_service_accounts. plain_name (dns_subdomain perf_env) x"
    and dec: "yaml_registries perf_env mock_registries = Some [mock_registry]"
      "dns_subdomain perf_env ''registry.mock.example'' = []"
      "target_service_accounts \<noteq> []" "''other'' \<notin> set target_service_accounts"
    by code_simp+
  show ?thesis
    using configured_targets_read_back [OF _ ns dec(3) sa dec(1,2)] dec(4) by auto
qed

definition labelled_account :: "string \<Rightarrow> string list \<Rightarrow> run_account" where
  "labelled_account run refs =
     \<lparr>ra_account = \<lparr>sa_name = ''default'', sa_namespace = ''ns-late'', sa_resource_version = ''1'',
        sa_image_pull_secrets = refs\<rparr>,
      ra_labels = [(performance_run_label, run)]\<rparr>"

lemma ensured_account_witness:
  "sa_image_pull_secrets (ra_account (labelled_account ''blog'' [default_managed_secret_name, ''user'']))
     = [default_managed_secret_name, ''user'']
   \<and> prepared_account [(performance_run_label, ''blog'')] False
      (labelled_account ''blog'' [default_managed_secret_name, ''user'']) = None"
proof -
  let ?new = "labelled_account ''blog'' [default_managed_secret_name, ''user'']"
  let ?old = "labelled_account ''other'' [default_managed_secret_name, ''user'']"
  have "ensure_service_account 4 ''ns-late'' ''default'' [(performance_run_label, ''blog'')] False
      (Some Already_Exists) (\<lambda>_. Inr ?old) (\<lambda>_. None)
    = ([Create_Account ''ns-late'' ''default'' [(performance_run_label, ''blog'')], Update_Account ?new],
       None)"
    by (simp add: ensure_service_account_def update_account_attempt_def prepared_account_def Let_def
      labelled_account_def gm_get0_def eval_nat_numeral)
  note ensured = ensured_account [OF this]
  from ensured show ?thesis by (simp add: labelled_account_def)
qed

theorem final_state_verified_witness:
  "verify_final_state [''a''] (Inr [shown_secret ''a'' ''x'', shown_secret ''late'' ''x''])
     (Inr (map (\<lambda>n. \<lparr>sa_name = n, sa_namespace = ''a'', sa_resource_version = ''1'',
        sa_image_pull_secrets = [default_managed_secret_name]\<rparr>)
        [''default'', ''workload'', ''late-workload''])) = None"
proof -
  have secrets: "distinct (map se_namespace [shown_secret ''a'' ''x'', shown_secret ''late'' ''x''])"
    by (simp add: shown_secret_def)
  have accounts: "distinct (map account_id (map (\<lambda>n. \<lparr>sa_name = n, sa_namespace = ''a'',
      sa_resource_version = ''1'', sa_image_pull_secrets = [default_managed_secret_name]\<rparr>)
        [''default'', ''workload'', ''late-workload'']))"
    by (simp add: account_id_def)
  have usable: "is_usable_for_service_account (shown_secret ''a'' ''x'')" by code_simp
  show ?thesis
    unfolding final_state_verified [OF distinct_singleton secrets accounts]
    using usable
    by (simp add: account_id_def target_service_accounts_def service_account_default_def
      service_account_workload_def references_managed_secret_def) (simp add: shown_secret_def)
qed

lemma reusable_dataset_witness:
  "validate_reusable_dataset ''d'' 3 (Inr (namespace_names ''d'' 2)) = None
   \<and> validate_reusable_dataset ''d'' 3
      (Inr (concurrent_namespace_name ''d'' # namespace_names ''d'' 2)) \<noteq> None"
proof -
  note reuse = reusable_dataset [of "''d''" 3 "concurrent_namespace_name ''d'' # namespace_names ''d'' 2" 2]
  have "(2::nat) \<le> 3" by simp
  with reuse show ?thesis by (meson list.set_intros(1))
qed

end
