(* ===== verification/PerfMutation.thy ===== *)
theory PerfMutation
  imports PerfClusterSpec
begin

text \<open>
  The injection of resources while the expiry refresh is in progress
  (\<open>cmd/perf-driver/mutation.go\<close>): waiting for the trigger, creating a ServiceAccount and a
  Namespace in two goroutines, waiting until the tracker saw them usable, and the verdict. The
  order in which the goroutines and the informers enter the tracker is an argument.
\<close>

section \<open>The trigger\<close>

definition injection_threshold :: "nat \<Rightarrow> int \<Rightarrow> int" where
  "injection_threshold n percent = go_quot (int n * percent + 99) 100"

datatype trigger_wake = Woken_Canceled string | Woken_Phase_Done | Woken_Tick

datatype mutation_error =
    Refresh_Completed
  | Trigger_Context string
  | Create_Late_Account string string kube_error
  | Create_Late_Namespace string kube_error
  | Late_Prerequisite cluster_error
  | Stale_Fingerprints nat
  | Not_Usable string

text \<open>Each round reads the phase as it is then; \<open>None\<close> when the rounds given do not suffice.\<close>

fun wait_for_mutation_trigger ::
  "int \<Rightarrow> (tracked_phase \<times> instant \<times> trigger_wake) list
     \<Rightarrow> (mutation_error, phase_progress \<times> string \<times> string) result option" where
  "wait_for_mutation_trigger percent [] = None"
| "wait_for_mutation_trigger percent ((phase, now, wake) # rounds) =
     (case mutation_trigger_candidate phase now of (progress, candidate) \<Rightarrow>
        if candidate \<noteq> None
           \<and> int (pg_secrets_complete progress)
               \<ge> injection_threshold (pg_secrets_total progress) percent
        then Some (if pg_secrets_complete progress \<ge> pg_secrets_total progress
                   then Inl Refresh_Completed
                   else Inr (progress, fst (the candidate), snd (the candidate)))
        else (case wake of
            Woken_Canceled err \<Rightarrow> Some (Inl (Trigger_Context err))
          | Woken_Phase_Done \<Rightarrow> Some (Inl Refresh_Completed)
          | Woken_Tick \<Rightarrow> wait_for_mutation_trigger percent rounds))"

section \<open>Creating the resources\<close>

text \<open>
  What a goroutine tells the tracker and what it returns, given the instants of its marks and the
  answers to its requests.
\<close>

definition create_late_service_account ::
  "nat \<Rightarrow> tracked_mutation \<Rightarrow> instant \<Rightarrow> instant \<Rightarrow> kube_error option
     \<Rightarrow> tracker_event list \<times> mutation_error option" where
  "create_late_service_account i m started created answer =
     (case answer of
        Some err \<Rightarrow>
          ([Mark_Account_Request i started],
           Some (Create_Late_Account (tm_existing_namespace m) (tm_late_account_name m) err))
      | None \<Rightarrow> ([Mark_Account_Request i started, Mark_Account_Created i created], None))"

definition late_prerequisites ::
  "nat \<Rightarrow> namespace_answers \<Rightarrow> string \<Rightarrow> string \<Rightarrow> cluster_action list \<times> cluster_error option" where
  "late_prerequisites retries ans run_id namespace =
     (let labels = [(performance_run_label, run_id)]
      in sequence_steps
          (ensure_binding_of retries ans namespace labels
           # map (ensure_account_of retries ans namespace labels False) target_service_accounts))"

definition create_late_namespace ::
  "nat \<Rightarrow> namespace_answers \<Rightarrow> string \<Rightarrow> nat \<Rightarrow> tracked_mutation \<Rightarrow> instant \<Rightarrow> instant \<Rightarrow> instant
     \<Rightarrow> tracker_event list \<times> cluster_action list \<times> mutation_error option" where
  "create_late_namespace retries ans run_id i m started created ready =
     (let create = Create_Namespace (tm_late_namespace m) [(performance_run_label, run_id)]
      in case na_create ans of
           Some err \<Rightarrow>
             ([Mark_Namespace_Request i started], [create],
              Some (Create_Late_Namespace (tm_late_namespace m) err))
         | None \<Rightarrow>
             (case late_prerequisites retries ans run_id (tm_late_namespace m) of
                (acts, Some err) \<Rightarrow>
                  ([Mark_Namespace_Request i started, Mark_Namespace_Created i created],
                   create # acts, Some (Late_Prerequisite err))
              | (acts, None) \<Rightarrow>
                  ([Mark_Namespace_Request i started, Mark_Namespace_Created i created,
                    Mark_Prerequisites i ready],
                   create # acts, None)))"

section \<open>The summary\<close>

record mutation_resource_summary =
  mr_namespace :: string
  mr_name :: string
  mr_create_request_started :: instant
  mr_created_at :: instant
  mr_ready_at :: instant
  mr_ready_latency :: rat

record mutation_namespace_summary =
  mn_name :: string
  mn_create_request_started :: instant
  mn_created_at :: instant
  mn_prerequisites_ready_at :: instant
  mn_secret_ready_at :: instant
  mn_accounts_ready_at :: instant
  mn_ready_at :: instant
  mn_secret_latency :: rat
  mn_accounts_latency :: rat
  mn_ready_latency :: rat
  mn_prerequisites_to_ready :: rat
  mn_observed_fingerprint :: string
  mn_stale_fingerprints :: nat
  mn_expected_accounts :: nat
  mn_patched_accounts :: nat

record concurrent_mutation_summary =
  ms_namespace_only :: bool
  ms_trigger_percent :: int
  ms_triggered_at :: instant
  ms_secrets_complete_at_trigger :: nat
  ms_secrets_total_at_trigger :: nat
  ms_existing_namespace :: string
  ms_expected_fingerprint :: string
  ms_late_account :: mutation_resource_summary
  ms_late_namespace :: mutation_namespace_summary
  ms_success :: bool
  ms_error :: "mutation_error list"

definition accounts_ready_at :: "tracked_mutation \<Rightarrow> instant" where
  "accounts_ready_at m = fold (\<lambda>(_, ready) latest. later_time latest ready) (tm_account_ready m) zero_time"

definition mutation_summary :: "tracked_mutation \<Rightarrow> concurrent_mutation_summary" where
  "mutation_summary m =
     (let accounts_ready = accounts_ready_at m;
          ready = later_time (tm_secret_ready_at m) accounts_ready
      in \<lparr>ms_namespace_only = (tm_late_account_name m = []),
          ms_trigger_percent = tm_trigger_percent m, ms_triggered_at = tm_triggered_at m,
          ms_secrets_complete_at_trigger = tm_secrets_complete_at_trigger m,
          ms_secrets_total_at_trigger = tm_secrets_total_at_trigger m,
          ms_existing_namespace = tm_existing_namespace m,
          ms_expected_fingerprint = tm_expected_fingerprint m,
          ms_late_account =
            \<lparr>mr_namespace = tm_existing_namespace m, mr_name = tm_late_account_name m,
             mr_create_request_started = tm_account_request_started m,
             mr_created_at = tm_account_created_at m, mr_ready_at = tm_account_ready_at m,
             mr_ready_latency = mutation_latency (tm_account_created_at m) (tm_account_ready_at m)\<rparr>,
          ms_late_namespace =
            \<lparr>mn_name = tm_late_namespace m,
             mn_create_request_started = tm_namespace_request_started m,
             mn_created_at = tm_namespace_created_at m,
             mn_prerequisites_ready_at = tm_prerequisites_at m,
             mn_secret_ready_at = tm_secret_ready_at m, mn_accounts_ready_at = accounts_ready,
             mn_ready_at = ready,
             mn_secret_latency = mutation_latency (tm_namespace_created_at m) (tm_secret_ready_at m),
             mn_accounts_latency = mutation_latency (tm_namespace_created_at m) accounts_ready,
             mn_ready_latency = mutation_latency (tm_namespace_created_at m) ready,
             mn_prerequisites_to_ready = mutation_latency (tm_prerequisites_at m) ready,
             mn_observed_fingerprint = tm_secret_fingerprint m,
             mn_stale_fingerprints = length (tm_stale_fingerprints m),
             mn_expected_accounts = length (tm_late_namespace_accounts m),
             mn_patched_accounts = length (tm_account_ready m)\<rparr>,
          ms_success = False, ms_error = []\<rparr>)"

text \<open>The summary of an injection that was never triggered.\<close>

definition untriggered_summary :: "int \<Rightarrow> mutation_error \<Rightarrow> concurrent_mutation_summary" where
  "untriggered_summary percent err =
     \<lparr>ms_namespace_only = False, ms_trigger_percent = percent, ms_triggered_at = zero_time,
      ms_secrets_complete_at_trigger = 0, ms_secrets_total_at_trigger = 0,
      ms_existing_namespace = [], ms_expected_fingerprint = [],
      ms_late_account =
        \<lparr>mr_namespace = [], mr_name = [], mr_create_request_started = zero_time,
         mr_created_at = zero_time, mr_ready_at = zero_time, mr_ready_latency = 0\<rparr>,
      ms_late_namespace =
        \<lparr>mn_name = [], mn_create_request_started = zero_time, mn_created_at = zero_time,
         mn_prerequisites_ready_at = zero_time, mn_secret_ready_at = zero_time,
         mn_accounts_ready_at = zero_time, mn_ready_at = zero_time, mn_secret_latency = 0,
         mn_accounts_latency = 0, mn_ready_latency = 0, mn_prerequisites_to_ready = 0,
         mn_observed_fingerprint = [], mn_stale_fingerprints = 0, mn_expected_accounts = 0,
         mn_patched_accounts = 0\<rparr>,
      ms_success = False, ms_error = [err]\<rparr>"

section \<open>The whole injection\<close>

text \<open>
  What one injection meets: the rounds of the trigger, the instants and answers of the two
  creations, what the informers and the driver did meanwhile, the order in which all of it
  entered the tracker, and the error of the context when the final \<open>select\<close> takes that branch.
\<close>

record injection =
  ij_rounds :: "(tracked_phase \<times> instant \<times> trigger_wake) list"
  ij_triggered_at :: instant
  ij_account_started :: instant
  ij_account_created :: instant
  ij_account_answer :: "kube_error option"
  ij_namespace_started :: instant
  ij_namespace_created :: instant
  ij_namespace_ready :: instant
  ij_namespace_answers :: namespace_answers
  ij_observed :: "tracker_event list"
  ij_events :: "tracker_event list"
  ij_context :: "string option"

definition injected_account ::
  "bool \<Rightarrow> injection \<Rightarrow> nat \<Rightarrow> tracked_mutation \<Rightarrow> tracker_event list \<times> mutation_error option" where
  "injected_account namespace_only ij i m =
     (if namespace_only then ([], None)
      else create_late_service_account i m (ij_account_started ij) (ij_account_created ij)
        (ij_account_answer ij))"

definition injected_namespace ::
  "nat \<Rightarrow> string \<Rightarrow> injection \<Rightarrow> nat \<Rightarrow> tracked_mutation
     \<Rightarrow> tracker_event list \<times> cluster_action list \<times> mutation_error option" where
  "injected_namespace retries run_id ij i m =
     create_late_namespace retries (ij_namespace_answers ij) run_id i m (ij_namespace_started ij)
       (ij_namespace_created ij) (ij_namespace_ready ij)"

definition begin_injection ::
  "int \<Rightarrow> bool \<Rightarrow> string \<Rightarrow> injection \<Rightarrow> phase_progress \<Rightarrow> string \<Rightarrow> string \<Rightarrow> tracker
     \<Rightarrow> nat \<times> tracker" where
  "begin_injection percent namespace_only run_id ij progress namespace fingerprint t =
     start_concurrent_mutation percent (ij_triggered_at ij) progress
       (if namespace_only then [] else namespace)
       (if namespace_only then [] else service_account_late)
       (concurrent_namespace_name run_id) target_service_accounts fingerprint t"

definition run_concurrent_mutation ::
  "codec \<Rightarrow> nat \<Rightarrow> int \<Rightarrow> bool \<Rightarrow> string \<Rightarrow> injection \<Rightarrow> tracker
     \<Rightarrow> (concurrent_mutation_summary \<times> mutation_error list) option" where
  "run_concurrent_mutation cd retries percent namespace_only run_id ij t =
     (case wait_for_mutation_trigger percent (ij_rounds ij) of
        None \<Rightarrow> None
      | Some (Inl err) \<Rightarrow> Some (untriggered_summary percent err, [err])
      | Some (Inr (progress, namespace, fingerprint)) \<Rightarrow>
          (case begin_injection percent namespace_only run_id ij progress namespace fingerprint t of
             (i, t1) \<Rightarrow>
               let m0 = tk_mutations t1 ! i;
                   errs = List.map_filter id
                     [snd (injected_account namespace_only ij i m0),
                      snd (snd (injected_namespace retries run_id ij i m0))];
                   m = tk_mutations (tracker_run cd (ij_events ij) t1) ! i;
                   summary = mutation_summary m
               in if errs \<noteq> [] then Some (summary\<lparr>ms_error := errs\<rparr>, errs)
                  else (case ij_context ij of
                      Some err \<Rightarrow> Some (summary\<lparr>ms_error := [Not_Usable err]\<rparr>, [Not_Usable err])
                    | None \<Rightarrow>
                        if \<not> tm_done m then None
                        else
                          let stale = mn_stale_fingerprints (ms_late_namespace summary)
                          in if stale \<noteq> 0
                             then Some (summary\<lparr>ms_error := [Stale_Fingerprints stale]\<rparr>,
                                        [Stale_Fingerprints stale])
                             else Some (summary\<lparr>ms_success := True\<rparr>, []))))"

text \<open>
  The order of the tracker's operations is a merge of what the two goroutines do and of the rest,
  which starts no other injection and marks nothing.
\<close>

definition is_observation :: "tracker_event \<Rightarrow> bool" where
  "is_observation e \<longleftrightarrow>
     (case e of See_Secret _ _ \<Rightarrow> True | See_Account _ _ \<Rightarrow> True | _ \<Rightarrow> False)"

definition injection_schedule ::
  "nat \<Rightarrow> bool \<Rightarrow> string \<Rightarrow> injection \<Rightarrow> nat \<Rightarrow> tracked_mutation \<Rightarrow> bool" where
  "injection_schedule retries namespace_only run_id ij i m \<longleftrightarrow>
     list_all is_observation (ij_observed ij)
     \<and> (\<exists>rest \<in> shuffles (fst (injected_namespace retries run_id ij i m)) (ij_observed ij).
          ij_events ij \<in> shuffles (fst (injected_account namespace_only ij i m)) rest)"

section \<open>One event and one injection\<close>

definition mutation_after ::
  "codec \<Rightarrow> nat \<Rightarrow> tracker_event \<Rightarrow> tracked_mutation \<Rightarrow> tracked_mutation" where
  "mutation_after cd i e m =
     (case e of
        See_Secret (Some s) now \<Rightarrow>
          if se_name s = default_managed_secret_name \<and> is_usable_for_service_account s
          then see_mutation_secret (se_namespace s) (secret_fingerprint cd s) now m else m
      | See_Account (Some a) now \<Rightarrow> see_mutation_account a now m
      | Mark_Account_Request j now \<Rightarrow> if j = i then m\<lparr>tm_account_request_started := now\<rparr> else m
      | Mark_Account_Created j now \<Rightarrow>
          if j = i then maybe_complete_mutation (m\<lparr>tm_account_created_at := now\<rparr>) else m
      | Mark_Namespace_Request j now \<Rightarrow> if j = i then m\<lparr>tm_namespace_request_started := now\<rparr> else m
      | Mark_Namespace_Created j now \<Rightarrow>
          if j = i then maybe_complete_mutation (m\<lparr>tm_namespace_created_at := now\<rparr>) else m
      | Mark_Prerequisites j now \<Rightarrow>
          if j = i then maybe_complete_mutation (m\<lparr>tm_prerequisites_at := now\<rparr>) else m
      | _ \<Rightarrow> m)"

definition starts_mutation :: "tracker_event \<Rightarrow> bool" where
  "starts_mutation e \<longleftrightarrow> (case e of Start_Mutation _ _ _ _ _ _ _ _ \<Rightarrow> True | _ \<Rightarrow> False)"

lemma step_mutations:
  assumes "\<not> starts_mutation e" "tk_mutation t = Some i" "i < length (tk_mutations t)"
  shows "tk_mutations (tracker_step cd e t) = (tk_mutations t)[i := mutation_after cd i e (tk_mutations t ! i)]"
    "tk_mutation (tracker_step cd e t) = Some i"
proof -
  have "tk_mutations (tracker_step cd e t) = (tk_mutations t)[i := mutation_after cd i e (tk_mutations t ! i)]
    \<and> tk_mutation (tracker_step cd e t) = Some i"
  proof (cases e)
    case (See_Secret s now)
    with assms show ?thesis
      by (cases s) (auto simp: tracker_step_def mutation_after_def observe_secret_def
        observe_mutation_secret_def update_mutation_def Let_def split: option.split phase_kind.split)
  next
    case (See_Account a now)
    with assms show ?thesis
      by (cases a) (auto simp: tracker_step_def mutation_after_def observe_account_def
        observe_mutation_account_def update_mutation_def Let_def split: option.split phase_kind.split)
  qed (use assms in \<open>simp_all add: tracker_step_def mutation_after_def mark_defs start_phase_def
    with_current_mutation_def update_mutation_def starts_mutation_def\<close>)
  then show "tk_mutations (tracker_step cd e t) = (tk_mutations t)[i := mutation_after cd i e (tk_mutations t ! i)]"
    "tk_mutation (tracker_step cd e t) = Some i" by simp_all
qed

lemma run_mutation:
  assumes "list_all (\<lambda>e. \<not> starts_mutation e) es" "tk_mutation t = Some i" "i < length (tk_mutations t)"
  shows "tk_mutations (tracker_run cd es t) ! i = fold (mutation_after cd i) es (tk_mutations t ! i)"
  using assms
proof (induction es arbitrary: t)
  case (Cons e es)
  then have e: "\<not> starts_mutation e" "list_all (\<lambda>e. \<not> starts_mutation e) es" by simp_all
  from Cons.IH [OF e(2), of "tracker_step cd e t"] Cons.prems(3) step_mutations [OF e(1) Cons.prems(2,3)]
  show ?case by simp
qed simp

section \<open>Evidence\<close>

text \<open>The fingerprint of the usable managed Secret of a Namespace that an event shows, and whether
  it shows a ServiceAccount with the managed reference.\<close>

definition shown_fingerprint :: "codec \<Rightarrow> string \<Rightarrow> tracker_event \<Rightarrow> string option" where
  "shown_fingerprint cd ns e =
     (case e of
        See_Secret (Some s) _ \<Rightarrow>
          if se_name s = default_managed_secret_name \<and> is_usable_for_service_account s
             \<and> se_namespace s = ns
          then Some (secret_fingerprint cd s) else None
      | _ \<Rightarrow> None)"

definition shows_account :: "string \<Rightarrow> string \<Rightarrow> tracker_event \<Rightarrow> bool" where
  "shows_account ns name e \<longleftrightarrow>
     (case e of
        See_Account (Some a) _ \<Rightarrow>
          references_managed_secret a \<and> sa_namespace a = ns \<and> sa_name a = name
      | _ \<Rightarrow> False)"

definition was_shown :: "codec \<Rightarrow> tracker_event list \<Rightarrow> string \<Rightarrow> string \<Rightarrow> bool" where
  "was_shown cd es ns fingerprint \<longleftrightarrow> list_ex (\<lambda>e. shown_fingerprint cd ns e = Some fingerprint) es"

definition was_patched :: "tracker_event list \<Rightarrow> string \<Rightarrow> string \<Rightarrow> bool" where
  "was_patched es ns name \<longleftrightarrow> list_ex (shows_account ns name) es"

lemma was_append [simp]:
  "was_shown cd (es @ [e]) ns fp \<longleftrightarrow> was_shown cd es ns fp \<or> shown_fingerprint cd ns e = Some fp"
  "was_patched (es @ [e]) ns name \<longleftrightarrow> was_patched es ns name \<or> shows_account ns name e"
  by (simp_all add: was_shown_def was_patched_def)

text \<open>What the tracker has recorded of an injection comes from the events.\<close>

definition usable_seen :: "codec \<Rightarrow> tracker_event list \<Rightarrow> tracked_mutation \<Rightarrow> bool" where
  "usable_seen cd es m \<longleftrightarrow>
     was_shown cd es (tm_late_namespace m) (tm_expected_fingerprint m)
     \<and> (\<forall>name. gm_get (tm_late_namespace_accounts m) name \<noteq> None
          \<longrightarrow> was_patched es (tm_late_namespace m) name)
     \<and> (tm_late_account_name m \<noteq> []
          \<longrightarrow> was_patched es (tm_existing_namespace m) (tm_late_account_name m))"

definition recorded_seen :: "codec \<Rightarrow> tracker_event list \<Rightarrow> tracked_mutation \<Rightarrow> bool" where
  "recorded_seen cd es m \<longleftrightarrow>
     gm_wf (tm_late_namespace_accounts m) \<and> gm_wf (tm_account_ready m)
     \<and> all_in (tm_account_ready m) (tm_late_namespace_accounts m)
     \<and> (\<not> time_is_zero (tm_secret_ready_at m)
          \<longrightarrow> was_shown cd es (tm_late_namespace m) (tm_expected_fingerprint m))
     \<and> (\<forall>name. gm_get (tm_account_ready m) name \<noteq> None
          \<longrightarrow> was_patched es (tm_late_namespace m) name)
     \<and> (\<not> time_is_zero (tm_account_ready_at m)
          \<longrightarrow> was_patched es (tm_existing_namespace m) (tm_late_account_name m))"

definition evidence :: "codec \<Rightarrow> tracker_event list \<Rightarrow> tracked_mutation \<Rightarrow> bool" where
  "evidence cd es m \<longleftrightarrow>
     recorded_seen cd es m
     \<and> (\<forall>fp. gm_get (tm_stale_fingerprints m) fp \<noteq> None
          \<longleftrightarrow> fp \<noteq> tm_expected_fingerprint m \<and> was_shown cd es (tm_late_namespace m) fp)
     \<and> (tm_done m \<longrightarrow> usable_seen cd es m)"

lemma usable_seen_mono: "usable_seen cd es m \<Longrightarrow> usable_seen cd (es @ [e]) m"
  by (auto simp: usable_seen_def)

lemma complete_usable:
  assumes "recorded_seen cd es m" "mutation_complete m"
  shows "usable_seen cd es m"
proof -
  have "all_in (tm_late_namespace_accounts m) (tm_account_ready m)"
    using assms length_eq_iff_all_in [of "tm_account_ready m" "tm_late_namespace_accounts m"]
    by (simp add: recorded_seen_def mutation_complete_def)
  with assms show ?thesis
    by (auto simp: recorded_seen_def mutation_complete_def usable_seen_def all_in_iff)
qed

lemma evidence_maybe_complete: "evidence cd es m \<Longrightarrow> evidence cd es (maybe_complete_mutation m)"
  using complete_usable [of cd es m]
  by (auto simp: maybe_complete_mutation_def evidence_def recorded_seen_def usable_seen_def)

lemma evidence_keep:
  assumes "evidence cd es m"
    and "shown_fingerprint cd (tm_late_namespace m) e \<in> {None, Some (tm_expected_fingerprint m)}"
  shows "evidence cd (es @ [e]) m"
  using assms by (auto simp: evidence_def recorded_seen_def usable_seen_def)

lemma evidence_marks:
  assumes "evidence cd es m"
  shows "evidence cd es (m\<lparr>tm_account_request_started := now\<rparr>)"
    "evidence cd es (m\<lparr>tm_account_created_at := now\<rparr>)"
    "evidence cd es (m\<lparr>tm_namespace_request_started := now\<rparr>)"
    "evidence cd es (m\<lparr>tm_namespace_created_at := now\<rparr>)"
    "evidence cd es (m\<lparr>tm_prerequisites_at := now\<rparr>)"
  using assms by (simp_all add: evidence_def recorded_seen_def usable_seen_def)

lemma evidence_secret:
  assumes ev: "evidence cd es m" and e: "e = See_Secret (Some s) now"
    and s: "se_name s = default_managed_secret_name" "is_usable_for_service_account s"
  shows "evidence cd (es @ [e]) (see_mutation_secret (se_namespace s) (secret_fingerprint cd s) now m)"
proof -
  have shown: "shown_fingerprint cd ns e
      = (if se_namespace s = ns then Some (secret_fingerprint cd s) else None)" for ns
    using e s by (simp add: shown_fingerprint_def)
  have patched: "\<not> shows_account ns name e" for ns name by (simp add: shows_account_def e)
  consider "se_namespace s \<noteq> tm_late_namespace m"
    | "se_namespace s = tm_late_namespace m" "secret_fingerprint cd s \<noteq> tm_expected_fingerprint m"
    | "se_namespace s = tm_late_namespace m" "secret_fingerprint cd s = tm_expected_fingerprint m"
    by blast
  then show ?thesis
  proof cases
    case 1
    with ev show ?thesis by (simp add: see_mutation_secret_def shown evidence_keep)
  next
    case 2
    with ev show ?thesis
      by (auto simp: see_mutation_secret_def evidence_def recorded_seen_def usable_seen_def shown
        patched map_laws)
  next
    case 3
    with ev have "evidence cd (es @ [e]) m" by (intro evidence_keep) (simp_all add: shown)
    with 3 have "evidence cd (es @ [e])
        (if time_is_zero (tm_secret_ready_at m)
         then m\<lparr>tm_secret_ready_at := now, tm_secret_fingerprint := secret_fingerprint cd s\<rparr> else m)"
      by (auto simp: evidence_def recorded_seen_def usable_seen_def shown)
    from evidence_maybe_complete [OF this] 3 show ?thesis
      by (simp add: see_mutation_secret_def split: if_splits)
  qed
qed

lemma evidence_account:
  assumes ev: "evidence cd es m" and e: "e = See_Account (Some a) now"
  shows "evidence cd (es @ [e]) (see_mutation_account a now m)"
proof -
  have ev': "evidence cd (es @ [e]) m"
    using ev by (rule evidence_keep) (simp add: shown_fingerprint_def e)
  show ?thesis
  proof (cases "references_managed_secret a")
    case True
    then have patched: "shows_account (sa_namespace a) (sa_name a) e"
      by (simp add: shows_account_def e)
    define m1 where "m1 = (if sa_namespace a = tm_existing_namespace m
        \<and> sa_name a = tm_late_account_name m \<and> time_is_zero (tm_account_ready_at m)
      then m\<lparr>tm_account_ready_at := now\<rparr> else m)"
    have m1: "evidence cd (es @ [e]) m1"
      using ev' patched by (auto simp: m1_def evidence_def recorded_seen_def usable_seen_def)
    define m2 where "m2 = (if sa_namespace a = tm_late_namespace m1
        \<and> gm_get (tm_late_namespace_accounts m1) (sa_name a) \<noteq> None
        \<and> gm_get (tm_account_ready m1) (sa_name a) = None
      then m1\<lparr>tm_account_ready := gm_put (sa_name a) now (tm_account_ready m1)\<rparr> else m1)"
    have "evidence cd (es @ [e]) m2"
      using m1 patched unfolding m2_def
      by (auto simp: evidence_def recorded_seen_def usable_seen_def map_laws all_in_put)
    moreover have "see_mutation_account a now m = maybe_complete_mutation m2"
      using True by (simp add: see_mutation_account_def m1_def m2_def Let_def)
    ultimately show ?thesis by (simp add: evidence_maybe_complete)
  qed (use ev' in \<open>simp add: see_mutation_account_def\<close>)
qed

lemma evidence_step: "evidence cd es m \<Longrightarrow> evidence cd (es @ [e]) (mutation_after cd i e m)"
proof -
  assume ev: "evidence cd es m"
  have keep: "evidence cd (es @ [e]) m" if "shown_fingerprint cd (tm_late_namespace m) e = None"
    using ev that by (simp add: evidence_keep)
  show ?thesis
  proof (cases e)
    case (See_Secret secret now)
    with ev keep show ?thesis
      by (cases secret) (auto simp: mutation_after_def evidence_secret shown_fingerprint_def)
  next
    case (See_Account account now)
    with ev keep show ?thesis
      by (cases account) (auto simp: mutation_after_def evidence_account shown_fingerprint_def)
  qed (use keep in \<open>auto simp: mutation_after_def shown_fingerprint_def evidence_marks
    evidence_maybe_complete\<close>)
qed

lemma evidence_run: "evidence cd es m \<Longrightarrow> evidence cd (es @ es') (fold (mutation_after cd i) es' m)"
  by (induction es' arbitrary: es m) (simp, metis append_Cons append_Nil append_assoc evidence_step
    fold_simps(2))

section \<open>When an injection can start\<close>

lemma least_namespace_mem:
  assumes "least_namespace names \<noteq> []" shows "least_namespace names \<in> set names"
proof -
  have "fold (\<lambda>candidate ns. if ns = [] \<or> candidate < ns then candidate else ns) xs acc
      \<in> insert acc (set xs)" for xs acc
  proof (induction xs arbitrary: acc)
    case (Cons x xs)
    from Cons.IH [of "if acc = [] \<or> x < acc then x else acc"] show ?case by (auto split: if_splits)
  qed simp
  from this [of names "[]"] assms show ?thesis unfolding least_namespace_def by blast
qed

lemma threshold_reached:
  assumes "0 \<le> percent" "injection_threshold n percent \<le> int c"
  shows "int n * percent \<le> 100 * int c"
proof -
  have nonneg: "0 \<le> int n * percent + 99" using assms(1) by simp
  then have "injection_threshold n percent = (int n * percent + 99) div 100"
    unfolding injection_threshold_def go_quot_def by (auto simp: sgn_if)
  with assms(2) have "(int n * percent + 99) div 100 \<le> int c" by simp
  then show ?thesis by linarith
qed

lemma candidate_of:
  assumes "mutation_trigger_candidate p now = (progress, Some (ns, fp))"
  shows "gm_get (tp_secret_durations p) ns \<noteq> None" "gm_get (tp_secret_fingerprints p) ns = Some fp"
proof -
  from assms have ns: "ns = least_namespace (gm_keys (tp_secret_durations p))" "ns \<noteq> []"
    and fp: "gm_get (tp_secret_fingerprints p) ns = Some fp"
    by (auto simp: mutation_trigger_candidate_def Let_def split: if_splits)
  with least_namespace_mem show "gm_get (tp_secret_durations p) ns \<noteq> None"
    unfolding gm_keys_get [symmetric] by blast
  from fp show "gm_get (tp_secret_fingerprints p) ns = Some fp" .
qed

lemma candidate_counts:
  "pg_secrets_complete (fst (mutation_trigger_candidate p now)) = length (tp_secret_durations p)"
  "pg_secrets_total (fst (mutation_trigger_candidate p now)) = tp_secret_total p"
  by (simp_all add: mutation_trigger_candidate_def Let_def)

lemma trigger_round:
  "wait_for_mutation_trigger percent rounds = Some (Inr (progress, ns, fp)) \<Longrightarrow>
   \<exists>(p, now, wake) \<in> set rounds. mutation_trigger_candidate p now = (progress, Some (ns, fp))
     \<and> injection_threshold (pg_secrets_total progress) percent \<le> int (pg_secrets_complete progress)
     \<and> pg_secrets_complete progress < pg_secrets_total progress"
proof (induction percent rounds rule: wait_for_mutation_trigger.induct [case_names Nil Cons])
  case (Cons percent p now wake rounds)
  obtain g cand where c: "mutation_trigger_candidate p now = (g, cand)" by force
  show ?case
  proof (cases "cand \<noteq> None \<and> int (pg_secrets_complete g) \<ge> injection_threshold (pg_secrets_total g) percent")
    case True
    with Cons.prems c have "g = progress" "cand = Some (ns, fp)"
      "pg_secrets_complete g < pg_secrets_total g"
      by (auto split: if_splits)
    with True c show ?thesis by simp
  next
    case False
    with Cons.prems c have "wake = Woken_Tick"
      "wait_for_mutation_trigger percent rounds = Some (Inr (progress, ns, fp))"
      by (auto split: trigger_wake.splits)
    with Cons.IH [OF c [symmetric]] False show ?thesis by auto
  qed
qed simp

text \<open>
  C36: An injection starts only at a moment at which at least the requested percentage of the
  Secrets, and not yet all of them, are refreshed; it takes an existing Namespace that is already
  refreshed, with the fingerprint recorded for it. Consequently it can never start when the total
  times the remaining percentage is below 100: with one Namespace, or with fewer than 100 at 99
  percent, an injection that the command line accepts always ends in an error.
\<close>

theorem injection_trigger:
  assumes percent: "0 \<le> percent"
    and triggered: "wait_for_mutation_trigger percent rounds = Some (Inr (progress, ns, fp))"
  shows "\<exists>(p, now, wake) \<in> set rounds.
      gm_get (tp_secret_durations p) ns \<noteq> None \<and> gm_get (tp_secret_fingerprints p) ns = Some fp
      \<and> int (tp_secret_total p) * percent \<le> 100 * int (length (tp_secret_durations p))
      \<and> length (tp_secret_durations p) < tp_secret_total p
      \<and> 100 \<le> int (tp_secret_total p) * (100 - percent)"
proof -
  obtain p now wake where p: "(p, now, wake) \<in> set rounds"
      "mutation_trigger_candidate p now = (progress, Some (ns, fp))"
    and le: "injection_threshold (pg_secrets_total progress) percent \<le> int (pg_secrets_complete progress)"
    and less: "pg_secrets_complete progress < pg_secrets_total progress"
    using trigger_round [OF triggered] by blast
  have counts: "pg_secrets_complete progress = length (tp_secret_durations p)"
    "pg_secrets_total progress = tp_secret_total p"
    using candidate_counts [of p now] by (simp_all add: p)
  have reached: "int (tp_secret_total p) * percent \<le> 100 * int (length (tp_secret_durations p))"
    using threshold_reached [OF percent le] by (simp add: counts)
  moreover have "100 \<le> int (tp_secret_total p) * (100 - percent)"
    using reached less by (simp add: counts algebra_simps)
  ultimately show ?thesis using p(1) candidate_of [OF p(2)] less counts by fastforce
qed

section \<open>What a successful injection shows\<close>

lemma goroutine_events:
  "set (fst (injected_account namespace_only ij i m)) \<subseteq> {Mark_Account_Request i (ij_account_started ij),
     Mark_Account_Created i (ij_account_created ij)}"
  "set (fst (injected_namespace retries run_id ij i m)) \<subseteq> {Mark_Namespace_Request i (ij_namespace_started ij),
     Mark_Namespace_Created i (ij_namespace_created ij), Mark_Prerequisites i (ij_namespace_ready ij)}"
  by (auto simp: injected_account_def create_late_service_account_def injected_namespace_def
    create_late_namespace_def Let_def split: option.splits prod.splits)

lemma schedule_events:
  assumes "injection_schedule retries namespace_only run_id ij i m"
  shows "list_all (\<lambda>e. \<not> starts_mutation e) (ij_events ij)"
    "was_shown cd (ij_events ij) ns fp \<longleftrightarrow> was_shown cd (ij_observed ij) ns fp"
    "was_patched (ij_events ij) ns name \<longleftrightarrow> was_patched (ij_observed ij) ns name"
proof -
  obtain rest where rest: "rest \<in> shuffles (fst (injected_namespace retries run_id ij i m)) (ij_observed ij)"
    and events: "ij_events ij \<in> shuffles (fst (injected_account namespace_only ij i m)) rest"
    and observed: "list_all is_observation (ij_observed ij)"
    using assms by (auto simp: injection_schedule_def)
  have set: "set (ij_events ij) = set (fst (injected_account namespace_only ij i m))
      \<union> set (fst (injected_namespace retries run_id ij i m)) \<union> set (ij_observed ij)"
    using set_shuffles [OF events] set_shuffles [OF rest] by blast
  show "list_all (\<lambda>e. \<not> starts_mutation e) (ij_events ij)"
    using goroutine_events(1) [of namespace_only ij i m] goroutine_events(2) [of retries run_id ij i m] observed
    unfolding list_all_iff set
    by (auto simp: starts_mutation_def is_observation_def split: tracker_event.splits)
  show "was_shown cd (ij_events ij) ns fp \<longleftrightarrow> was_shown cd (ij_observed ij) ns fp"
    using goroutine_events(1) [of namespace_only ij i m] goroutine_events(2) [of retries run_id ij i m]
    unfolding was_shown_def list_ex_iff set by (fastforce simp: shown_fingerprint_def)
  show "was_patched (ij_events ij) ns name \<longleftrightarrow> was_patched (ij_observed ij) ns name"
    using goroutine_events(1) [of namespace_only ij i m] goroutine_events(2) [of retries run_id ij i m]
    unfolding was_patched_def list_ex_iff set by (fastforce simp: shows_account_def)
qed

lemma mutation_after_frame:
  "tm_late_namespace (mutation_after cd i e m) = tm_late_namespace m
   \<and> tm_expected_fingerprint (mutation_after cd i e m) = tm_expected_fingerprint m
   \<and> tm_late_namespace_accounts (mutation_after cd i e m) = tm_late_namespace_accounts m
   \<and> tm_late_account_name (mutation_after cd i e m) = tm_late_account_name m
   \<and> tm_existing_namespace (mutation_after cd i e m) = tm_existing_namespace m"
  by (simp add: mutation_after_def see_mutation_secret_def see_mutation_account_def
    maybe_complete_mutation_def Let_def split: tracker_event.split option.split)

lemma mutation_fold_frame:
  "tm_late_namespace (fold (mutation_after cd i) es m) = tm_late_namespace m
   \<and> tm_expected_fingerprint (fold (mutation_after cd i) es m) = tm_expected_fingerprint m
   \<and> tm_late_namespace_accounts (fold (mutation_after cd i) es m) = tm_late_namespace_accounts m
   \<and> tm_late_account_name (fold (mutation_after cd i) es m) = tm_late_account_name m
   \<and> tm_existing_namespace (fold (mutation_after cd i) es m) = tm_existing_namespace m"
  by (induction es arbitrary: m) (simp_all add: mutation_after_frame)

lemma begun_mutation:
  assumes "begin_injection percent namespace_only run_id ij progress ns fp t = (i, t1)"
  shows "tk_mutation t1 = Some i" "i < length (tk_mutations t1)"
    "evidence cd [] (tk_mutations t1 ! i)"
    "tm_late_namespace (tk_mutations t1 ! i) = concurrent_namespace_name run_id"
    "tm_expected_fingerprint (tk_mutations t1 ! i) = fp"
    "gm_get (tm_late_namespace_accounts (tk_mutations t1 ! i)) name \<noteq> None
       \<longleftrightarrow> name \<in> set target_service_accounts"
    "tm_late_account_name (tk_mutations t1 ! i) = (if namespace_only then [] else service_account_late)"
    "tm_existing_namespace (tk_mutations t1 ! i) = (if namespace_only then [] else ns)"
  using assms
  by (auto simp: begin_injection_def start_concurrent_mutation_def evidence_def recorded_seen_def
    gm.wf_fold_put gm.get_fold_put all_in_def gm_keys_def time_is_zero_def was_shown_def
    split: if_splits)

text \<open>
  C35: An injection that is reported as a success was one: both creations succeeded, the informers
  showed a usable managed Secret of the new Namespace with the fingerprint of the current
  generation and never one with another, they showed each of its ServiceAccounts and, unless only
  a Namespace is injected, the late ServiceAccount of the existing Namespace with the managed
  reference; whatever the interleaving of the goroutines and the informers was.
\<close>

theorem injection_success_sound:
  assumes triggered: "wait_for_mutation_trigger percent (ij_rounds ij) = Some (Inr (progress, ns, fp))"
    and begun: "begin_injection percent namespace_only run_id ij progress ns fp t = (i, t1)"
    and schedule: "injection_schedule retries namespace_only run_id ij i (tk_mutations t1 ! i)"
    and run: "run_concurrent_mutation cd retries percent namespace_only run_id ij t = Some (summary, errs)"
    and success: "ms_success summary"
  shows "errs = [] \<and> na_create (ij_namespace_answers ij) = None
    \<and> was_shown cd (ij_observed ij) (concurrent_namespace_name run_id) fp
    \<and> (\<forall>other. was_shown cd (ij_observed ij) (concurrent_namespace_name run_id) other \<longrightarrow> other = fp)
    \<and> (\<forall>name \<in> set target_service_accounts.
         was_patched (ij_observed ij) (concurrent_namespace_name run_id) name)
    \<and> (\<not> namespace_only \<longrightarrow>
         ij_account_answer ij = None \<and> was_patched (ij_observed ij) ns service_account_late)"
proof -
  define m0 where "m0 = tk_mutations t1 ! i"
  define m where "m = fold (mutation_after cd i) (ij_events ij) m0"
  note b = begun_mutation [OF begun, folded m0_def]
  note sched = schedule_events [OF schedule [folded m0_def]]
  have m: "tk_mutations (tracker_run cd (ij_events ij) t1) ! i = m"
    using run_mutation [OF sched(1) b(1,2)] by (simp add: m_def m0_def)
  have ev: "evidence cd (ij_events ij) m" using evidence_run [OF b(3)] unfolding m_def by fastforce
  have unsuccessful: "\<not> ms_success (mutation_summary m)"
    by (simp add: mutation_summary_def Let_def)
  from run success unsuccessful have
    none: "snd (injected_account namespace_only ij i m0) = None"
      "snd (snd (injected_namespace retries run_id ij i m0)) = None"
    and closed: "tm_done m" and stale: "tm_stale_fingerprints m = []" and errs: "errs = []"
    by (auto simp: run_concurrent_mutation_def triggered begun m Let_def map_filter_simps
      mutation_summary_def split: if_splits option.splits simp flip: m0_def)
  have usable: "usable_seen cd (ij_events ij) m" using ev closed by (simp add: evidence_def)
  have frame: "tm_late_namespace m = concurrent_namespace_name run_id" "tm_expected_fingerprint m = fp"
    "tm_late_namespace_accounts m = tm_late_namespace_accounts m0"
    "tm_late_account_name m = (if namespace_only then [] else service_account_late)"
    "tm_existing_namespace m = (if namespace_only then [] else ns)"
    using mutation_fold_frame [of cd i "ij_events ij" m0] b by (simp_all add: m_def)
  have "was_patched (ij_observed ij) (concurrent_namespace_name run_id) name"
    if "name \<in> set target_service_accounts" for name
    using usable that b(6) [of name] by (simp add: usable_seen_def frame sched)
  moreover have "other = fp" if "was_shown cd (ij_observed ij) (concurrent_namespace_name run_id) other" for other
    using ev that stale by (auto simp: evidence_def frame sched)
  moreover have "was_shown cd (ij_observed ij) (concurrent_namespace_name run_id) fp"
    using usable by (simp add: usable_seen_def frame sched)
  moreover have "ij_account_answer ij = None \<and> was_patched (ij_observed ij) ns service_account_late"
    if "\<not> namespace_only"
  proof
    show "ij_account_answer ij = None" using none(1) that
      by (auto simp: injected_account_def create_late_service_account_def split: option.splits)
    have "service_account_late \<noteq> []" by (simp add: service_account_late_def)
    then show "was_patched (ij_observed ij) ns service_account_late"
      using usable that by (simp add: usable_seen_def frame sched)
  qed
  moreover have "na_create (ij_namespace_answers ij) = None"
    using none(2) by (auto simp: injected_namespace_def create_late_namespace_def Let_def split: option.splits)
  ultimately show ?thesis using errs by blast
qed

section \<open>The final check of an injection\<close>

datatype mutation_check_error =
    Late_Account_Unreadable kube_error
  | Late_Account_Unpatched
  | Late_Secret_Unreadable kube_error
  | Late_Secret_Unusable
  | Late_Secret_Fingerprint string string
  | Target_Account_Unreadable string kube_error
  | Target_Account_Unpatched string

fun check_late_accounts ::
  "(string \<Rightarrow> (kube_error, service_account) result) \<Rightarrow> string list \<Rightarrow> mutation_check_error option"
where
  "check_late_accounts get [] = None"
| "check_late_accounts get (name # names) =
     (case get name of
        Inl err \<Rightarrow> Some (Target_Account_Unreadable name err)
      | Inr account \<Rightarrow>
          if \<not> references_managed_secret account then Some (Target_Account_Unpatched name)
          else check_late_accounts get names)"

definition verify_mutation_final_state ::
  "codec \<Rightarrow> concurrent_mutation_summary \<Rightarrow> (kube_error, service_account) result
     \<Rightarrow> (kube_error, secret) result \<Rightarrow> (string \<Rightarrow> (kube_error, service_account) result)
     \<Rightarrow> mutation_check_error option" where
  "verify_mutation_final_state cd summary late_account late_secret accounts =
     (case (if ms_namespace_only summary then None
            else (case late_account of
                Inl err \<Rightarrow> Some (Late_Account_Unreadable err)
              | Inr account \<Rightarrow>
                  if references_managed_secret account then None else Some Late_Account_Unpatched)) of
        Some err \<Rightarrow> Some err
      | None \<Rightarrow>
          (case late_secret of
             Inl err \<Rightarrow> Some (Late_Secret_Unreadable err)
           | Inr s \<Rightarrow>
               if \<not> is_usable_for_service_account s then Some Late_Secret_Unusable
               else if secret_fingerprint cd s \<noteq> ms_expected_fingerprint summary
               then Some (Late_Secret_Fingerprint (secret_fingerprint cd s)
                      (ms_expected_fingerprint summary))
               else check_late_accounts accounts target_service_accounts))"

section \<open>A concrete injection\<close>

definition sample_rounds :: "(tracked_phase \<times> instant \<times> trigger_wake) list" where
  "sample_rounds =
     (let phase = \<lparr>tp_kind = Expiry_Phase, tp_started_at = 0, tp_completed_at = zero_time,
            tp_secret_total = 4, tp_account_total = 0, tp_secret_durations = [],
            tp_secret_fingerprints = [], tp_account_durations = [], tp_unexpected_accounts = [],
            tp_done = False\<rparr>
      in [(phase, 1, Woken_Tick),
          (phase\<lparr>tp_secret_durations := [(''b'', 5), (''a'', 6)],
             tp_secret_fingerprints := [(''b'', ''f''), (''a'', ''f'')]\<rparr>, 7, Woken_Tick)])"

definition sample_progress :: phase_progress where
  "sample_progress =
     \<lparr>pg_timestamp = 7, pg_elapsed = 7, pg_secrets_complete = 2, pg_secrets_total = 4,
      pg_accounts_complete = 0, pg_accounts_total = 0, pg_unexpected_accounts = 0\<rparr>"

definition sample_fingerprint :: string where
  "sample_fingerprint = secret_fingerprint plain_codec (shown_secret ''a'' ''new'')"

lemma sample_trigger:
  "wait_for_mutation_trigger 25 sample_rounds = Some (Inr (sample_progress, ''a'', ''f''))"
  by code_simp

theorem injection_trigger_witness:
  "wait_for_mutation_trigger 25 sample_rounds = Some (Inr (sample_progress, ''a'', ''f''))
   \<and> (\<exists>(p, now, wake) \<in> set sample_rounds. gm_get (tp_secret_fingerprints p) ''a'' = Some ''f''
        \<and> length (tp_secret_durations p) < tp_secret_total p)"
  using injection_trigger [OF _ sample_trigger] sample_trigger by fastforce

definition patched_account :: "string \<Rightarrow> service_account" where
  "patched_account name =
     \<lparr>sa_name = name, sa_namespace = concurrent_namespace_name ''d'', sa_resource_version = ''1'',
      sa_image_pull_secrets = [default_managed_secret_name]\<rparr>"

definition willing_answers :: namespace_answers where
  "willing_answers =
     \<lparr>na_create = None, na_get_labels = Inl Not_Found, na_account_create = (\<lambda>_. None),
      na_account_get = (\<lambda>_ _. Inl Not_Found), na_account_update = (\<lambda>_ _. None),
      na_binding_create = None, na_binding_get = (\<lambda>_. Inl Not_Found),
      na_binding_update = (\<lambda>_. None)\<rparr>"

definition sample_injection :: injection where
  "sample_injection =
     (let rounds = (case sample_rounds of r # (p, now, w) # _ \<Rightarrow>
            [r, (p\<lparr>tp_secret_fingerprints := [(''b'', ''f''), (''a'', sample_fingerprint)]\<rparr>, now, w)]
            | other \<Rightarrow> other);
          marks = [Mark_Namespace_Request 0 10, Mark_Namespace_Created 0 11, Mark_Prerequisites 0 12];
          seen = [See_Account (Some (patched_account ''default'')) 13,
            See_Secret (Some (shown_secret (concurrent_namespace_name ''d'') ''new'')) 14,
            See_Account (Some (patched_account ''workload'')) 15]
      in \<lparr>ij_rounds = rounds, ij_triggered_at = 9, ij_account_started = 0, ij_account_created = 0,
          ij_account_answer = None, ij_namespace_started = 10, ij_namespace_created = 11,
          ij_namespace_ready = 12, ij_namespace_answers = willing_answers, ij_observed = seen,
          ij_events = marks @ seen, ij_context = None\<rparr>)"

definition sample_started :: tracker where
  "sample_started = snd (begin_injection 25 True ''d'' sample_injection sample_progress ''a''
     sample_fingerprint (new_tracker [''a'', ''b''] []))"

lemma append_in_shuffles: "xs @ ys \<in> shuffles xs ys"
  by (induction xs) (simp_all add: Cons_in_shuffles_leftI)

theorem injection_success_sound_witness:
  "was_shown plain_codec (ij_observed sample_injection) (concurrent_namespace_name ''d'') sample_fingerprint
   \<and> was_patched (ij_observed sample_injection) (concurrent_namespace_name ''d'') ''workload''"
proof -
  have triggered: "wait_for_mutation_trigger 25 (ij_rounds sample_injection)
      = Some (Inr (sample_progress, ''a'', sample_fingerprint))"
    by code_simp
  have begun: "begin_injection 25 True ''d'' sample_injection sample_progress ''a'' sample_fingerprint
      (new_tracker [''a'', ''b''] []) = (0, sample_started)"
    by (simp add: sample_started_def begin_injection_def start_concurrent_mutation_def new_tracker_def)
  have account: "fst (injected_account True sample_injection 0 (tk_mutations sample_started ! 0)) = []"
    by (simp add: injected_account_def)
  have marks: "fst (injected_namespace 4 ''d'' sample_injection 0 (tk_mutations sample_started ! 0))
      = [Mark_Namespace_Request 0 10, Mark_Namespace_Created 0 11, Mark_Prerequisites 0 12]"
    by code_simp
  have events: "ij_events sample_injection = [Mark_Namespace_Request 0 10, Mark_Namespace_Created 0 11,
      Mark_Prerequisites 0 12] @ ij_observed sample_injection"
    by (simp add: sample_injection_def Let_def)
  have observed: "list_all is_observation (ij_observed sample_injection)" by code_simp
  have schedule: "injection_schedule 4 True ''d'' sample_injection 0 (tk_mutations sample_started ! 0)"
    unfolding injection_schedule_def account marks events
    by (intro conjI observed bexI [OF _ append_in_shuffles]) simp
  let ?m = "tk_mutations (tracker_run plain_codec (ij_events sample_injection) sample_started) ! 0"
  have errs: "snd (injected_account True sample_injection 0 (tk_mutations sample_started ! 0)) = None"
    "snd (snd (injected_namespace 4 ''d'' sample_injection 0 (tk_mutations sample_started ! 0))) = None"
    by code_simp+
  have finished: "tm_done ?m \<and> tm_stale_fingerprints ?m = []" by code_simp
  have no_ctx: "ij_context sample_injection = None" by (simp add: sample_injection_def Let_def)
  have run: "run_concurrent_mutation plain_codec 4 25 True ''d'' sample_injection (new_tracker [''a'', ''b''] [])
      = Some (mutation_summary ?m\<lparr>ms_success := True\<rparr>, [])"
    using finished
    by (simp add: run_concurrent_mutation_def triggered begun errs no_ctx Let_def map_filter_simps
      mutation_summary_def)
  have success: "ms_success (mutation_summary ?m\<lparr>ms_success := True\<rparr>)" by simp
  note sound = injection_success_sound [OF triggered begun schedule run success]
  show ?thesis using sound by (simp add: target_service_accounts_def service_account_workload_def)
qed

end
