(* ===== verification/PerfCommand.thy ===== *)
theory PerfCommand
  imports PerfMutation ControllerCommand
begin

text \<open>
  The command line of the performance driver (\<open>cmd/perf-driver/main.go\<close>), the profile it reads
  from the Deployment of the controller (\<open>profile.go\<close>), the summary of the controller's log and
  the peaks of its resource usage (\<open>resources.go\<close>). \<open>strconv.ParseInt\<close> with base 0,
  \<open>time.ParseDuration\<close> and the quantities of \<open>k8s.io/apimachinery\<close> are arguments.
\<close>

section \<open>The command line\<close>

definition hour :: duration where "hour = 60 * minute"

record driver_options =
  do_kubeconfig :: string
  do_context :: string
  do_run_id :: string
  do_dataset_id :: string
  do_output_directory :: string
  do_namespace_count :: int
  do_setup_concurrency :: int
  do_client_qps :: float64
  do_client_burst :: int
  do_initial_timeout :: duration
  do_expiry_timeout :: duration
  do_cleanup_timeout :: duration
  do_clock_advance :: duration
  do_cleanup_only :: bool
  do_keep_resources :: bool
  do_reuse_dataset :: bool
  do_retain_dataset :: bool
  do_inject_during_expiry :: bool
  do_inject_namespace_only :: bool
  do_injection_percent :: int
  do_injection_timeout :: duration
  do_environment_note :: string

definition default_driver_options :: driver_options where
  "default_driver_options =
     \<lparr>do_kubeconfig = [], do_context = [], do_run_id = [], do_dataset_id = [],
      do_output_directory = ''test/performance/results'', do_namespace_count = 0,
      do_setup_concurrency = 25, do_client_qps = Fin 100, do_client_burst = 200,
      do_initial_timeout = 3 * hour, do_expiry_timeout = 90 * minute,
      do_cleanup_timeout = 30 * minute, do_clock_advance = 50 * minute, do_cleanup_only = False,
      do_keep_resources = False, do_reuse_dataset = False, do_retain_dataset = False,
      do_inject_during_expiry = False, do_inject_namespace_only = False,
      do_injection_percent = 25, do_injection_timeout = 10 * minute, do_environment_note = []\<rparr>"

definition driver_flags :: "(string, flag_kind) gomap" where
  "driver_flags =
     [(''kubeconfig'', Value_Flag), (''context'', Value_Flag), (''run-id'', Value_Flag),
      (''dataset-id'', Value_Flag), (''output-dir'', Value_Flag), (''namespaces'', Value_Flag),
      (''setup-concurrency'', Value_Flag), (''client-qps'', Value_Flag),
      (''client-burst'', Value_Flag), (''initial-timeout'', Value_Flag),
      (''expiry-timeout'', Value_Flag), (''cleanup-timeout'', Value_Flag),
      (''clock-advance'', Value_Flag), (''cleanup-only'', Bool_Flag),
      (''keep-resources'', Bool_Flag), (''reuse-dataset'', Bool_Flag),
      (''retain-dataset'', Bool_Flag), (''inject-during-expiry'', Bool_Flag),
      (''inject-namespace-only'', Bool_Flag), (''injection-percent'', Value_Flag),
      (''injection-timeout'', Value_Flag), (''environment-note'', Value_Flag)]"

record driver_env =
  de_label :: "string \<Rightarrow> string list"
  de_int :: "string \<Rightarrow> int option"
  de_float :: "string \<Rightarrow> float64 option"
  de_duration :: "string \<Rightarrow> duration option"

definition set_driver_flag ::
  "driver_env \<Rightarrow> string \<Rightarrow> string \<Rightarrow> driver_options \<Rightarrow> driver_options option" where
  "set_driver_flag env name v opts =
     (if name = ''kubeconfig'' then Some (opts\<lparr>do_kubeconfig := v\<rparr>)
      else if name = ''context'' then Some (opts\<lparr>do_context := v\<rparr>)
      else if name = ''run-id'' then Some (opts\<lparr>do_run_id := v\<rparr>)
      else if name = ''dataset-id'' then Some (opts\<lparr>do_dataset_id := v\<rparr>)
      else if name = ''output-dir'' then Some (opts\<lparr>do_output_directory := v\<rparr>)
      else if name = ''namespaces'' then map_option (\<lambda>n. opts\<lparr>do_namespace_count := n\<rparr>) (de_int env v)
      else if name = ''setup-concurrency''
      then map_option (\<lambda>n. opts\<lparr>do_setup_concurrency := n\<rparr>) (de_int env v)
      else if name = ''client-qps'' then map_option (\<lambda>q. opts\<lparr>do_client_qps := q\<rparr>) (de_float env v)
      else if name = ''client-burst'' then map_option (\<lambda>n. opts\<lparr>do_client_burst := n\<rparr>) (de_int env v)
      else if name = ''initial-timeout''
      then map_option (\<lambda>d. opts\<lparr>do_initial_timeout := d\<rparr>) (de_duration env v)
      else if name = ''expiry-timeout''
      then map_option (\<lambda>d. opts\<lparr>do_expiry_timeout := d\<rparr>) (de_duration env v)
      else if name = ''cleanup-timeout''
      then map_option (\<lambda>d. opts\<lparr>do_cleanup_timeout := d\<rparr>) (de_duration env v)
      else if name = ''clock-advance''
      then map_option (\<lambda>d. opts\<lparr>do_clock_advance := d\<rparr>) (de_duration env v)
      else if name = ''cleanup-only'' then map_option (\<lambda>b. opts\<lparr>do_cleanup_only := b\<rparr>) (parse_bool v)
      else if name = ''keep-resources''
      then map_option (\<lambda>b. opts\<lparr>do_keep_resources := b\<rparr>) (parse_bool v)
      else if name = ''reuse-dataset'' then map_option (\<lambda>b. opts\<lparr>do_reuse_dataset := b\<rparr>) (parse_bool v)
      else if name = ''retain-dataset''
      then map_option (\<lambda>b. opts\<lparr>do_retain_dataset := b\<rparr>) (parse_bool v)
      else if name = ''inject-during-expiry''
      then map_option (\<lambda>b. opts\<lparr>do_inject_during_expiry := b\<rparr>) (parse_bool v)
      else if name = ''inject-namespace-only''
      then map_option (\<lambda>b. opts\<lparr>do_inject_namespace_only := b\<rparr>) (parse_bool v)
      else if name = ''injection-percent''
      then map_option (\<lambda>n. opts\<lparr>do_injection_percent := n\<rparr>) (de_int env v)
      else if name = ''injection-timeout''
      then map_option (\<lambda>d. opts\<lparr>do_injection_timeout := d\<rparr>) (de_duration env v)
      else if name = ''environment-note'' then Some (opts\<lparr>do_environment_note := v\<rparr>)
      else None)"

datatype driver_error =
    Driver_Flags flag_error
  | Positional_Arguments "string list"
  | Run_Id_Required
  | Namespace_Only_Alone
  | Invalid_Run_Id string
  | Invalid_Dataset_Id string
  | No_Namespaces
  | Invalid_Namespace_Name string
  | Invalid_Injected_Name string
  | Client_Not_Positive
  | Timeout_Not_Positive
  | Injection_Timeout_Not_Positive
  | Injection_Percent_Range

text \<open>The checks on the names a dataset produces: its first, its last and the injected one.\<close>

definition check_generated_names ::
  "(string \<Rightarrow> string list) \<Rightarrow> driver_options \<Rightarrow> driver_error option" where
  "check_generated_names validate opts =
     (let generated = namespace_names (do_dataset_id opts) (nat (do_namespace_count opts));
          injected = concurrent_namespace_name (do_dataset_id opts)
      in case find (\<lambda>name. validate name \<noteq> []) [generated ! 0, generated ! (length generated - 1)] of
           Some name \<Rightarrow> Some (Invalid_Namespace_Name name)
         | None \<Rightarrow>
             if do_inject_during_expiry opts \<and> validate injected \<noteq> []
             then Some (Invalid_Injected_Name injected) else None)"

definition check_driver_options ::
  "(string \<Rightarrow> string list) \<Rightarrow> driver_options \<Rightarrow> (driver_error, driver_options) result" where
  "check_driver_options validate opts0 =
     (if do_run_id opts0 = [] then Inl Run_Id_Required
      else if do_inject_namespace_only opts0 \<and> \<not> do_inject_during_expiry opts0
      then Inl Namespace_Only_Alone
      else if validate (do_run_id opts0) \<noteq> [] then Inl (Invalid_Run_Id (do_run_id opts0))
      else
        let opts = (if do_dataset_id opts0 = [] then opts0\<lparr>do_dataset_id := do_run_id opts0\<rparr> else opts0)
        in if validate (do_dataset_id opts) \<noteq> [] then Inl (Invalid_Dataset_Id (do_dataset_id opts))
           else if \<not> do_cleanup_only opts \<and> do_namespace_count opts \<le> 0 then Inl No_Namespaces
           else (case (if do_cleanup_only opts then None else check_generated_names validate opts) of
               Some err \<Rightarrow> Inl err
             | None \<Rightarrow>
                 if do_setup_concurrency opts \<le> 0 \<or> f_le (do_client_qps opts) f_zero
                    \<or> do_client_burst opts \<le> 0
                 then Inl Client_Not_Positive
                 else if do_initial_timeout opts \<le> 0 \<or> do_expiry_timeout opts \<le> 0
                         \<or> do_cleanup_timeout opts \<le> 0 \<or> do_clock_advance opts \<le> 0
                 then Inl Timeout_Not_Positive
                 else if do_injection_timeout opts \<le> 0 then Inl Injection_Timeout_Not_Positive
                 else if do_injection_percent opts < 1 \<or> do_injection_percent opts > 99
                 then Inl Injection_Percent_Range
                 else Inr opts))"

definition parse_driver_options ::
  "driver_env \<Rightarrow> string list \<Rightarrow> (driver_error, driver_options) result" where
  "parse_driver_options env args =
     (case parse_flags driver_flags (set_driver_flag env) args default_driver_options of
        Inl err \<Rightarrow> Inl (Driver_Flags err)
      | Inr (opts, rest) \<Rightarrow>
          if rest \<noteq> [] then Inl (Positional_Arguments rest)
          else check_driver_options (de_label env) opts)"

text \<open>Accepted options; what the rest of the driver relies on.\<close>

lemma check_driver_options_valid:
  "check_driver_options validate opts0 = Inr opts \<Longrightarrow>
     0 < do_setup_concurrency opts \<and> 1 \<le> do_injection_percent opts \<and> do_injection_percent opts \<le> 99
     \<and> do_run_id opts \<noteq> [] \<and> do_dataset_id opts \<noteq> [] \<and> validate (do_dataset_id opts) = []
     \<and> (do_inject_namespace_only opts \<longrightarrow> do_inject_during_expiry opts)
     \<and> (\<not> do_cleanup_only opts \<longrightarrow> 0 < do_namespace_count opts)"
  by (auto simp: check_driver_options_def Let_def split: if_splits option.splits)

section \<open>The profile of the controller\<close>

text \<open>The loop keeps the last value of a flag, given with an equals sign or as the next argument.\<close>

fun argument_value :: "string list \<Rightarrow> string \<Rightarrow> string \<Rightarrow> string" where
  "argument_value [] name value = value"
| "argument_value (arg # rest) name value =
     (if starts_with (''--'' @ name @ ''='') arg
      then argument_value rest name (drop (length (''--'' @ name @ ''='')) arg)
      else if arg = ''--'' @ name
      then (case rest of [] \<Rightarrow> value | next # rest' \<Rightarrow> argument_value rest' name next)
      else argument_value rest name value)"

definition integer_argument :: "string list \<Rightarrow> string \<Rightarrow> nat \<Rightarrow> (string \<times> string, int) result" where
  "integer_argument args name fallback =
     (let raw = argument_value args name (show_nat fallback)
      in case atoi raw of None \<Rightarrow> Inl (name, raw) | Some v \<Rightarrow> Inr v)"

record pod_container =
  pc_name :: string
  pc_image :: string
  pc_args :: "string list"

record controller_profile =
  cp_replicas :: int
  cp_image :: string
  cp_arguments :: "string list"
  cp_generation :: int
  cp_observed_at :: instant
  cp_verified_at :: instant
  cp_stable :: bool
  cp_namespace_concurrency :: int
  cp_account_concurrency :: int
  cp_rate_limit :: string
  cp_token_ttl :: string
  cp_refresh_before :: string
  cp_expiry_trigger :: string

datatype profile_error =
    Profile_Read_Failed kube_error
  | No_Controller_Container
  | Bad_Argument string string

definition profile_from_deployment ::
  "pod_container list \<Rightarrow> int \<Rightarrow> instant \<Rightarrow> (profile_error, controller_profile) result" where
  "profile_from_deployment containers generation now =
     (let (image, args) =
            (case find (\<lambda>c. pc_name c = ''controller'') containers of
               None \<Rightarrow> ([], []) | Some c \<Rightarrow> (pc_image c, pc_args c))
      in if image = [] then Inl No_Controller_Container
         else (case integer_argument args ''max-concurrent-namespace-reconciles''
                (nat default_max_concurrent_namespace_reconciles) of
             Inl (name, raw) \<Rightarrow> Inl (Bad_Argument name raw)
           | Inr namespaces \<Rightarrow>
               (case integer_argument args ''max-concurrent-service-account-reconciles''
                  (nat default_max_concurrent_service_account_reconciles) of
                  Inl (name, raw) \<Rightarrow> Inl (Bad_Argument name raw)
                | Inr accounts \<Rightarrow>
                    Inr \<lparr>cp_replicas = 1, cp_image = image, cp_arguments = args,
                         cp_generation = generation, cp_observed_at = now, cp_verified_at = zero_time,
                         cp_stable = False, cp_namespace_concurrency = namespaces,
                         cp_account_concurrency = accounts,
                         cp_rate_limit = ''configured QPS '' @ argument_value args ''kube-api-qps'' ''25''
                           @ '', burst '' @ argument_value args ''kube-api-burst'' ''50'',
                         cp_token_ttl = argument_value args ''mock-token-ttl'' ''controller default'',
                         cp_refresh_before =
                           argument_value args ''credential-refresh-before'' ''controller default'',
                         cp_expiry_trigger =
                           ''fake clock advanced 50m; real scheduler and Kubernetes writes''\<rparr>)))"

definition read_controller_profile ::
  "(kube_error, pod_container list \<times> int) result \<Rightarrow> instant \<Rightarrow> (profile_error, controller_profile) result"
where
  "read_controller_profile answer now =
     (case answer of
        Inl err \<Rightarrow> Inl (Profile_Read_Failed err)
      | Inr (containers, generation) \<Rightarrow> profile_from_deployment containers generation now)"

section \<open>The controller's log\<close>

text \<open>\<open>bytes.Count\<close> of a separator that is not empty: occurrences that do not overlap.\<close>

function count_bytes :: "string \<Rightarrow> string \<Rightarrow> nat" where
  "count_bytes s sep =
     (if s = [] \<or> sep = [] then 0
      else if starts_with sep s then Suc (count_bytes (drop (length sep) s) sep)
      else count_bytes (tl s) sep)"
  by auto
termination by (relation "measure (\<lambda>(s, _). length s)") (auto simp: diff_less)

declare count_bytes.simps [simp del]

record diagnostics =
  dg_log_bytes :: nat
  dg_error_lines :: nat
  dg_log_complete :: bool
  dg_log_warning :: bool
  dg_collection_error :: bool

definition quoted :: "string \<Rightarrow> string" where
  "quoted s = [CHR 0x22] @ s @ [CHR 0x22]"

definition summarize_controller_logs :: "string \<Rightarrow> diagnostics" where
  "summarize_controller_logs data =
     (let complete = str_contains data
            (quoted ''msg'' @ '':'' @ quoted ''starting E2E controller manager with mock provider'')
      in \<lparr>dg_log_bytes = length data,
          dg_error_lines = count_bytes data (quoted ''level'' @ '':'' @ quoted ''error'')
            + count_bytes data (quoted ''level'' @ '':'' @ quoted ''ERROR''),
          dg_log_complete = complete, dg_log_warning = (length data > 0 \<and> \<not> complete),
          dg_collection_error = False\<rparr>)"

section \<open>Resource usage\<close>

text \<open>What the driver uses of a \<open>resource.Quantity\<close>: addition and the two integer readings.\<close>

record 'q quantity_ops =
  qo_zero :: 'q
  qo_add :: "'q \<Rightarrow> 'q \<Rightarrow> 'q"
  qo_milli :: "'q \<Rightarrow> int"
  qo_value :: "'q \<Rightarrow> int"

type_synonym 'q resource_list = "(string, 'q) gomap"

record resource_peak =
  rp_cpu :: rat
  rp_memory :: rat

definition zero_peak :: resource_peak where "zero_peak = \<lparr>rp_cpu = 0, rp_memory = 0\<rparr>"

definition add_usage ::
  "'q quantity_ops \<Rightarrow> 'q resource_list \<Rightarrow> 'q resource_list \<Rightarrow> 'q resource_list" where
  "add_usage ops total_usage usage =
     fold (\<lambda>(name, quantity) acc.
        gm_put name (qo_add ops (gm_get0 (qo_zero ops) acc name) quantity) acc) usage total_usage"

definition usage_values :: "'q quantity_ops \<Rightarrow> 'q resource_list \<Rightarrow> resource_peak" where
  "usage_values ops usage =
     \<lparr>rp_cpu = f_of_int (qo_milli ops (gm_get0 (qo_zero ops) usage ''cpu'')),
      rp_memory = f_div (f_of_int (qo_value ops (gm_get0 (qo_zero ops) usage ''memory'')))
        (f_of_int (1024 * 1024))\<rparr>"

definition maximum_peak :: "resource_peak \<Rightarrow> resource_peak \<Rightarrow> resource_peak" where
  "maximum_peak left right =
     \<lparr>rp_cpu = max (rp_cpu left) (rp_cpu right), rp_memory = max (rp_memory left) (rp_memory right)\<rparr>"

record resource_summary =
  rs_samples :: nat
  rs_errors :: nat
  rs_controller_peak :: resource_peak
  rs_node_peaks :: "(string, resource_peak) gomap"

definition empty_resources :: resource_summary where
  "empty_resources =
     \<lparr>rs_samples = 0, rs_errors = 0, rs_controller_peak = zero_peak, rs_node_peaks = []\<rparr>"

record 'q metrics_item =
  mi_name :: string
  mi_labels :: "(string, string) gomap"
  mi_usage :: "'q resource_list"
  mi_containers :: "'q resource_list list"

definition controller_application :: string where
  "controller_application = ''registry-secret-controller-perf''"

definition pod_peak :: "'q quantity_ops \<Rightarrow> 'q metrics_item \<Rightarrow> resource_peak" where
  "pod_peak ops pod = usage_values ops (fold (\<lambda>usage acc. add_usage ops acc usage) (mi_containers pod) [])"

definition is_controller_pod :: "'q metrics_item \<Rightarrow> bool" where
  "is_controller_pod pod \<longleftrightarrow>
     gm_get0 [] (mi_labels pod) ''app.kubernetes.io/name'' = controller_application"

definition sample_pod ::
  "'q quantity_ops \<Rightarrow> 'q metrics_item \<Rightarrow> resource_summary \<Rightarrow> resource_summary" where
  "sample_pod ops pod r =
     (if \<not> is_controller_pod pod then r
      else r\<lparr>rs_controller_peak := maximum_peak (rs_controller_peak r) (pod_peak ops pod)\<rparr>)"

definition sample_node ::
  "'q quantity_ops \<Rightarrow> 'q metrics_item \<Rightarrow> resource_summary \<Rightarrow> resource_summary" where
  "sample_node ops node r =
     r\<lparr>rs_node_peaks := gm_put (mi_name node)
         (maximum_peak (gm_get0 zero_peak (rs_node_peaks r) (mi_name node))
            (usage_values ops (mi_usage node)))
         (rs_node_peaks r)\<rparr>"

text \<open>One sample: the lists of Pods and of nodes, \<open>None\<close> when the request or its decoding failed.\<close>

definition resource_sample ::
  "'q quantity_ops \<Rightarrow> 'q metrics_item list option \<Rightarrow> 'q metrics_item list option
     \<Rightarrow> resource_summary \<Rightarrow> resource_summary" where
  "resource_sample ops pods nodes r =
     (case (pods, nodes) of
        (Some ps, Some ns) \<Rightarrow>
          (let r1 = fold (sample_node ops) ns (fold (sample_pod ops) ps r)
           in r1\<lparr>rs_samples := Suc (rs_samples r1)\<rparr>)
      | _ \<Rightarrow> r\<lparr>rs_errors := Suc (rs_errors r)\<rparr>)"

definition resource_samples ::
  "'q quantity_ops \<Rightarrow> ('q metrics_item list option \<times> 'q metrics_item list option) list
     \<Rightarrow> resource_summary \<Rightarrow> resource_summary" where
  "resource_samples ops samples r = fold (\<lambda>(pods, nodes). resource_sample ops pods nodes) samples r"

section \<open>What the profile says\<close>

definition inline_flag :: "string \<times> string \<Rightarrow> string" where
  "inline_flag = (\<lambda>(name, value). ''--'' @ name @ ''='' @ value)"

lemma takeWhile_before_equals:
  "CHR ''='' \<notin> set name \<Longrightarrow> takeWhile (\<lambda>c. c \<noteq> CHR ''='') (name @ CHR ''='' # v) = name"
  "CHR ''='' \<notin> set name \<Longrightarrow> dropWhile (\<lambda>c. c \<noteq> CHR ''='') (name @ CHR ''='' # v) = CHR ''='' # v"
  by (induction name) auto

lemma split_inline:
  "CHR ''='' \<notin> set name \<Longrightarrow> split_flag (name @ CHR ''='' # v) = (name, Some v)"
  by (simp add: split_flag_def takeWhile_before_equals)

lemma starts_with_iff: "starts_with p s \<longleftrightarrow> (\<exists>t. s = p @ t)"
  by (metis append_eq_conv_conj append_take_drop_id starts_with_def)

lemma inline_prefix:
  assumes "CHR ''='' \<notin> set m" "CHR ''='' \<notin> set n"
  shows "starts_with (''--'' @ n @ ''='') (inline_flag (m, v)) \<longleftrightarrow> m = n"
proof
  assume "starts_with (''--'' @ n @ ''='') (inline_flag (m, v))"
  then obtain t where "m @ CHR ''='' # v = n @ CHR ''='' # t"
    by (auto simp: starts_with_iff inline_flag_def)
  then have "takeWhile (\<lambda>c. c \<noteq> CHR ''='') (m @ CHR ''='' # v)
      = takeWhile (\<lambda>c. c \<noteq> CHR ''='') (n @ CHR ''='' # t)"
    by simp
  with assms show "m = n" by (simp add: takeWhile_before_equals)
qed (simp add: starts_with_def inline_flag_def)

text \<open>
  Reading a flag of a command line of inline flags: the raw value the profile finds is the one
  whose conversion the command stored, for a field that only this flag sets.
\<close>

lemma parse_flags_inline:
  assumes "parse_flags flags set_value (map inline_flag ps) o0 = Inr (o1, rest)"
    and names: "\<forall>(m, _) \<in> set ps. CHR ''='' \<notin> set m" "CHR ''='' \<notin> set n"
    and declared: "gm_get flags n = Some Value_Flag"
    and own: "\<And>v a b. set_value n v a = Some b \<Longrightarrow> conv v = Some (field b)"
    and other: "\<And>m v a b. m \<noteq> n \<Longrightarrow> set_value m v a = Some b \<Longrightarrow> field b = field a"
    and start: "conv fallback = Some (field o0)"
  shows "rest = [] \<and> conv (argument_value (map inline_flag ps) n fallback) = Some (field o1)"
  using assms(1,2) start
proof (induction ps arbitrary: o0 fallback)
  case (Cons p ps)
  obtain m v where p: "p = (m, v)" by force
  with Cons.prems(2) have m: "CHR ''='' \<notin> set m" by simp
  have body: "without_minuses (inline_flag (m, v)) = Some (m @ CHR ''='' # v)"
    by (simp add: inline_flag_def without_minuses_def)
  have not_end: "inline_flag (m, v) \<noteq> ''--''" "inline_flag (m, v) \<noteq> ''--'' @ n"
    using names(2) by (auto simp: inline_flag_def)
  from Cons.prems(1) obtain kind o' where
    o': "set_value m v o0 = Some o'" "parse_flags flags set_value (map inline_flag ps) o' = Inr (o1, rest)"
    by (auto simp: p body not_end split_inline [OF m] split: if_splits option.splits flag_kind.splits)
  have rest: "\<forall>(m, _) \<in> set ps. CHR ''='' \<notin> set m" using Cons.prems(2) by simp
  show ?case
  proof (cases "m = n")
    case True
    have "drop (length (''--'' @ n @ ''='')) (inline_flag (n, v)) = v" by (simp add: inline_flag_def)
    then have "argument_value (map inline_flag (p # ps)) n fallback = argument_value (map inline_flag ps) n v"
      using inline_prefix [OF m names(2), of v] True by (simp add: p)
    moreover have "conv v = Some (field o')" using own o'(1) True by blast
    ultimately show ?thesis using Cons.IH [OF o'(2) rest] by simp
  next
    case False
    then have "argument_value (map inline_flag (p # ps)) n fallback
        = argument_value (map inline_flag ps) n fallback"
      using inline_prefix [OF m names(2), of v] not_end by (simp add: p)
    moreover have "conv fallback = Some (field o')" using other [OF False o'(1)] Cons.prems(3) by simp
    ultimately show ?thesis using Cons.IH [OF o'(2) rest] by simp
  qed
qed simp

lemma set_e2e_flag_own:
  "set_e2e_flag env parse_int pd pu ''kube-api-qps'' v a = Some b \<Longrightarrow> parse_float env v = Some (ee_kube_api_qps b)"
  "set_e2e_flag env parse_int pd pu ''kube-api-burst'' v a = Some b \<Longrightarrow> parse_int v = Some (ee_kube_api_burst b)"
  "set_e2e_flag env parse_int pd pu ''max-concurrent-namespace-reconciles'' v a = Some b
     \<Longrightarrow> parse_int v = Some (ee_namespace_concurrency b)"
  "set_e2e_flag env parse_int pd pu ''max-concurrent-service-account-reconciles'' v a = Some b
     \<Longrightarrow> parse_int v = Some (ee_service_account_concurrency b)"
  by (auto simp: set_e2e_flag_def)

lemma set_e2e_flag_other:
  assumes "set_e2e_flag env parse_int pd pu m v a = Some b"
  shows "m \<noteq> ''kube-api-qps'' \<Longrightarrow> ee_kube_api_qps b = ee_kube_api_qps a"
    and "m \<noteq> ''kube-api-burst'' \<Longrightarrow> ee_kube_api_burst b = ee_kube_api_burst a"
    and "m \<noteq> ''max-concurrent-namespace-reconciles'' \<Longrightarrow> ee_namespace_concurrency b = ee_namespace_concurrency a"
    and "m \<noteq> ''max-concurrent-service-account-reconciles''
      \<Longrightarrow> ee_service_account_concurrency b = ee_service_account_concurrency a"
  using assms unfolding set_e2e_flag_def by (auto split: if_split_asm)

lemma e2e_flags_declared:
  "gm_get e2e_flags ''kube-api-qps'' = Some Value_Flag"
  "gm_get e2e_flags ''kube-api-burst'' = Some Value_Flag"
  "gm_get e2e_flags ''max-concurrent-namespace-reconciles'' = Some Value_Flag"
  "gm_get e2e_flags ''max-concurrent-service-account-reconciles'' = Some Value_Flag"
  by (simp_all add: e2e_flags_def)

lemma integer_argument_raw:
  "integer_argument args name fallback = Inr v
     \<longleftrightarrow> atoi (argument_value args name (show_nat fallback)) = Some v"
  by (auto simp: integer_argument_def Let_def split: option.splits)

lemma profile_concurrency:
  assumes "profile_from_deployment containers generation now = Inr profile"
    and "find (\<lambda>c. pc_name c = ''controller'') containers = Some c"
  shows "integer_argument (pc_args c) ''max-concurrent-namespace-reconciles''
      (nat default_max_concurrent_namespace_reconciles) = Inr (cp_namespace_concurrency profile)"
    and "integer_argument (pc_args c) ''max-concurrent-service-account-reconciles''
      (nat default_max_concurrent_service_account_reconciles) = Inr (cp_account_concurrency profile)"
    and "cp_arguments profile = pc_args c"
    and "\<exists>qps burst. qps = argument_value (pc_args c) ''kube-api-qps'' ''25''
      \<and> burst = argument_value (pc_args c) ''kube-api-burst'' ''50''
      \<and> cp_rate_limit profile = ''configured QPS '' @ qps @ '', burst '' @ burst"
  using assms by (auto simp: profile_from_deployment_def split: if_splits sum.splits)

text \<open>
  The profile stored with a result describes the controller that ran: for a Deployment whose
  controller container has inline flags that the command line of the end-to-end controller
  accepts, the rate limit in the profile shows the last values given, or the defaults, which are
  the text of the values the controller stored, and each concurrency is the decimal reading of the
  text of which the controller stored its own reading.
\<close>

lemma profile_reads_controller_flags:
  assumes accepted: "parse_flags e2e_flags (set_e2e_flag env parse_int parse_duration parse_uint)
        (map inline_flag ps) default_e2e_options = Inr (opts, rest)"
    and names: "\<forall>(m, _) \<in> set ps. CHR ''='' \<notin> set m"
    and defaults: "parse_float env ''25'' = Some default_kube_api_qps"
      "parse_int ''50'' = Some default_kube_api_burst"
      "parse_int (show_nat (nat default_workers)) = Some default_workers"
    and container: "find (\<lambda>c. pc_name c = ''controller'') containers = Some c"
      "pc_args c = map inline_flag ps"
    and profile: "profile_from_deployment containers generation now = Inr profile"
  shows "(\<exists>qps burst. cp_rate_limit profile = ''configured QPS '' @ qps @ '', burst '' @ burst
        \<and> parse_float env qps = Some (ee_kube_api_qps opts)
        \<and> parse_int burst = Some (ee_kube_api_burst opts))
    \<and> (\<exists>raw. atoi raw = Some (cp_namespace_concurrency profile)
        \<and> parse_int raw = Some (ee_namespace_concurrency opts))
    \<and> (\<exists>raw. atoi raw = Some (cp_account_concurrency profile)
        \<and> parse_int raw = Some (ee_service_account_concurrency opts))"
proof -
  note read = parse_flags_inline [OF accepted names]
  note own = set_e2e_flag_own [where env = env and parse_int = parse_int and pd = parse_duration and pu = parse_uint]
  note other = set_e2e_flag_other [where env = env and parse_int = parse_int and pd = parse_duration and pu = parse_uint]
  note start = default_e2e_options_def defaults default_max_concurrent_namespace_reconciles_def
    default_max_concurrent_service_account_reconciles_def
  let ?read = "argument_value (map inline_flag ps)"
  note shown = profile_concurrency [OF profile container(1), unfolded container(2) integer_argument_raw]
  have qps: "parse_float env (?read ''kube-api-qps'' ''25'') = Some (ee_kube_api_qps opts)"
    by (rule read [where field = ee_kube_api_qps, OF _ e2e_flags_declared(1) own(1) other(1), THEN conjunct2])
       (simp_all add: start)
  have burst: "parse_int (?read ''kube-api-burst'' ''50'') = Some (ee_kube_api_burst opts)"
    by (rule read [where field = ee_kube_api_burst, OF _ e2e_flags_declared(2) own(2) other(2), THEN conjunct2])
       (simp_all add: start)
  have "parse_int (?read ''max-concurrent-namespace-reconciles''
      (show_nat (nat default_max_concurrent_namespace_reconciles))) = Some (ee_namespace_concurrency opts)"
    by (rule read [where field = ee_namespace_concurrency, OF _ e2e_flags_declared(3) own(3) other(3), THEN conjunct2])
       (simp_all add: start)
  moreover have "parse_int (?read ''max-concurrent-service-account-reconciles''
      (show_nat (nat default_max_concurrent_service_account_reconciles))) = Some (ee_service_account_concurrency opts)"
    by (rule read [where field = ee_service_account_concurrency, OF _ e2e_flags_declared(4) own(4) other(4), THEN conjunct2])
       (simp_all add: start)
  ultimately show ?thesis using qps burst shown by blast
qed

definition sample_containers :: "pod_container list" where
  "sample_containers =
     [\<lparr>pc_name = ''sidecar'', pc_image = ''proxy'', pc_args = []\<rparr>,
      \<lparr>pc_name = ''controller'', pc_image = ''e2e'',
       pc_args = map inline_flag [(''kube-api-burst'', ''70''), (''kube-api-burst'', ''80''),
         (''max-concurrent-namespace-reconciles'', ''3'')]\<rparr>]"

lemma profile_reads_controller_flags_witness:
  "\<exists>profile. profile_from_deployment sample_containers 1 5 = Inr profile
     \<and> (\<exists>qps burst. cp_rate_limit profile = ''configured QPS '' @ qps @ '', burst '' @ burst \<and> atoi burst = Some 80)
     \<and> (\<exists>raw. atoi raw = Some (cp_namespace_concurrency profile) \<and> atoi raw = Some 3)"
proof -
  define ps where "ps = [(''kube-api-burst'', ''70''), (''kube-api-burst'', ''80''),
    (''max-concurrent-namespace-reconciles'', ''3'')]"
  let ?opts = "default_e2e_options\<lparr>ee_kube_api_burst := 80, ee_namespace_concurrency := 3\<rparr>"
  have accepted: "parse_flags e2e_flags (set_e2e_flag sample_env atoi (\<lambda>_. None) (\<lambda>_. None))
      (map inline_flag ps) default_e2e_options = Inr (?opts, [])"
    unfolding ps_def by code_simp
  have names: "\<forall>(m, _) \<in> set ps. CHR ''='' \<notin> set m" by (simp add: ps_def)
  have defaults: "parse_float sample_env ''25'' = Some default_kube_api_qps"
    "atoi ''50'' = Some default_kube_api_burst" "atoi (show_nat (nat default_workers)) = Some default_workers"
    by code_simp+
  have container: "find (\<lambda>c. pc_name c = ''controller'') sample_containers = Some (sample_containers ! 1)"
    "pc_args (sample_containers ! 1) = map inline_flag ps"
    by (simp_all add: sample_containers_def ps_def)
  obtain profile where profile: "profile_from_deployment sample_containers 1 5 = Inr profile"
  proof -
    have "\<not> isl (profile_from_deployment sample_containers 1 5)" by code_simp
    then show thesis using that by (cases "profile_from_deployment sample_containers 1 5") auto
  qed
  from profile_reads_controller_flags [OF accepted names defaults container profile] profile
  show ?thesis by auto
qed

end
