(* ===== verification/PerfBenchmark.thy ===== *)
theory PerfBenchmark
  imports PerfCommand
begin

text \<open>
  One run of the performance driver (\<open>runBenchmark\<close>, \<open>waitForPhase\<close>, \<open>cleanupOnly\<close> and \<open>main\<close> of
  \<open>cmd/perf-driver/main.go\<close>, \<open>observer.go\<close>). A script is a sequence of calls on the summary that
  stops at the first error; the deferred clean-up runs after it. What the cluster, the file system
  and the clock answer is the record \<open>benchmark_world\<close>. An outcome \<open>None\<close> means that the rounds
  given for a loop do not suffice.
\<close>

section \<open>The observers\<close>

datatype 'o informer_event = Added 'o | Updated 'o 'o | Deleted 'o

text \<open>The handlers registered for each informer: additions and updates, no deletions.\<close>

definition secret_handler :: "secret informer_event \<Rightarrow> instant \<Rightarrow> tracker_event option" where
  "secret_handler event now =
     (case event of
        Added s \<Rightarrow> Some (See_Secret (Some s) now)
      | Updated _ s \<Rightarrow> Some (See_Secret (Some s) now)
      | Deleted _ \<Rightarrow> None)"

definition account_handler :: "service_account informer_event \<Rightarrow> instant \<Rightarrow> tracker_event option" where
  "account_handler event now =
     (case event of
        Added a \<Rightarrow> Some (See_Account (Some a) now)
      | Updated _ a \<Rightarrow> Some (See_Account (Some a) now)
      | Deleted _ \<Rightarrow> None)"

datatype observer_error = Register_Secrets string | Register_Accounts string
  | Sync_Context string | Cache_Stopped

text \<open>\<open>startConvergenceObserver\<close>: the answers to both registrations, whether the caches synchronized,
  and the error of the context.\<close>

definition start_observers ::
  "string option \<Rightarrow> string option \<Rightarrow> bool \<Rightarrow> string option \<Rightarrow> observer_error option" where
  "start_observers secrets accounts synced ctx =
     (case secrets of
        Some err \<Rightarrow> Some (Register_Secrets err)
      | None \<Rightarrow>
          (case accounts of
             Some err \<Rightarrow> Some (Register_Accounts err)
           | None \<Rightarrow>
               if \<not> synced then Some (case ctx of Some err \<Rightarrow> Sync_Context err | None \<Rightarrow> Cache_Stopped)
               else None))"

section \<open>Waiting for a phase\<close>

datatype phase_wake = Phase_Closed | Sample_Tick | Log_Tick | Resource_Tick | Phase_Deadline
  | Phase_Context string

text \<open>
  One turn of the loop: what entered the tracker while it was blocked, what \<open>select\<close> picked, the
  time, the error of writing a row, and the answers to a sample of the metrics.
\<close>

record 'q phase_turn =
  pt_events :: "tracker_event list"
  pt_wake :: phase_wake
  pt_now :: instant
  pt_write :: "string option"
  pt_metrics :: "'q metrics_item list option \<times> 'q metrics_item list option"

datatype wait_phase_error =
    Create_Progress string
  | Initial_Progress string
  | Progress_Write string
  | Final_Progress string
  | Phase_Timeout phase_kind duration
  | Phase_Canceled string

record phase_wait =
  pw_tracker :: tracker
  pw_written :: "phase_progress list"
  pw_resources :: resource_summary

text \<open>A row of the progress of phase \<open>i\<close>, when it can be written.\<close>

definition write_progress ::
  "nat \<Rightarrow> instant \<Rightarrow> string option \<Rightarrow> (string \<Rightarrow> wait_phase_error) \<Rightarrow> phase_wait
     \<Rightarrow> phase_wait \<times> wait_phase_error option" where
  "write_progress i now answer err w =
     (case answer of
        Some e \<Rightarrow> (w, Some (err e))
      | None \<Rightarrow>
          (w\<lparr>pw_written := pw_written w @ [progress_of (tk_phases (pw_tracker w) ! i) now]\<rparr>, None))"

definition take_sample :: "'q quantity_ops \<Rightarrow> 'q phase_turn \<Rightarrow> phase_wait \<Rightarrow> phase_wait" where
  "take_sample ops turn w =
     w\<lparr>pw_resources := resource_sample ops (fst (pt_metrics turn)) (snd (pt_metrics turn)) (pw_resources w)\<rparr>"

text \<open>The channel of the phase can be picked only when the tracker has closed it.\<close>

fun phase_loop ::
  "codec \<Rightarrow> 'q quantity_ops \<Rightarrow> nat \<Rightarrow> duration \<Rightarrow> 'q phase_turn list \<Rightarrow> phase_wait
     \<Rightarrow> (phase_wait \<times> wait_phase_error option) option" where
  "phase_loop cd ops i timeout [] w = None"
| "phase_loop cd ops i timeout (turn # turns) w0 =
     (let w = w0\<lparr>pw_tracker := tracker_run cd (pt_events turn) (pw_tracker w0)\<rparr>;
          p = tk_phases (pw_tracker w) ! i
      in case pt_wake turn of
           Phase_Closed \<Rightarrow>
             if \<not> tp_done p then None
             else Some (write_progress i (pt_now turn) (pt_write turn) Final_Progress (take_sample ops turn w))
         | Sample_Tick \<Rightarrow>
             (case write_progress i (pt_now turn) (pt_write turn) Progress_Write w of
                (w', Some err) \<Rightarrow> Some (w', Some err)
              | (w', None) \<Rightarrow> phase_loop cd ops i timeout turns w')
         | Log_Tick \<Rightarrow> phase_loop cd ops i timeout turns w
         | Resource_Tick \<Rightarrow> phase_loop cd ops i timeout turns (take_sample ops turn w)
         | Phase_Deadline \<Rightarrow> Some (w, Some (Phase_Timeout (tp_kind p) timeout))
         | Phase_Context err \<Rightarrow> Some (w, Some (Phase_Canceled err)))"

text \<open>Creating the file, the first row, the turns, and the time of the summary afterwards.\<close>

record 'q wait_answers =
  wa_create :: "string option"
  wa_first_now :: instant
  wa_first_write :: "string option"
  wa_turns :: "'q phase_turn list"
  wa_summary_at :: instant

definition wait_for_phase ::
  "codec \<Rightarrow> 'q quantity_ops \<Rightarrow> nat \<Rightarrow> duration \<Rightarrow> 'q wait_answers \<Rightarrow> resource_summary \<Rightarrow> tracker
     \<Rightarrow> (phase_wait \<times> wait_phase_error option) option" where
  "wait_for_phase cd ops i timeout wa resources t =
     (let w = \<lparr>pw_tracker = t, pw_written = [], pw_resources = resources\<rparr>
      in case wa_create wa of
           Some err \<Rightarrow> Some (w, Some (Create_Progress err))
         | None \<Rightarrow>
             (case write_progress i (wa_first_now wa) (wa_first_write wa) Initial_Progress w of
                (w', Some err) \<Rightarrow> Some (w', Some err)
              | (w', None) \<Rightarrow> phase_loop cd ops i timeout (wa_turns wa) w'))"

section \<open>The log of the controller\<close>

record log_pod =
  lp_name :: string
  lp_node :: string
  lp_log :: "(kube_error, string) result"

fun combined_logs :: "log_pod list \<Rightarrow> (kube_error, string) result" where
  "combined_logs [] = Inr []"
| "combined_logs (pod # pods) =
     (case lp_log pod of
        Inl err \<Rightarrow> Inl err
      | Inr raw \<Rightarrow>
          (case combined_logs pods of
             Inl err \<Rightarrow> Inl err
           | Inr rest \<Rightarrow>
               Inr (''# pod='' @ lp_name pod @ '' node='' @ lp_node pod @ [CHR 0x0A] @ raw
                    @ (if raw \<noteq> [] \<and> last raw \<noteq> CHR 0x0A then [CHR 0x0A] else []) @ rest)))"

definition zero_diagnostics :: diagnostics where
  "zero_diagnostics =
     \<lparr>dg_log_bytes = 0, dg_error_lines = 0, dg_log_complete = False, dg_log_warning = False,
      dg_collection_error = False\<rparr>"

text \<open>\<open>collectControllerLogs\<close>, with the error it returns recorded as the caller does.\<close>

definition collect_controller_logs ::
  "(kube_error, log_pod list) result \<Rightarrow> string option \<Rightarrow> diagnostics" where
  "collect_controller_logs pods write_answer =
     (case (case pods of Inl err \<Rightarrow> Inl err | Inr ps \<Rightarrow> combined_logs ps) of
        Inl err \<Rightarrow> zero_diagnostics\<lparr>dg_collection_error := True\<rparr>
      | Inr data \<Rightarrow>
          (summarize_controller_logs data)\<lparr>dg_collection_error := (write_answer \<noteq> None)\<rparr>)"

section \<open>Scripts\<close>

record benchmark_summary =
  bs_run_id :: string
  bs_dataset_id :: string
  bs_namespace_count :: int
  bs_account_count :: int
  bs_started_at :: instant
  bs_setup_seconds :: rat
  bs_cleanup_seconds :: rat
  bs_initial :: "phase_summary option"
  bs_expiry :: "phase_summary option"
  bs_resources :: resource_summary
  bs_diagnostics :: diagnostics
  bs_profile :: "controller_profile option"
  bs_mutation :: "concurrent_mutation_summary option"
  bs_note :: string
  bs_success :: bool

datatype benchmark_call =
    Read_Profile
  | Scale_To int
  | Wait_For_Pods bool
  | Clean_Up string
  | Validate_Dataset string nat
  | Prepare_Workload string "string list"
  | Reset_Secrets "string list"
  | Configure "string list" "string list"
  | Start_Observers string
  | Create_Resource_File
  | Watch_Phase phase_kind
  | Settle
  | Inject
  | Advance_Clock duration
  | Verify_Final
  | Verify_Injection
  | Collect_Logs

datatype benchmark_error =
    Profile_Error profile_error
  | Cluster_Error cluster_error
  | Pods_Error wait_error
  | Cleanup_Error cleanup_error
  | Prepare_Error cluster_error
  | Reset_Error kube_error
  | Pool_Canceled
  | Observer_Error observer_error
  | Resource_File_Error string
  | Phase_Error wait_phase_error
  | Settle_Canceled string
  | Clock_Error kube_error
  | Injection_Error "mutation_error list"
  | Profile_Changed
  | Injection_Check_Error mutation_check_error
  | Cleanup_Of_Run benchmark_error

type_synonym 'a script =
  "benchmark_summary \<Rightarrow> (benchmark_call list \<times> benchmark_summary \<times> (benchmark_error, 'a) result) option"

definition returns :: "'a \<Rightarrow> 'a script" where "returns x s = Some ([], s, Inr x)"
definition fails :: "benchmark_error \<Rightarrow> 'a script" where "fails err s = Some ([], s, Inl err)"

definition attempt :: "benchmark_call \<Rightarrow> (benchmark_error, 'a) result option \<Rightarrow> 'a script" where
  "attempt c answer s = map_option (\<lambda>r. ([c], s, r)) answer"

definition note_in :: "(benchmark_summary \<Rightarrow> benchmark_summary) \<Rightarrow> unit script" where
  "note_in f s = Some ([], f s, Inr ())"

definition and_then :: "'a script \<Rightarrow> ('a \<Rightarrow> 'b script) \<Rightarrow> 'b script" where
  "and_then m f s =
     (case m s of
        None \<Rightarrow> None
      | Some (calls, s', Inl err) \<Rightarrow> Some (calls, s', Inl err)
      | Some (calls, s', Inr x) \<Rightarrow> map_option (\<lambda>(later, r). (calls @ later, r)) (f x s'))"

definition or_error :: "('e \<Rightarrow> benchmark_error) \<Rightarrow> 'e option \<Rightarrow> (benchmark_error, unit) result" where
  "or_error f err = (case err of None \<Rightarrow> Inr () | Some e \<Rightarrow> Inl (f e))"

definition pool_error ::
  "('e \<Rightarrow> benchmark_error) \<Rightarrow> 'e pool_result \<Rightarrow> (benchmark_error, unit) result" where
  "pool_error f r =
     (case r of Pool_Ok \<Rightarrow> Inr () | Pool_Failed e \<Rightarrow> Inl (f e) | Pool_Context_Done \<Rightarrow> Inl Pool_Canceled)"

section \<open>What a run meets\<close>

type_synonym scale_answers =
  "(nat \<Rightarrow> (kube_error, int option) result) \<times> (nat \<Rightarrow> kube_error option)"

type_synonym pod_rounds = "((kube_error, pod list) result \<times> wake) list"

record cleanup_answers =
  ca_listed :: "(kube_error, string list) result"
  ca_deleted :: "kube_error pool"
  ca_rounds :: "((kube_error, string list) result \<times> wake) list"

record 'q benchmark_world =
  bw_started_at :: instant
  bw_profile :: "(kube_error, pod_container list \<times> int) result \<times> instant"
  bw_stop :: scale_answers
  bw_stopped :: pod_rounds
  bw_stale :: cleanup_answers
  bw_dataset :: "(kube_error, string list) result"
  bw_namespaces :: "string \<Rightarrow> namespace_answers"
  bw_prepared :: "cluster_error pool"
  bw_secrets :: "(kube_error, secret list) result"
  bw_reset :: "kube_error pool"
  bw_config_map :: "(nat \<Rightarrow> kube_error option) \<times> (nat \<Rightarrow> kube_error option)"
  bw_observers :: "observer_error option"
  bw_resource_file :: "string option"
  bw_setup_time :: duration
  bw_before_initial :: "tracker_event list"
  bw_initial_started :: instant
  bw_start :: scale_answers
  bw_initial :: "'q wait_answers"
  bw_ready :: pod_rounds
  bw_settled :: "string option"
  bw_before_expiry :: "tracker_event list"
  bw_expiry_started :: instant
  bw_injection :: "injection \<times> tracker"
  bw_advance :: "kube_error option"
  bw_expiry :: "'q wait_answers"
  bw_profile_after :: "(kube_error, pod_container list \<times> int) result \<times> instant"
  bw_final_secrets :: "(kube_error, secret list) result"
  bw_final_accounts :: "(kube_error, service_account list) result"
  bw_late_account :: "(kube_error, service_account) result"
  bw_late_secret :: "(kube_error, secret) result"
  bw_late_accounts :: "string \<Rightarrow> (kube_error, service_account) result"
  bw_logs :: "(kube_error, log_pod list) result \<times> string option"
  bw_close :: scale_answers
  bw_closed :: pod_rounds
  bw_final_cleanup :: cleanup_answers
  bw_cleanup_time :: duration

section \<open>The calls of a run\<close>

text \<open>
  What does not change during a run: the codec of Secrets, the quantities of the metrics, how
  client-go retries and how a duration is printed.
\<close>

record 'q benchmark_setting =
  bg_codec :: codec
  bg_quantities :: "'q quantity_ops"
  bg_retries :: nat
  bg_show_duration :: "duration \<Rightarrow> string"

definition dataset_namespaces :: "driver_options \<Rightarrow> string list" where
  "dataset_namespaces opts = namespace_names (do_dataset_id opts) (nat (do_namespace_count opts))"

definition configured_namespaces :: "driver_options \<Rightarrow> string list" where
  "configured_namespaces opts = dataset_namespaces opts
     @ (if do_inject_during_expiry opts then [concurrent_namespace_name (do_dataset_id opts)] else [])"

definition configured_accounts :: "driver_options \<Rightarrow> string list" where
  "configured_accounts opts = target_service_accounts
     @ (if do_inject_during_expiry opts \<and> \<not> do_inject_namespace_only opts
        then [service_account_late] else [])"

definition scale_call :: "'q benchmark_setting \<Rightarrow> int \<Rightarrow> scale_answers \<Rightarrow> unit script" where
  "scale_call g replicas answers =
     attempt (Scale_To replicas) (Some (or_error Cluster_Error
       (snd (set_deployment_replicas (bg_retries g) replicas (fst answers) (snd answers)))))"

definition pods_call :: "bool \<Rightarrow> pod_rounds \<Rightarrow> unit script" where
  "pods_call want_ready rounds =
     attempt (Wait_For_Pods want_ready)
       (map_option (\<lambda>r. case r of Inl err \<Rightarrow> Inl (Pods_Error err) | Inr _ \<Rightarrow> Inr ())
         (wait_for_controller_pods want_ready rounds))"

definition cleanup_call :: "string \<Rightarrow> cleanup_answers \<Rightarrow> unit script" where
  "cleanup_call dataset ca =
     attempt (Clean_Up dataset) (map_option (or_error Cleanup_Error)
       (cleanup_run (ca_listed ca) (pool_result (ca_deleted ca)) (ca_rounds ca)))"

definition profile_call ::
  "(kube_error, pod_container list \<times> int) result \<times> instant \<Rightarrow> controller_profile script" where
  "profile_call answer =
     attempt Read_Profile (Some (case read_controller_profile (fst answer) (snd answer) of
        Inl err \<Rightarrow> Inl (Profile_Error err) | Inr profile \<Rightarrow> Inr profile))"

text \<open>Until the deferred clean-up is registered.\<close>

definition benchmark_opening ::
  "'q benchmark_setting \<Rightarrow> driver_options \<Rightarrow> 'q benchmark_world \<Rightarrow> controller_profile script" where
  "benchmark_opening g opts w =
     and_then (profile_call (bw_profile w)) (\<lambda>profile0.
       let profile = profile0\<lparr>cp_expiry_trigger := ''fake clock advanced ''
             @ bg_show_duration g (do_clock_advance opts) @ ''; real scheduler and Kubernetes writes''\<rparr>
       in and_then (note_in (\<lambda>s. s\<lparr>bs_profile := Some profile\<rparr>)) (\<lambda>_.
          and_then (scale_call g 0 (bw_stop w)) (\<lambda>_.
          and_then (pods_call False (bw_stopped w)) (\<lambda>_.
          and_then
            (if \<not> do_reuse_dataset opts then cleanup_call (do_dataset_id opts) (bw_stale w)
             else attempt (Validate_Dataset (do_dataset_id opts) (nat (do_namespace_count opts)))
               (Some (or_error Cluster_Error (validate_reusable_dataset (do_dataset_id opts)
                 (nat (do_namespace_count opts)) (bw_dataset w))))) (\<lambda>_.
          returns profile)))))"

text \<open>\<open>resetManagedSecrets\<close>: the list of Secrets and the parallel deletion.\<close>

definition reset_managed_secrets ::
  "(kube_error, secret list) result \<Rightarrow> kube_error pool_result \<Rightarrow> (benchmark_error, unit) result" where
  "reset_managed_secrets listing deleted =
     (case listing of Inl err \<Rightarrow> Inl (Reset_Error err) | Inr _ \<Rightarrow> pool_error Reset_Error deleted)"

definition benchmark_setup ::
  "'q benchmark_setting \<Rightarrow> driver_options \<Rightarrow> 'q benchmark_world \<Rightarrow> unit script" where
  "benchmark_setup g opts w =
     and_then (attempt (Prepare_Workload (do_dataset_id opts) (dataset_namespaces opts))
       (Some (pool_error Prepare_Error (pool_result (bw_prepared w))))) (\<lambda>_.
     and_then (attempt (Reset_Secrets (dataset_namespaces opts))
       (Some (reset_managed_secrets (bw_secrets w) (pool_result (bw_reset w))))) (\<lambda>_.
     and_then (attempt (Configure (configured_namespaces opts) (configured_accounts opts))
       (Some (or_error Cluster_Error (snd (configure_targets (bg_retries g) (configured_namespaces opts)
         (configured_accounts opts) (fst (bw_config_map w)) (snd (bw_config_map w))))))) (\<lambda>_.
     and_then (attempt (Start_Observers (do_dataset_id opts))
       (Some (or_error Observer_Error (bw_observers w)))) (\<lambda>_.
     and_then (attempt Create_Resource_File
       (Some (or_error Resource_File_Error (bw_resource_file w)))) (\<lambda>_.
     note_in (\<lambda>s. s\<lparr>bs_resources := empty_resources,
       bs_setup_seconds := duration_seconds (bw_setup_time w)\<rparr>))))))"

text \<open>
  A wait for a phase and its summary, complete or partial. The resources recorded so far are
  written into the summary with it: nothing else samples them.
\<close>

definition watch_phase ::
  "'q benchmark_setting \<Rightarrow> phase_kind \<Rightarrow> nat \<Rightarrow> duration \<Rightarrow> 'q wait_answers
     \<Rightarrow> (phase_summary \<Rightarrow> benchmark_summary \<Rightarrow> benchmark_summary) \<Rightarrow> tracker
     \<Rightarrow> (tracker \<times> wait_phase_error option) script" where
  "watch_phase g kind i timeout wa store t s =
     (case wait_for_phase (bg_codec g) (bg_quantities g) i timeout wa (bs_resources s) t of
        None \<Rightarrow> None
      | Some (x, err) \<Rightarrow>
          map_option (\<lambda>report. ([Watch_Phase kind],
              store report (s\<lparr>bs_resources := pw_resources x\<rparr>), Inr (pw_tracker x, err)))
            (summary_of (tk_phases (pw_tracker x) ! i) (wa_summary_at wa)))"

definition benchmark_initial ::
  "'q benchmark_setting \<Rightarrow> driver_options \<Rightarrow> 'q benchmark_world \<Rightarrow> tracker script" where
  "benchmark_initial g opts w =
     (let t0 = tracker_run (bg_codec g) (bw_before_initial w)
            (new_tracker (dataset_namespaces opts) target_service_accounts);
          (i, t1) = start_phase Initial_Phase (bw_initial_started w) t0
      in and_then (scale_call g 1 (bw_start w)) (\<lambda>_.
         and_then (watch_phase g Initial_Phase i (do_initial_timeout opts) (bw_initial w)
           (\<lambda>report s. s\<lparr>bs_initial := Some report\<rparr>) t1) (\<lambda>(t2, err).
         and_then (case err of Some e \<Rightarrow> fails (Phase_Error e) | None \<Rightarrow> returns ()) (\<lambda>_.
         and_then (pods_call True (bw_ready w)) (\<lambda>_.
         and_then (attempt Settle (Some (or_error Settle_Canceled (bw_settled w)))) (\<lambda>_.
         returns t2))))))"

text \<open>
  The injection runs beside the wait for the expiry phase; its outcome is taken after the wait, or
  after it was canceled because the clock could not be advanced or the wait failed.
\<close>

definition take_injection ::
  "'q benchmark_setting \<Rightarrow> driver_options \<Rightarrow> 'q benchmark_world \<Rightarrow> mutation_error list script" where
  "take_injection g opts w s =
     (if \<not> do_inject_during_expiry opts then Some ([], s, Inr [])
      else map_option (\<lambda>(outcome, errs). ([], s\<lparr>bs_mutation := Some outcome\<rparr>, Inr errs))
        (run_concurrent_mutation (bg_codec g) (bg_retries g) (do_injection_percent opts)
          (do_inject_namespace_only opts) (do_dataset_id opts) (fst (bw_injection w))
          (snd (bw_injection w))))"

definition benchmark_expiry ::
  "'q benchmark_setting \<Rightarrow> driver_options \<Rightarrow> 'q benchmark_world \<Rightarrow> tracker \<Rightarrow> unit script" where
  "benchmark_expiry g opts w t0 =
     (let (i, t1) = start_phase Expiry_Phase (bw_expiry_started w)
            (tracker_run (bg_codec g) (bw_before_expiry w) t0)
      in and_then (if do_inject_during_expiry opts then attempt Inject (Some (Inr ())) else returns ()) (\<lambda>_.
         and_then (attempt (Advance_Clock (do_clock_advance opts)) (Some (Inr ()))) (\<lambda>_.
         and_then (case bw_advance w of
             Some err \<Rightarrow> and_then (take_injection g opts w) (\<lambda>_. fails (Clock_Error err))
           | None \<Rightarrow> returns ()) (\<lambda>_.
         and_then (watch_phase g Expiry_Phase i (do_expiry_timeout opts) (bw_expiry w)
           (\<lambda>report s. s\<lparr>bs_expiry := Some report\<rparr>) t1) (\<lambda>(_, err).
         and_then (take_injection g opts w) (\<lambda>errs.
         and_then (case err of Some e \<Rightarrow> fails (Phase_Error e) | None \<Rightarrow> returns ()) (\<lambda>_.
         if errs \<noteq> [] then fails (Injection_Error errs) else returns ())))))))"

definition benchmark_verification ::
  "'q benchmark_setting \<Rightarrow> driver_options \<Rightarrow> 'q benchmark_world \<Rightarrow> controller_profile \<Rightarrow> unit script" where
  "benchmark_verification g opts w profile =
     and_then (profile_call (bw_profile_after w)) (\<lambda>verified.
     and_then (if cp_image profile \<noteq> cp_image verified \<or> cp_arguments profile \<noteq> cp_arguments verified
       then fails Profile_Changed else returns ()) (\<lambda>_.
     and_then (note_in (\<lambda>s. s\<lparr>bs_profile := Some (profile\<lparr>cp_generation := cp_generation verified,
       cp_verified_at := cp_observed_at verified, cp_stable := True\<rparr>)\<rparr>)) (\<lambda>_.
     and_then (attempt Verify_Final (Some (or_error Cluster_Error
       (verify_final_state (dataset_namespaces opts) (bw_final_secrets w) (bw_final_accounts w))))) (\<lambda>_.
     and_then (\<lambda>s. if \<not> do_inject_during_expiry opts then returns () s
       else attempt Verify_Injection (Some (or_error Injection_Check_Error
         (verify_mutation_final_state (bg_codec g) (the (bs_mutation s)) (bw_late_account w)
           (bw_late_secret w) (bw_late_accounts w)))) s) (\<lambda>_.
     note_in (\<lambda>s. s\<lparr>bs_success := True\<rparr>))))))"

text \<open>What runs after the deferred clean-up was registered.\<close>

definition benchmark_body ::
  "'q benchmark_setting \<Rightarrow> driver_options \<Rightarrow> 'q benchmark_world \<Rightarrow> controller_profile \<Rightarrow> unit script" where
  "benchmark_body g opts w profile =
     and_then (benchmark_setup g opts w) (\<lambda>_.
     and_then (benchmark_initial g opts w) (\<lambda>t.
     and_then (benchmark_expiry g opts w t) (\<lambda>_.
     benchmark_verification g opts w profile)))"

text \<open>The deferred clean-up; its error is joined to that of the run.\<close>

definition closing_calls ::
  "'q benchmark_setting \<Rightarrow> driver_options \<Rightarrow> 'q benchmark_world \<Rightarrow> unit script" where
  "closing_calls g opts w =
     and_then (attempt Collect_Logs (Some (Inr ()))) (\<lambda>_.
     and_then (note_in (\<lambda>s. s\<lparr>bs_diagnostics :=
       collect_controller_logs (fst (bw_logs w)) (snd (bw_logs w))\<rparr>)) (\<lambda>_.
     and_then (scale_call g 0 (bw_close w)) (\<lambda>_.
     and_then (pods_call False (bw_closed w)) (\<lambda>_.
     if do_retain_dataset opts then returns ()
     else cleanup_call (do_dataset_id opts) (bw_final_cleanup w)))))"

definition close_benchmark ::
  "'q benchmark_setting \<Rightarrow> driver_options \<Rightarrow> 'q benchmark_world \<Rightarrow> benchmark_summary \<Rightarrow> benchmark_error list
     \<Rightarrow> (benchmark_call list \<times> benchmark_summary \<times> benchmark_error list) option" where
  "close_benchmark g opts w s errs =
     map_option (\<lambda>(calls, s', r).
       (let s1 = s'\<lparr>bs_cleanup_seconds := duration_seconds (bw_cleanup_time w)\<rparr>
        in case r of
             Inl err \<Rightarrow> (calls, s1\<lparr>bs_success := False\<rparr>, errs @ [Cleanup_Of_Run err])
           | Inr _ \<Rightarrow> (calls, s1, errs)))
       (closing_calls g opts w s)"

definition start_summary :: "driver_options \<Rightarrow> instant \<Rightarrow> benchmark_summary" where
  "start_summary opts now =
     \<lparr>bs_run_id = do_run_id opts, bs_dataset_id = do_dataset_id opts,
      bs_namespace_count = do_namespace_count opts,
      bs_account_count = do_namespace_count opts * int (length target_service_accounts),
      bs_started_at = now, bs_setup_seconds = 0, bs_cleanup_seconds = 0, bs_initial = None,
      bs_expiry = None, bs_resources = empty_resources, bs_diagnostics = zero_diagnostics,
      bs_profile = None, bs_mutation = None, bs_note = do_environment_note opts, bs_success = False\<rparr>"

definition run_benchmark ::
  "'q benchmark_setting \<Rightarrow> driver_options \<Rightarrow> 'q benchmark_world
     \<Rightarrow> (benchmark_call list \<times> benchmark_summary \<times> benchmark_error list) option" where
  "run_benchmark g opts w =
     (case benchmark_opening g opts w (start_summary opts (bw_started_at w)) of
        None \<Rightarrow> None
      | Some (calls, s, Inl err) \<Rightarrow> Some (calls, s, [err])
      | Some (calls, s, Inr profile) \<Rightarrow>
          (case benchmark_body g opts w profile s of
             None \<Rightarrow> None
           | Some (later, s1, r) \<Rightarrow>
               let errs = (case r of Inl err \<Rightarrow> [err] | Inr _ \<Rightarrow> [])
               in if do_keep_resources opts then Some (calls @ later, s1, errs)
                  else map_option (\<lambda>(closing, r'). (calls @ later @ closing, r'))
                    (close_benchmark g opts w s1 errs)))"

definition cleanup_only ::
  "'q benchmark_setting \<Rightarrow> driver_options \<Rightarrow> scale_answers \<Rightarrow> pod_rounds \<Rightarrow> cleanup_answers \<Rightarrow> unit script"
where
  "cleanup_only g opts scale pods ca =
     and_then (scale_call g 0 scale) (\<lambda>_.
     and_then (pods_call False pods) (\<lambda>_.
     cleanup_call (do_dataset_id opts) ca))"

text \<open>
  \<open>main\<close>: the exit code. The client, the output directory and the file of the summary may fail;
  the outcome of a clean-up or of a run is \<open>None\<close> when it does not return.
\<close>

definition driver_main ::
  "'q benchmark_setting \<Rightarrow> driver_env \<Rightarrow> string list \<Rightarrow> bool \<Rightarrow> (scale_answers \<times> pod_rounds \<times> cleanup_answers)
     \<Rightarrow> bool \<Rightarrow> 'q benchmark_world \<Rightarrow> bool \<Rightarrow> int option" where
  "driver_main g env args client cleanup directory w stored =
     (case parse_driver_options env args of
        Inl _ \<Rightarrow> Some 2
      | Inr opts \<Rightarrow>
          if \<not> client then Some 1
          else if do_cleanup_only opts
          then map_option (\<lambda>(_, _, r). case r of Inl _ \<Rightarrow> 1 | Inr _ \<Rightarrow> 0)
            (cleanup_only g opts (fst cleanup) (fst (snd cleanup)) (snd (snd cleanup))
              (start_summary opts (bw_started_at w)))
          else if \<not> directory then Some 1
          else map_option (\<lambda>(_, _, errs). if errs \<noteq> [] \<or> \<not> stored then 1 else 0)
            (run_benchmark g opts w))"

section \<open>Scripts that succeed\<close>

lemma script_ok:
  "returns x s = Some (calls, s', Inr y) \<longleftrightarrow> calls = [] \<and> s' = s \<and> y = x"
  "fails err s = Some (calls, s', Inr y) \<longleftrightarrow> False"
  "attempt c answer s = Some (calls, s', Inr y) \<longleftrightarrow> calls = [c] \<and> s' = s \<and> answer = Some (Inr y)"
  "note_in f s = Some (calls, s', Inr z) \<longleftrightarrow> calls = [] \<and> s' = f s"
  "or_error h e = Inr z \<longleftrightarrow> e = None"
  "pool_error k r = Inr z \<longleftrightarrow> r = Pool_Ok"
  by (auto simp: returns_def fails_def attempt_def note_in_def or_error_def pool_error_def
    split: option.splits pool_result.splits)

lemma and_then_ok:
  "and_then m f s = Some (calls, s', Inr y) \<longleftrightarrow>
     (\<exists>c1 s1 x c2. m s = Some (c1, s1, Inr x) \<and> f x s1 = Some (c2, s', Inr y) \<and> calls = c1 @ c2)"
  by (auto simp: and_then_def split: option.splits sum.splits)

section \<open>Phases that close\<close>

lemma step_kind:
  assumes wf: "tracker_wf t" and i: "i < length (tk_phases t)"
  shows "i < length (tk_phases (tracker_step cd e t))
    \<and> tp_kind (tk_phases (tracker_step cd e t) ! i) = tp_kind (tk_phases t ! i)"
proof (cases "is_start e")
  case True
  with i show ?thesis
    by (cases e) (auto simp: is_start_def tracker_step_def start_phase_def nth_append)
next
  case False
  show ?thesis
  proof (cases "tk_current t")
    case None
    with False have "tk_phases (tracker_step cd e t) = tk_phases t"
      by (cases e) (simp_all add: tracker_step_def is_start_def mark_defs start_concurrent_mutation_def)
    with i show ?thesis by simp
  next
    case (Some j)
    with wf have "j < length (tk_phases t)" by (simp add: tracker_wf_def)
    from step_phases [OF False Some this, of cd] i show ?thesis
      by (cases "i = j") simp_all
  qed
qed

lemma run_kind:
  "tracker_wf t \<Longrightarrow> i < length (tk_phases t) \<Longrightarrow>
     i < length (tk_phases (tracker_run cd es t))
     \<and> tp_kind (tk_phases (tracker_run cd es t) ! i) = tp_kind (tk_phases t ! i)"
proof (induction es arbitrary: t)
  case (Cons e es)
  from step_kind [OF Cons.prems, of cd e] Cons.IH [OF tracker_step_wf [OF Cons.prems(1)], of cd e]
  show ?case by simp
qed simp

lemma write_progress_tracker [simp]:
  "write_progress i now answer err w = (w', r) \<Longrightarrow> pw_tracker w' = pw_tracker w"
  by (auto simp: write_progress_def split: option.splits)

lemma phase_loop_tracker:
  "phase_loop cd ops i timeout turns w = Some (w', r) \<Longrightarrow>
     (\<exists>es. pw_tracker w' = tracker_run cd es (pw_tracker w))
     \<and> (r = None \<longrightarrow> tp_done (tk_phases (pw_tracker w') ! i))"
proof (induction turns arbitrary: w)
  case (Cons turn turns)
  let ?w = "w\<lparr>pw_tracker := tracker_run cd (pt_events turn) (pw_tracker w)\<rparr>"
  have further: "?case" if loop: "phase_loop cd ops i timeout turns x = Some (w', r)"
    and same: "pw_tracker x = pw_tracker ?w" for x
  proof -
    from Cons.IH [OF loop] obtain es where "pw_tracker w' = tracker_run cd es (pw_tracker ?w)"
      and closed: "r = None \<longrightarrow> tp_done (tk_phases (pw_tracker w') ! i)" using same by auto
    then have "pw_tracker w' = tracker_run cd (pt_events turn @ es) (pw_tracker w)" by simp
    with closed show ?thesis by blast
  qed
  show ?case
  proof (cases "pt_wake turn")
    case Phase_Closed
    with Cons.prems show ?thesis
      by (auto simp: Let_def take_sample_def dest: write_progress_tracker split: if_splits)
  next
    case Sample_Tick
    obtain x e where x: "write_progress i (pt_now turn) (pt_write turn) Progress_Write ?w = (x, e)" by force
    with write_progress_tracker have tracker: "pw_tracker x = pw_tracker ?w" by blast
    show ?thesis
    proof (cases e)
      case None
      with Cons.prems Sample_Tick x have "phase_loop cd ops i timeout turns x = Some (w', r)"
        by (simp add: Let_def)
      from further [OF this tracker] show ?thesis .
    next
      case (Some err)
      with Cons.prems Sample_Tick x tracker show ?thesis by (auto simp: Let_def)
    qed
  next
    case Log_Tick
    with Cons.prems have "phase_loop cd ops i timeout turns ?w = Some (w', r)" by (simp add: Let_def)
    from further [OF this refl] show ?thesis .
  next
    case Resource_Tick
    with Cons.prems have "phase_loop cd ops i timeout turns (take_sample ops turn ?w) = Some (w', r)"
      by (simp add: Let_def)
    from further [OF this] show ?thesis by (simp add: take_sample_def)
  next
    case Phase_Deadline
    with Cons.prems show ?thesis by (auto simp: Let_def)
  next
    case (Phase_Context err)
    with Cons.prems show ?thesis by (auto simp: Let_def)
  qed
qed simp

lemma wait_for_phase_tracker:
  assumes "wait_for_phase cd ops i timeout wa resources t = Some (w', r)"
  shows "(\<exists>es. pw_tracker w' = tracker_run cd es t)
    \<and> (r = None \<longrightarrow> tp_done (tk_phases (pw_tracker w') ! i))"
proof -
  have here: "\<exists>es. t = tracker_run cd es t" by (rule exI [of _ "[]"]) simp
  show ?thesis
  proof (cases "wa_create wa")
    case None
    let ?w = "\<lparr>pw_tracker = t, pw_written = [], pw_resources = resources\<rparr>"
    obtain x e where x: "write_progress i (wa_first_now wa) (wa_first_write wa) Initial_Progress ?w = (x, e)"
      by force
    with write_progress_tracker have tracker: "pw_tracker x = t" by fastforce
    show ?thesis
    proof (cases e)
      case None
      with assms x \<open>wa_create wa = None\<close> have "phase_loop cd ops i timeout (wa_turns wa) x = Some (w', r)"
        by (simp add: wait_for_phase_def)
      from phase_loop_tracker [OF this] show ?thesis by (simp add: tracker)
    qed (use assms x here tracker \<open>wa_create wa = None\<close> in \<open>auto simp: wait_for_phase_def\<close>)
  qed (use assms here in \<open>auto simp: wait_for_phase_def\<close>)
qed

section \<open>What a closed phase reports\<close>

lemma calculate_stats_count: "calculate_stats vals = Some s \<Longrightarrow> cs_count s = length vals"
proof -
  assume "calculate_stats vals = Some s"
  then have "cs_count s = length (sort (map (\<lambda>(_, d). duration_seconds d) vals))"
    unfolding calculate_stats_def Let_def by (auto simp: bind_eq_Some_conv simp del: length_sort split: if_split_asm)
  then show ?thesis by simp
qed

lemma account_keys_distinct:
  "distinct nss \<Longrightarrow> distinct (map (\<lambda>(ns, name). account_key ns name) (List.product nss target_service_accounts))"
proof -
  have "account_key ns name = account_key ns' name' \<longleftrightarrow> ns = ns' \<and> name = name'"
    if "name \<in> set target_service_accounts" "name' \<in> set target_service_accounts" for ns ns' name name'
  proof
    assume eq: "account_key ns name = account_key ns' name'"
    then have "last (account_key ns name) = last (account_key ns' name')" by simp
    with that have "name = name'"
      by (auto simp: account_key_def target_service_accounts_def service_account_default_def
        service_account_workload_def)
    with eq show "ns = ns' \<and> name = name'" by (simp add: account_key_def)
  qed simp
  then have "inj_on (\<lambda>(ns, name). account_key ns name) (set (List.product nss target_service_accounts))"
    by (auto simp: inj_on_def)
  moreover assume "distinct nss"
  moreover have "distinct target_service_accounts" by code_simp
  ultimately show ?thesis by (simp add: distinct_map distinct_product)
qed

lemma wf_length: "gm_wf m \<Longrightarrow> length m = card {k. gm_get m k \<noteq> None}"
proof -
  assume "gm_wf m"
  then have "card (set (gm_keys m)) = length (gm_keys m)"
    using gm.wf_keys distinct_card by blast
  moreover have "set (gm_keys m) = {k. gm_get m k \<noteq> None}" by (auto simp: gm_keys_get)
  ultimately show ?thesis by (simp add: gm_keys_def)
qed

lemma new_tracker_sizes:
  assumes "distinct nss"
  shows "length (tk_target_namespaces (new_tracker nss target_service_accounts)) = length nss"
    and "length (tk_target_accounts (new_tracker nss target_service_accounts))
      = length nss * length target_service_accounts"
proof -
  let ?t = "new_tracker nss target_service_accounts"
  have wf: "gm_wf (tk_target_namespaces ?t)" "gm_wf (tk_target_accounts ?t)"
    using new_tracker_wf [of nss target_service_accounts] by (simp_all add: tracker_wf_def)
  have "{k. gm_get (tk_target_namespaces ?t) k \<noteq> None} = set nss" unfolding new_tracker_targets by simp
  with wf assms show "length (tk_target_namespaces ?t) = length nss"
    by (simp add: wf_length distinct_card)
  let ?keys = "map (\<lambda>(ns, name). account_key ns name) (List.product nss target_service_accounts)"
  have "{k. gm_get (tk_target_accounts ?t) k \<noteq> None} = set ?keys"
    unfolding new_tracker_targets by (auto simp: image_iff)
  then have "length (tk_target_accounts ?t) = card (set ?keys)" using wf(2) by (simp only: wf_length)
  also have "\<dots> = length ?keys" by (rule distinct_card [OF account_keys_distinct [OF assms]])
  also have "\<dots> = length nss * length target_service_accounts" by (simp add: length_product)
  finally show "length (tk_target_accounts ?t) = length nss * length target_service_accounts" .
qed

lemma closed_phase_report:
  assumes nss: "distinct nss" and t: "t = tracker_run cd es (new_tracker nss target_service_accounts)"
    and i: "i < length (tk_phases t)" and closed: "tp_done (tk_phases t ! i)"
    and report: "summary_of (tk_phases t ! i) now = Some r"
  shows "cs_count (ps_secret_completion r) = length nss"
    and "tp_kind (tk_phases t ! i) = Initial_Phase \<Longrightarrow>
      cs_count (ps_account_completion r) = length nss * length target_service_accounts"
proof -
  let ?p = "tk_phases t ! i"
  have "tracker_wf t" unfolding t by (intro tracker_run_wf new_tracker_wf)
  with i have ok: "phase_ok (tk_target_namespaces t) (tk_target_accounts t) ?p"
    by (simp add: tracker_wf_def)
  then have converged: "phase_converged ?p" using closed by (simp add: phase_ok_def)
  have sizes: "length (tk_target_namespaces t) = length nss"
    "length (tk_target_accounts t) = length nss * length target_service_accounts"
    using new_tracker_sizes [OF nss] by (simp_all add: t)
  from report obtain a b where "calculate_stats (tp_secret_durations ?p) = Some a"
    "calculate_stats (tp_account_durations ?p) = Some b"
    "ps_secret_completion r = a" "ps_account_completion r = b"
    by (auto simp: summary_of_def Let_def bind_eq_Some_conv)
  then have counts: "cs_count (ps_secret_completion r) = length (tp_secret_durations ?p)"
    "cs_count (ps_account_completion r) = length (tp_account_durations ?p)"
    using calculate_stats_count by auto
  have "length (tp_secret_durations ?p) = tp_secret_total ?p"
    "tp_secret_total ?p = length (tk_target_namespaces t)"
    using ok converged unfolding phase_ok_def phase_converged_def by blast+
  then show "cs_count (ps_secret_completion r) = length nss" by (simp only: counts sizes)
  assume "tp_kind ?p = Initial_Phase"
  then have "length (tp_account_durations ?p) = tp_account_total ?p"
    "tp_account_total ?p = length (tk_target_accounts t)"
    using ok converged unfolding phase_ok_def phase_converged_def by blast+
  then show "cs_count (ps_account_completion r) = length nss * length target_service_accounts"
    by (simp only: counts sizes)
qed

section \<open>A run that succeeds\<close>

text \<open>A script that leaves the verdict of the summary alone, always or when it fails.\<close>

definition quiet :: "'a script \<Rightarrow> bool" where
  "quiet m \<longleftrightarrow> (\<forall>s calls s' r. m s = Some (calls, s', r) \<longrightarrow> bs_success s' = bs_success s)"

definition fails_quietly :: "'a script \<Rightarrow> bool" where
  "fails_quietly m \<longleftrightarrow>
     (\<forall>s calls s' err. m s = Some (calls, s', Inl err) \<longrightarrow> bs_success s' = bs_success s)"

named_theorems quiet_intros

lemma quiet_basic [quiet_intros]:
  "quiet (returns x)" "quiet (fails err)" "quiet (attempt c answer)"
  "(\<And>s. bs_success (f s) = bs_success s) \<Longrightarrow> quiet (note_in f)"
  "quiet (scale_call g n scaled)" "quiet (pods_call want rounds)" "quiet (cleanup_call d ca)"
  "quiet (profile_call deployment)"
  by (auto simp: quiet_def returns_def fails_def attempt_def note_in_def scale_call_def pods_call_def
    cleanup_call_def profile_call_def)

lemma quiet_and_then [quiet_intros]:
  "quiet m \<Longrightarrow> (\<And>x. quiet (f x)) \<Longrightarrow> quiet (and_then m f)"
  unfolding quiet_def and_then_def by (fastforce split: option.splits sum.splits)

lemma fails_quietly_and_then:
  "quiet m \<Longrightarrow> (\<And>x. fails_quietly (f x)) \<Longrightarrow> fails_quietly (and_then m f)"
  unfolding quiet_def fails_quietly_def and_then_def by (fastforce split: option.splits sum.splits)

lemma fails_quietly_note: "fails_quietly (note_in f)"
  by (simp add: fails_quietly_def note_in_def)

lemma quiet_watch [quiet_intros]:
  "(\<And>report s. bs_success (store report s) = bs_success s)
     \<Longrightarrow> quiet (watch_phase g kind i timeout wa store t)"
  by (auto simp: quiet_def watch_phase_def split: option.splits)

lemma quiet_injection [quiet_intros]: "quiet (take_injection g opts w)"
  by (auto simp: quiet_def take_injection_def)

lemma quiet_options [quiet_intros]:
  "(b \<Longrightarrow> quiet m) \<Longrightarrow> (\<not> b \<Longrightarrow> quiet m') \<Longrightarrow> quiet (if b then m else m')"
  "quiet n \<Longrightarrow> (\<And>e. quiet (h e)) \<Longrightarrow> quiet (case r of None \<Rightarrow> n | Some e \<Rightarrow> h e)"
  "(\<And>a b. quiet (k a b)) \<Longrightarrow> quiet (case p of (a, b) \<Rightarrow> k a b)"
  by (auto split: option.split prod.split)

lemma quiet_parts:
  "quiet (benchmark_opening g opts w)" "quiet (benchmark_setup g opts w)"
  "quiet (benchmark_initial g opts w)" "quiet (benchmark_expiry g opts w t)"
  unfolding benchmark_opening_def benchmark_setup_def benchmark_initial_def benchmark_expiry_def Let_def
  by (intro quiet_intros; simp)+

lemma body_fails_quietly: "fails_quietly (benchmark_body g opts w profile)"
proof -
  have verify: "quiet (\<lambda>s. if \<not> do_inject_during_expiry opts then returns () s
       else attempt Verify_Injection (Some (h s)) s)" for h :: "benchmark_summary \<Rightarrow> (benchmark_error, unit) result"
    unfolding quiet_def by (auto simp: returns_def attempt_def split: if_splits)
  have "fails_quietly (benchmark_verification g opts w profile)"
    unfolding benchmark_verification_def
    by (intro fails_quietly_and_then fails_quietly_note verify quiet_intros; simp)
  then show ?thesis unfolding benchmark_body_def
    by (intro fails_quietly_and_then quiet_parts)
qed

lemma run_mutation_success:
  "run_concurrent_mutation cd retries percent namespace_only run_id ij t = Some (m, []) \<Longrightarrow> ms_success m"
  by (auto simp: run_concurrent_mutation_def Let_def split: option.splits sum.splits prod.splits if_splits)

lemma watch_closed:
  assumes watch: "watch_phase g kind i timeout wa store t s = Some (calls, s', Inr (t', None))"
    and t: "t = tracker_run cd es (new_tracker nss target_service_accounts)" "cd = bg_codec g"
    and nss: "distinct nss" and i: "i < length (tk_phases t)" "tp_kind (tk_phases t ! i) = kind"
  shows "\<exists>report s1. s' = store report s1 \<and> s1 = s\<lparr>bs_resources := bs_resources s1\<rparr>
    \<and> cs_count (ps_secret_completion report) = length nss
    \<and> (kind = Initial_Phase \<longrightarrow>
         cs_count (ps_account_completion report) = length nss * length target_service_accounts)
    \<and> (\<exists>es'. t' = tracker_run cd es' (new_tracker nss target_service_accounts))"
proof -
  from watch obtain x report where
    wait: "wait_for_phase cd (bg_quantities g) i timeout wa (bs_resources s) t = Some (x, None)"
    and report: "summary_of (tk_phases (pw_tracker x) ! i) (wa_summary_at wa) = Some report"
    and s': "s' = store report (s\<lparr>bs_resources := pw_resources x\<rparr>)" "t' = pw_tracker x"
    by (auto simp: watch_phase_def t(2) split: option.splits)
  from wait_for_phase_tracker [OF wait] obtain es' where
    es': "pw_tracker x = tracker_run cd es' t" and closed: "tp_done (tk_phases (pw_tracker x) ! i)"
    by auto
  then have run: "pw_tracker x = tracker_run cd (es @ es') (new_tracker nss target_service_accounts)"
    by (simp add: t(1))
  have "tracker_wf t" unfolding t(1) by (intro tracker_run_wf new_tracker_wf)
  from run_kind [OF this i(1), of cd es'] have "i < length (tk_phases (pw_tracker x))"
    "tp_kind (tk_phases (pw_tracker x) ! i) = kind" by (simp_all add: es' i(2))
  with closed_phase_report [OF nss run _ closed report] s' run show ?thesis by fastforce
qed

text \<open>What each part has established when it did not fail.\<close>

lemma setup_ok:
  "benchmark_setup g opts w s = Some (calls, s', Inr u) \<Longrightarrow> pool_result (bw_prepared w) = Pool_Ok"
  by (auto simp: benchmark_setup_def and_then_ok script_ok)

lemma start_phase_facts:
  assumes "start_phase kind started t = (i, t')"
  shows "i < length (tk_phases t')" "tp_kind (tk_phases t' ! i) = kind"
    "t' = tracker_run cd [Start_Phase kind started] t"
  using assms by (auto simp: start_phase_def new_phase_def tracker_step_def)

lemma initial_ok:
  assumes "benchmark_initial g opts w s = Some (calls, s', Inr t)"
  shows "(\<exists>report. bs_initial s' = Some report
      \<and> cs_count (ps_secret_completion report) = length (dataset_namespaces opts)
      \<and> cs_count (ps_account_completion report)
          = length (dataset_namespaces opts) * length target_service_accounts)
    \<and> (\<exists>es. t = tracker_run (bg_codec g) es (new_tracker (dataset_namespaces opts) target_service_accounts))"
proof -
  let ?cd = "bg_codec g" and ?n = "new_tracker (dataset_namespaces opts) target_service_accounts"
  obtain i t1 where start: "start_phase Initial_Phase (bw_initial_started w)
      (tracker_run ?cd (bw_before_initial w) ?n) = (i, t1)" by force
  from assms obtain c s1 where watch: "watch_phase g Initial_Phase i (do_initial_timeout opts) (bw_initial w)
      (\<lambda>report s. s\<lparr>bs_initial := Some report\<rparr>) t1 s = Some (c, s1, Inr (t, None))" "s' = s1"
    by (auto simp: benchmark_initial_def Let_def start and_then_ok script_ok scale_call_def pods_call_def
      split: option.splits)
  note facts = start_phase_facts(1,2) [OF start] start_phase_facts(3) [OF start, where cd = ?cd]
  have t1: "t1 = tracker_run ?cd (bw_before_initial w @ [Start_Phase Initial_Phase (bw_initial_started w)]) ?n"
    using facts(3) by simp
  have nss: "distinct (dataset_namespaces opts)" by (simp add: dataset_namespaces_def namespace_names_facts)
  from watch_closed [OF watch(1) t1 refl nss facts(1,2)] watch(2) show ?thesis by auto
qed

lemma expiry_ok:
  assumes run: "benchmark_expiry g opts w t s = Some (calls, s', Inr u)"
    and t: "t = tracker_run (bg_codec g) es (new_tracker (dataset_namespaces opts) target_service_accounts)"
  shows "bs_initial s' = bs_initial s"
    and "\<exists>report. bs_expiry s' = Some report
      \<and> cs_count (ps_secret_completion report) = length (dataset_namespaces opts)"
    and "do_inject_during_expiry opts \<Longrightarrow> \<exists>m. bs_mutation s' = Some m \<and> ms_success m"
proof -
  let ?cd = "bg_codec g" and ?n = "new_tracker (dataset_namespaces opts) target_service_accounts"
  let ?t0 = "tracker_run ?cd (bw_before_expiry w) t"
  obtain i t1 where start: "start_phase Expiry_Phase (bw_expiry_started w) ?t0 = (i, t1)" by force
  have "\<exists>c s1 t2 c2. watch_phase g Expiry_Phase i (do_expiry_timeout opts) (bw_expiry w)
      (\<lambda>report s. s\<lparr>bs_expiry := Some report\<rparr>) t1 s = Some (c, s1, Inr (t2, None))
    \<and> take_injection g opts w s1 = Some (c2, s', Inr [])"
    using run
    by (cases "bw_advance w")
       (auto simp: benchmark_expiry_def start and_then_ok script_ok split: option.splits if_splits)
  then obtain c s1 t2 c2 where watch: "watch_phase g Expiry_Phase i (do_expiry_timeout opts) (bw_expiry w)
      (\<lambda>report s. s\<lparr>bs_expiry := Some report\<rparr>) t1 s = Some (c, s1, Inr (t2, None))"
    and injection: "take_injection g opts w s1 = Some (c2, s', Inr [])" by blast
  note facts = start_phase_facts(1,2) [OF start] start_phase_facts(3) [OF start, where cd = ?cd]
  have t1: "t1 = tracker_run ?cd
      (es @ bw_before_expiry w @ [Start_Phase Expiry_Phase (bw_expiry_started w)]) ?n"
    using facts(3) by (simp add: t)
  have nss: "distinct (dataset_namespaces opts)" by (simp add: dataset_namespaces_def namespace_names_facts)
  obtain report s0 where s1: "s1 = s0\<lparr>bs_expiry := Some report\<rparr>" "s0 = s\<lparr>bs_resources := bs_resources s0\<rparr>"
    "cs_count (ps_secret_completion report) = length (dataset_namespaces opts)"
    using watch_closed [OF watch t1 refl nss facts(1,2)] by blast
  have kept: "bs_initial s' = bs_initial s1" "bs_expiry s' = bs_expiry s1"
    using injection by (auto simp: take_injection_def split: if_splits)
  have "bs_initial s0 = bs_initial s" by (subst s1(2)) simp
  then show "bs_initial s' = bs_initial s" by (simp add: kept s1(1))
  show "\<exists>report. bs_expiry s' = Some report
      \<and> cs_count (ps_secret_completion report) = length (dataset_namespaces opts)"
    by (simp add: kept s1(1,3))
  show "\<exists>m. bs_mutation s' = Some m \<and> ms_success m" if "do_inject_during_expiry opts"
    using injection that run_mutation_success by (fastforce simp: take_injection_def)
qed

lemma verification_ok:
  assumes "benchmark_verification g opts w profile s = Some (calls, s', Inr u)"
  shows "bs_success s' \<and> bs_initial s' = bs_initial s \<and> bs_expiry s' = bs_expiry s \<and> bs_mutation s' = bs_mutation s
    \<and> (\<exists>profile. bs_profile s' = Some profile \<and> cp_stable profile)
    \<and> verify_final_state (dataset_namespaces opts) (bw_final_secrets w) (bw_final_accounts w) = None
    \<and> (do_inject_during_expiry opts \<longrightarrow> verify_mutation_final_state (bg_codec g) (the (bs_mutation s))
         (bw_late_account w) (bw_late_secret w) (bw_late_accounts w) = None)"
  using assms
  by (auto simp: benchmark_verification_def profile_call_def and_then_ok script_ok split: if_splits)

lemma closing_facts:
  assumes "closing_calls g opts w s = Some (calls, s', r)"
  shows "s' = s\<lparr>bs_diagnostics := bs_diagnostics s'\<rparr>"
    and "\<exists>after done. calls = [Collect_Logs, Scale_To 0] @ after
      \<and> after @ done = Wait_For_Pods False # (if do_retain_dataset opts then [] else [Clean_Up (do_dataset_id opts)])"
    and "r = Inr () \<Longrightarrow> snd (set_deployment_replicas (bg_retries g) 0 (fst (bw_close w)) (snd (bw_close w))) = None
      \<and> (\<exists>pods. wait_for_controller_pods False (bw_closed w) = Some (Inr pods))
      \<and> (do_retain_dataset opts \<or> cleanup_run (ca_listed (bw_final_cleanup w))
           (pool_result (ca_deleted (bw_final_cleanup w))) (ca_rounds (bw_final_cleanup w)) = Some None)
      \<and> calls = [Collect_Logs, Scale_To 0, Wait_For_Pods False]
          @ (if do_retain_dataset opts then [] else [Clean_Up (do_dataset_id opts)])"
  using assms
  by (auto simp: closing_calls_def and_then_def attempt_def note_in_def scale_call_def pods_call_def
    cleanup_call_def returns_def or_error_def split: option.splits sum.splits if_splits)

lemma body_ok:
  assumes "benchmark_body g opts w profile s = Some (calls, s', Inr u)"
  shows "bs_success s' \<and> pool_result (bw_prepared w) = Pool_Ok
    \<and> (\<exists>initial expiry. bs_initial s' = Some initial \<and> bs_expiry s' = Some expiry
         \<and> cs_count (ps_secret_completion initial) = length (dataset_namespaces opts)
         \<and> cs_count (ps_account_completion initial)
             = length (dataset_namespaces opts) * length target_service_accounts
         \<and> cs_count (ps_secret_completion expiry) = length (dataset_namespaces opts))
    \<and> (\<exists>profile. bs_profile s' = Some profile \<and> cp_stable profile)
    \<and> verify_final_state (dataset_namespaces opts) (bw_final_secrets w) (bw_final_accounts w) = None
    \<and> (do_inject_during_expiry opts \<longrightarrow> (\<exists>m. bs_mutation s' = Some m \<and> ms_success m
         \<and> verify_mutation_final_state (bg_codec g) m (bw_late_account w) (bw_late_secret w)
             (bw_late_accounts w) = None))"
proof -
  from assms obtain c1 s1 u1 c2 s2 t c3 s3 u3 c4 where
    prepared: "benchmark_setup g opts w s = Some (c1, s1, Inr u1)"
    and initial: "benchmark_initial g opts w s1 = Some (c2, s2, Inr t)"
    and expiry: "benchmark_expiry g opts w t s2 = Some (c3, s3, Inr u3)"
    and verification: "benchmark_verification g opts w profile s3 = Some (c4, s', Inr u)"
    unfolding benchmark_body_def and_then_ok by blast
  from initial_ok [OF initial] obtain es where
    t: "t = tracker_run (bg_codec g) es (new_tracker (dataset_namespaces opts) target_service_accounts)"
    by blast
  note v = verification_ok [OF verification] and e = expiry_ok [OF expiry t]
  have "\<exists>m. bs_mutation s' = Some m \<and> ms_success m
      \<and> verify_mutation_final_state (bg_codec g) m (bw_late_account w) (bw_late_secret w)
          (bw_late_accounts w) = None" if "do_inject_during_expiry opts"
    using e(3) [OF that] v that by auto
  moreover have "\<exists>i x. bs_initial s' = Some i \<and> bs_expiry s' = Some x
      \<and> cs_count (ps_secret_completion i) = length (dataset_namespaces opts)
      \<and> cs_count (ps_account_completion i)
          = length (dataset_namespaces opts) * length target_service_accounts
      \<and> cs_count (ps_secret_completion x) = length (dataset_namespaces opts)"
    using initial_ok [OF initial] e(1,2) v by auto
  ultimately show ?thesis using v setup_ok [OF prepared] by blast
qed

text \<open>The parts of a run: the opening, and if it succeeds the body and the deferred clean-up.\<close>

lemma run_benchmark_parts:
  assumes "run_benchmark g opts w = Some (calls, s, errs)"
  obtains (opened) err where
    "benchmark_opening g opts w (start_summary opts (bw_started_at w)) = Some (calls, s, Inl err)"
    "errs = [err]"
  | (kept) c1 s1 profile c2 r where
    "benchmark_opening g opts w (start_summary opts (bw_started_at w)) = Some (c1, s1, Inr profile)"
    "benchmark_body g opts w profile s1 = Some (c2, s, r)" "do_keep_resources opts"
    "calls = c1 @ c2" "errs = (case r of Inl err \<Rightarrow> [err] | Inr _ \<Rightarrow> [])"
  | (closed) c1 s1 profile c2 s2 r c3 s3 r' where
    "benchmark_opening g opts w (start_summary opts (bw_started_at w)) = Some (c1, s1, Inr profile)"
    "benchmark_body g opts w profile s1 = Some (c2, s2, r)" "\<not> do_keep_resources opts"
    "closing_calls g opts w s2 = Some (c3, s3, r')" "calls = c1 @ c2 @ c3"
    "s = (case r' of Inl _ \<Rightarrow> s3\<lparr>bs_cleanup_seconds := duration_seconds (bw_cleanup_time w), bs_success := False\<rparr>
        | Inr _ \<Rightarrow> s3\<lparr>bs_cleanup_seconds := duration_seconds (bw_cleanup_time w)\<rparr>)"
    "errs = (case r of Inl err \<Rightarrow> [err] | Inr _ \<Rightarrow> [])
        @ (case r' of Inl err \<Rightarrow> [Cleanup_Of_Run err] | Inr _ \<Rightarrow> [])"
proof (cases "benchmark_opening g opts w (start_summary opts (bw_started_at w))")
  case None
  with assms show thesis by (simp add: run_benchmark_def)
next
  case (Some first)
  obtain c1 s1 r1 where first: "first = (c1, s1, r1)" by (cases first) auto
  show thesis
  proof (cases r1)
    case (Inl err)
    with assms Some first show thesis by (intro opened) (auto simp: run_benchmark_def)
  next
    case (Inr profile)
    note begun = Some [unfolded first Inr]
    with assms obtain c2 s2 r where body: "benchmark_body g opts w profile s1 = Some (c2, s2, r)"
      by (auto simp: run_benchmark_def split: option.splits)
    let ?errs = "case r of Inl err \<Rightarrow> [err] | Inr _ \<Rightarrow> []"
    show thesis
    proof (cases "do_keep_resources opts")
      case True
      with assms begun body show thesis by (intro kept) (auto simp: run_benchmark_def Let_def)
    next
      case False
      with assms begun body obtain c3 where c3: "close_benchmark g opts w s2 ?errs = Some (c3, s, errs)"
        "calls = c1 @ c2 @ c3"
        by (auto simp: run_benchmark_def Let_def)
      then obtain c3' s3 r' where closing: "closing_calls g opts w s2 = Some (c3', s3, r')"
        by (auto simp: close_benchmark_def)
      from c3(1) have "c3' = c3 \<and> s = (case r' of
          Inl _ \<Rightarrow> s3\<lparr>bs_cleanup_seconds := duration_seconds (bw_cleanup_time w), bs_success := False\<rparr>
        | Inr _ \<Rightarrow> s3\<lparr>bs_cleanup_seconds := duration_seconds (bw_cleanup_time w)\<rparr>)
        \<and> errs = ?errs @ (case r' of Inl err \<Rightarrow> [Cleanup_Of_Run err] | Inr _ \<Rightarrow> [])"
        by (cases r') (auto simp: close_benchmark_def closing Let_def)
      with closed [OF begun body False] closing c3(2) show thesis by blast
    qed
  qed
qed

text \<open>The pool that prepared the workload: its operation on each Namespace.\<close>

definition pool_run :: "(string \<Rightarrow> 'e option) \<Rightarrow> string list \<Rightarrow> int \<Rightarrow> 'e pool \<Rightarrow> bool" where
  "pool_run operation items workers s \<longleftrightarrow>
     pool_reach (new_pool items workers) s \<and> pool_final s
     \<and> (\<forall>(item, r) \<in> set (pl_log s). r = operation item)"

lemma pool_run_ok:
  assumes "pool_run operation items workers s" "0 < workers" "pool_result s = Pool_Ok" "item \<in> set items"
  shows "operation item = None"
proof -
  from assms pool_all_done [of items workers s] have
    log: "mset (map fst (pl_log s)) = mset items" "\<forall>(_, r) \<in> set (pl_log s). r = None"
    by (auto simp: pool_run_def)
  from log(1) have "set (map fst (pl_log s)) = set items" by (rule mset_eq_setD)
  with assms(4) have "item \<in> fst ` set (pl_log s)" by simp
  then obtain r where "(item, r) \<in> set (pl_log s)" by force
  with log(2) assms(1) show ?thesis by (fastforce simp: pool_run_def)
qed

lemma start_unsuccessful: "\<not> bs_success (start_summary opts now)"
  by (simp add: start_summary_def)

lemma verdict_of_body:
  assumes begun: "benchmark_opening g opts w (start_summary opts now) = Some (c1, s1, Inr profile)"
    and body: "benchmark_body g opts w profile s1 = Some (c2, s2, r)"
  shows "bs_success s2 \<longleftrightarrow> (\<exists>u. r = Inr u)"
proof -
  have "\<not> bs_success s1"
    using begun quiet_parts(1) [of g opts w] start_unsuccessful [of opts now] unfolding quiet_def by metis
  moreover have "bs_success s2 = bs_success s1" if "r = Inl err" for err
    using body body_fails_quietly [of g opts w profile] that unfolding fails_quietly_def by blast
  moreover have "bs_success s2" if "r = Inr u" for u using body_ok body that by blast
  ultimately show ?thesis by (cases r) auto
qed

lemma verdict_of_run:
  assumes "run_benchmark g opts w = Some (calls, s, errs)"
  shows "bs_success s \<longleftrightarrow> errs = []"
  using assms
proof (cases rule: run_benchmark_parts)
  case (opened err)
  then have "bs_success s = bs_success (start_summary opts (bw_started_at w))"
    using quiet_parts(1) [of g opts w] unfolding quiet_def by blast
  with opened(2) start_unsuccessful show ?thesis by simp
next
  case (kept c1 s1 profile c2 r)
  from verdict_of_body [OF kept(1,2)] kept(5) show ?thesis by (auto split: sum.splits)
next
  case (closed c1 s1 profile c2 s2 r c3 s3 r')
  have "bs_success s3 = bs_success s2" by (subst closing_facts(1) [OF closed(4)]) simp
  with verdict_of_body [OF closed(1,2)] closed(6,7) show ?thesis by (auto split: sum.splits)
qed

definition closing_ok :: "'q benchmark_setting \<Rightarrow> driver_options \<Rightarrow> 'q benchmark_world \<Rightarrow> bool" where
  "closing_ok g opts w \<longleftrightarrow>
     snd (set_deployment_replicas (bg_retries g) 0 (fst (bw_close w)) (snd (bw_close w))) = None
     \<and> (\<exists>pods. wait_for_controller_pods False (bw_closed w) = Some (Inr pods))
     \<and> (do_retain_dataset opts \<or> cleanup_run (ca_listed (bw_final_cleanup w))
          (pool_result (ca_deleted (bw_final_cleanup w))) (ca_rounds (bw_final_cleanup w)) = Some None)"

lemma run_success:
  assumes "run_benchmark g opts w = Some (calls, s, [])"
  shows "\<exists>profile s1 c2 s2. benchmark_body g opts w profile s1 = Some (c2, s2, Inr ())
    \<and> bs_initial s = bs_initial s2 \<and> bs_expiry s = bs_expiry s2 \<and> bs_profile s = bs_profile s2
    \<and> bs_mutation s = bs_mutation s2 \<and> (do_keep_resources opts \<or> closing_ok g opts w)"
  using assms
proof (cases rule: run_benchmark_parts)
  case (kept c1 s1 profile c2 r)
  then have "r = Inr ()" by (cases r) auto
  with kept show ?thesis by blast
next
  case (closed c1 s1 profile c2 s2 r c3 s3 r')
  from closed(7) have r: "r = Inr ()" "r' = Inr ()" by (cases r; cases r'; simp)+
  from closing_facts(1) [OF closed(4)] obtain d where "s3 = s2\<lparr>bs_diagnostics := d\<rparr>" by blast
  with closed(6) r have "bs_initial s = bs_initial s2 \<and> bs_expiry s = bs_expiry s2
      \<and> bs_profile s = bs_profile s2 \<and> bs_mutation s = bs_mutation s2" by simp
  moreover have "closing_ok g opts w"
    using closing_facts(3) [OF closed(4) r(2)] by (simp add: closing_ok_def)
  ultimately show ?thesis using closed(2) r(1) by blast
qed simp

text \<open>
  C31: The verdict of a run is sound and complete for what the run did: the summary says success
  exactly when no error is returned, and then every Namespace of the dataset was prepared, the
  statistics of the initial phase count all Secrets and all ServiceAccounts of the dataset and
  those of the expiry phase all Secrets, the controller's image and arguments did not change, the
  final state passed its verification and so did that of a requested injection, which succeeded;
  and unless the resources are kept, the controller was scaled down, its Pods are gone, and a
  dataset that is not retained was deleted.
\<close>

theorem benchmark_verdict:
  assumes accepted: "parse_driver_options env args = Inr opts"
    and prepared: "pool_run (\<lambda>ns. snd (prepare_namespace (bg_retries g) (bw_namespaces w) (do_dataset_id opts) ns))
        (dataset_namespaces opts) (do_setup_concurrency opts) (bw_prepared w)"
    and run: "run_benchmark g opts w = Some (calls, s, errs)"
  shows "(bs_success s \<longleftrightarrow> errs = [])
    \<and> (bs_success s \<longrightarrow>
        (\<forall>ns \<in> set (dataset_namespaces opts).
           snd (prepare_namespace (bg_retries g) (bw_namespaces w) (do_dataset_id opts) ns) = None)
      \<and> (\<exists>initial expiry. bs_initial s = Some initial \<and> bs_expiry s = Some expiry
           \<and> cs_count (ps_secret_completion initial) = nat (do_namespace_count opts)
           \<and> cs_count (ps_account_completion initial) = 2 * nat (do_namespace_count opts)
           \<and> cs_count (ps_secret_completion expiry) = nat (do_namespace_count opts))
      \<and> (\<exists>profile. bs_profile s = Some profile \<and> cp_stable profile)
      \<and> verify_final_state (dataset_namespaces opts) (bw_final_secrets w) (bw_final_accounts w) = None
      \<and> (do_inject_during_expiry opts \<longrightarrow> (\<exists>m. bs_mutation s = Some m \<and> ms_success m
           \<and> verify_mutation_final_state (bg_codec g) m (bw_late_account w) (bw_late_secret w)
               (bw_late_accounts w) = None))
      \<and> (\<not> do_keep_resources opts \<longrightarrow>
           snd (set_deployment_replicas (bg_retries g) 0 (fst (bw_close w)) (snd (bw_close w))) = None
         \<and> (\<exists>pods. wait_for_controller_pods False (bw_closed w) = Some (Inr pods))
         \<and> (do_retain_dataset opts \<or> cleanup_run (ca_listed (bw_final_cleanup w))
              (pool_result (ca_deleted (bw_final_cleanup w))) (ca_rounds (bw_final_cleanup w)) = Some None)))"
proof (intro conjI impI)
  show verdict: "bs_success s \<longleftrightarrow> errs = []" by (rule verdict_of_run [OF run])
  assume success: "bs_success s"
  have workers: "0 < do_setup_concurrency opts"
    using accepted check_driver_options_valid
    by (fastforce simp: parse_driver_options_def split: sum.splits prod.splits if_splits)
  with verdict success have errs: "errs = []" by simp
  from run_success [OF run [unfolded errs]] obtain profile s1 c2 s2 where
    body: "benchmark_body g opts w profile s1 = Some (c2, s2, Inr ())"
    and same: "bs_initial s = bs_initial s2" "bs_expiry s = bs_expiry s2" "bs_profile s = bs_profile s2"
      "bs_mutation s = bs_mutation s2"
    and closing: "do_keep_resources opts \<or> closing_ok g opts w"
    by blast
  note parts = body_ok [OF body]
  have sizes: "length (dataset_namespaces opts) = nat (do_namespace_count opts)"
    "length target_service_accounts = 2"
    by (simp_all add: dataset_namespaces_def namespace_names_facts target_service_accounts_def)
  show "\<forall>ns \<in> set (dataset_namespaces opts).
      snd (prepare_namespace (bg_retries g) (bw_namespaces w) (do_dataset_id opts) ns) = None"
    using pool_run_ok [OF prepared workers] parts by blast
  show "\<exists>initial expiry. bs_initial s = Some initial \<and> bs_expiry s = Some expiry
      \<and> cs_count (ps_secret_completion initial) = nat (do_namespace_count opts)
      \<and> cs_count (ps_account_completion initial) = 2 * nat (do_namespace_count opts)
      \<and> cs_count (ps_secret_completion expiry) = nat (do_namespace_count opts)"
    using parts by (auto simp: same sizes)
  show "\<exists>profile. bs_profile s = Some profile \<and> cp_stable profile"
    "verify_final_state (dataset_namespaces opts) (bw_final_secrets w) (bw_final_accounts w) = None"
    using parts by (simp_all add: same)
  show "\<exists>m. bs_mutation s = Some m \<and> ms_success m
      \<and> verify_mutation_final_state (bg_codec g) m (bw_late_account w) (bw_late_secret w)
          (bw_late_accounts w) = None" if "do_inject_during_expiry opts"
    using parts that by (simp add: same)
  assume "\<not> do_keep_resources opts"
  with closing have "closing_ok g opts w" by simp
  then show "snd (set_deployment_replicas (bg_retries g) 0 (fst (bw_close w)) (snd (bw_close w))) = None"
    "\<exists>pods. wait_for_controller_pods False (bw_closed w) = Some (Inr pods)"
    "do_retain_dataset opts \<or> cleanup_run (ca_listed (bw_final_cleanup w))
      (pool_result (ca_deleted (bw_final_cleanup w))) (ca_rounds (bw_final_cleanup w)) = Some None"
    unfolding closing_ok_def by blast+
qed

section \<open>A run cleans up after itself\<close>

text \<open>Scripts all of whose calls satisfy a predicate.\<close>

definition calls_only :: "(benchmark_call \<Rightarrow> bool) \<Rightarrow> 'a script \<Rightarrow> bool" where
  "calls_only P m \<longleftrightarrow> (\<forall>s calls s' r. m s = Some (calls, s', r) \<longrightarrow> list_all P calls)"

named_theorems calls_intros

lemma calls_basic [calls_intros]:
  "calls_only P (returns x)" "calls_only P (fails err)" "calls_only P (note_in f)"
  "P c \<Longrightarrow> calls_only P (attempt c answer)"
  "P (Scale_To n) \<Longrightarrow> calls_only P (scale_call g n scaled)"
  "P (Wait_For_Pods b) \<Longrightarrow> calls_only P (pods_call b rounds)"
  "P (Clean_Up d) \<Longrightarrow> calls_only P (cleanup_call d ca)"
  "P Read_Profile \<Longrightarrow> calls_only P (profile_call deployment)"
  "P (Watch_Phase kind) \<Longrightarrow> calls_only P (watch_phase g kind i timeout wa store t)"
  "calls_only P (take_injection g opts w)"
  by (auto simp: calls_only_def returns_def fails_def attempt_def note_in_def scale_call_def
    pods_call_def cleanup_call_def profile_call_def watch_phase_def take_injection_def
    split: option.splits if_splits)

lemma calls_and_then [calls_intros]:
  "calls_only P m \<Longrightarrow> (\<And>x. calls_only P (f x)) \<Longrightarrow> calls_only P (and_then m f)"
  unfolding calls_only_def and_then_def by (fastforce split: option.splits sum.splits)

lemma calls_options [calls_intros]:
  "(b \<Longrightarrow> calls_only P m) \<Longrightarrow> (\<not> b \<Longrightarrow> calls_only P m') \<Longrightarrow> calls_only P (if b then m else m')"
  "calls_only P n \<Longrightarrow> (\<And>e. calls_only P (h e)) \<Longrightarrow> calls_only P (case r of None \<Rightarrow> n | Some e \<Rightarrow> h e)"
  "(\<And>a b. calls_only P (k a b)) \<Longrightarrow> calls_only P (case p of (a, b) \<Rightarrow> k a b)"
  by (auto split: option.split prod.split)

definition body_call :: "benchmark_call \<Rightarrow> bool" where
  "body_call c \<longleftrightarrow> (case c of Clean_Up _ \<Rightarrow> False | _ \<Rightarrow> True)"

definition opening_call :: "driver_options \<Rightarrow> benchmark_call \<Rightarrow> bool" where
  "opening_call opts c \<longleftrightarrow>
     (case c of Clean_Up d \<Rightarrow> d = do_dataset_id opts \<and> \<not> do_reuse_dataset opts
      | Prepare_Workload _ _ \<Rightarrow> False | _ \<Rightarrow> True)"

lemma calls_of_parts:
  "calls_only (opening_call opts) (benchmark_opening g opts w)"
  "calls_only body_call (benchmark_body g opts w profile)"
proof -
  show "calls_only (opening_call opts) (benchmark_opening g opts w)"
    unfolding benchmark_opening_def Let_def by (intro calls_intros) (simp_all add: opening_call_def)
  have verify: "calls_only body_call (\<lambda>s. if \<not> do_inject_during_expiry opts then returns () s
       else attempt Verify_Injection (Some (h s)) s)" for h :: "benchmark_summary \<Rightarrow> (benchmark_error, unit) result"
    unfolding calls_only_def by (auto simp: returns_def attempt_def body_call_def split: if_splits)
  show "calls_only body_call (benchmark_body g opts w profile)"
    unfolding benchmark_body_def benchmark_setup_def benchmark_initial_def benchmark_expiry_def
      benchmark_verification_def Let_def
    by (intro calls_intros verify) (simp_all add: body_call_def)
qed

text \<open>
  C32: Whatever fails after a run has begun to prepare the dataset, the run ends by collecting the
  logs and scaling the controller to zero, unless the resources are to be kept; then it waits for
  the Pods and, unless the dataset is retained, deletes it, each once the step before succeeded;
  all of it, if no error of the clean-up is returned. Only Namespaces of the run's own dataset are
  ever deleted, and none when a reused dataset is retained or kept.
\<close>

theorem run_cleans_up:
  assumes run: "run_benchmark g opts w = Some (calls, s, errs)"
  shows "(Clean_Up d \<in> set calls \<longrightarrow> d = do_dataset_id opts
      \<and> \<not> (do_reuse_dataset opts \<and> (do_retain_dataset opts \<or> do_keep_resources opts)))
    \<and> (Prepare_Workload d' nss \<in> set calls \<and> \<not> do_keep_resources opts \<longrightarrow>
        (\<exists>before after rest. calls = before @ [Collect_Logs, Scale_To 0] @ after
          \<and> after @ rest = Wait_For_Pods False
              # (if do_retain_dataset opts then [] else [Clean_Up (do_dataset_id opts)])
          \<and> ((\<forall>err. Cleanup_Of_Run err \<notin> set errs) \<longrightarrow> rest = [])))"
  using run
proof (cases rule: run_benchmark_parts)
  case (opened err)
  with calls_of_parts(1) [of opts g w] have "list_all (opening_call opts) calls"
    unfolding calls_only_def by blast
  then show ?thesis by (fastforce simp: list_all_iff opening_call_def)
next
  case (kept c1 s1 profile c2 r)
  with calls_of_parts(1) [of opts g w] calls_of_parts(2) [of g opts w profile]
  have "list_all (opening_call opts) c1" "list_all body_call c2" unfolding calls_only_def by blast+
  with kept(3,4) show ?thesis by (fastforce simp: list_all_iff opening_call_def body_call_def)
next
  case (closed c1 s1 profile c2 s2 r c3 s3 r')
  with calls_of_parts(1) [of opts g w] calls_of_parts(2) [of g opts w profile]
  have parts: "list_all (opening_call opts) c1" "list_all body_call c2" unfolding calls_only_def by blast+
  from closing_facts(2) [OF closed(4)] obtain after rest where
    c3: "c3 = [Collect_Logs, Scale_To 0] @ after"
      "after @ rest = Wait_For_Pods False # (if do_retain_dataset opts then [] else [Clean_Up (do_dataset_id opts)])"
    by blast
  have full: "rest = []" if "\<forall>err. Cleanup_Of_Run err \<notin> set errs"
  proof -
    have "r' = Inr ()" using that closed(7) by (cases r') auto
    with closing_facts(3) [OF closed(4)] c3 show ?thesis by auto
  qed
  have "set after \<subseteq> set (after @ rest)" by simp
  also note c3(2)
  finally have "Clean_Up d \<in> set c3 \<Longrightarrow> d = do_dataset_id opts \<and> \<not> do_retain_dataset opts"
    by (auto simp: c3(1) split: if_splits)
  with parts closed(3,5) have "Clean_Up d \<in> set calls \<Longrightarrow> d = do_dataset_id opts
      \<and> \<not> (do_reuse_dataset opts \<and> (do_retain_dataset opts \<or> do_keep_resources opts))"
    by (fastforce simp: list_all_iff opening_call_def body_call_def)
  moreover have "calls = (c1 @ c2) @ [Collect_Logs, Scale_To 0] @ after" by (simp add: closed(5) c3(1))
  ultimately show ?thesis using c3(2) full by blast
qed

section \<open>A concrete run\<close>

definition sample_driver_env :: driver_env where
  "sample_driver_env =
     \<lparr>de_label = (\<lambda>_. []), de_int = atoi, de_float = (\<lambda>_. None), de_duration = (\<lambda>_. None)\<rparr>"

definition sample_driver_args :: "string list" where
  "sample_driver_args = [''--run-id=a'', ''--namespaces'', ''1'']"

definition sample_driver_options :: driver_options where
  "sample_driver_options = default_driver_options
     \<lparr>do_run_id := ''a'', do_dataset_id := ''a'', do_namespace_count := 1\<rparr>"

lemma sample_driver_parse:
  "parse_driver_options sample_driver_env sample_driver_args = Inr sample_driver_options"
  by code_simp

definition sample_namespace :: string where "sample_namespace = ''krsc-perf-a-00000''"

lemma sample_dataset: "dataset_namespaces sample_driver_options = [sample_namespace]"
  by code_simp

definition whole_numbers :: "int quantity_ops" where
  "whole_numbers = \<lparr>qo_zero = 0, qo_add = (+), qo_milli = (\<lambda>q. 1000 * q), qo_value = (\<lambda>q. q)\<rparr>"

definition sample_setting :: "int benchmark_setting" where
  "sample_setting = \<lparr>bg_codec = plain_codec, bg_quantities = whole_numbers, bg_retries = 4,
     bg_show_duration = (\<lambda>_. ''50m0s'')\<rparr>"

definition sample_account :: "string \<Rightarrow> service_account" where
  "sample_account name =
     \<lparr>sa_name = name, sa_namespace = sample_namespace, sa_resource_version = ''1'',
      sa_image_pull_secrets = [default_managed_secret_name]\<rparr>"

definition closing_turn :: "tracker_event list \<Rightarrow> instant \<Rightarrow> int wait_answers" where
  "closing_turn events now =
     \<lparr>wa_create = None, wa_first_now = 11, wa_first_write = None,
      wa_turns = [\<lparr>pt_events = events, pt_wake = Phase_Closed, pt_now = now, pt_write = None,
        pt_metrics = (Some [], Some [])\<rparr>],
      wa_summary_at = now\<rparr>"

definition nothing_left :: cleanup_answers where
  "nothing_left = \<lparr>ca_listed = Inr [], ca_deleted = single_pool [], ca_rounds = []\<rparr>"

definition sample_world :: "int benchmark_world" where
  "sample_world =
     \<lparr>bw_started_at = 1, bw_profile = (Inr (sample_containers, 1), 2),
      bw_stop = (\<lambda>_. Inr (Some 1), \<lambda>_. None), bw_stopped = [(Inr [], Wake_Tick)],
      bw_stale = nothing_left, bw_dataset = Inr [], bw_namespaces = (\<lambda>_. willing_answers),
      bw_prepared = single_pool sample_namespace, bw_secrets = Inr [], bw_reset = single_pool [],
      bw_config_map = (\<lambda>_. None, \<lambda>_. None), bw_observers = None, bw_resource_file = None,
      bw_setup_time = 3, bw_before_initial = [], bw_initial_started = 10,
      bw_start = (\<lambda>_. Inr (Some 0), \<lambda>_. None),
      bw_initial = closing_turn
        [See_Secret (Some (shown_secret sample_namespace ''old'')) 20,
         See_Account (Some (sample_account ''default'')) 21,
         See_Account (Some (sample_account ''workload'')) 22] 23,
      bw_ready = [(Inr [[(''Ready'', ''True'')]], Wake_Tick)], bw_settled = None,
      bw_before_expiry = [], bw_expiry_started = 30,
      bw_injection = (sample_injection, new_tracker [] []), bw_advance = None,
      bw_expiry = closing_turn [See_Secret (Some (shown_secret sample_namespace ''new'')) 35] 36,
      bw_profile_after = (Inr (sample_containers, 1), 40),
      bw_final_secrets = Inr [shown_secret sample_namespace ''new''],
      bw_final_accounts = Inr [sample_account ''default'', sample_account ''workload''],
      bw_late_account = Inl Not_Found, bw_late_secret = Inl Not_Found,
      bw_late_accounts = (\<lambda>_. Inl Not_Found), bw_logs = (Inr [], None),
      bw_close = (\<lambda>_. Inr (Some 1), \<lambda>_. None), bw_closed = [(Inr [], Wake_Tick)],
      bw_final_cleanup = nothing_left, bw_cleanup_time = 4\<rparr>"

text \<open>Scripts that succeed on every summary, with the calls they make.\<close>

definition yields :: "'a script \<Rightarrow> benchmark_call list \<Rightarrow> 'a \<Rightarrow> bool" where
  "yields m calls x \<longleftrightarrow> (\<forall>s. \<exists>s'. m s = Some (calls, s', Inr x))"

lemma yields_basic:
  "yields (returns x) [] x" "yields (note_in f) [] ()"
  "answer = Some (Inr x) \<Longrightarrow> yields (attempt c answer) [c] x"
  by (simp_all add: yields_def returns_def note_in_def attempt_def)

lemma yields_and_then:
  assumes "yields m c1 x" "yields (f x) c2 y" shows "yields (and_then m f) (c1 @ c2) y"
  unfolding yields_def
proof
  fix s
  from assms(1) obtain s1 where "m s = Some (c1, s1, Inr x)" by (auto simp: yields_def)
  moreover from assms(2) obtain s2 where "f x s1 = Some (c2, s2, Inr y)" by (auto simp: yields_def)
  ultimately show "\<exists>s'. and_then m f s = Some (c1 @ c2, s', Inr y)" by (simp add: and_then_def)
qed

lemma yields_one:
  "yields m [c] x \<Longrightarrow> yields (f x) calls y \<Longrightarrow> yields (and_then m f) (c # calls) y"
  using yields_and_then [of m "[c]"] by simp

lemma yields_zero:
  "yields m [] x \<Longrightarrow> yields (f x) calls y \<Longrightarrow> yields (and_then m f) calls y"
  using yields_and_then [of m "[]"] by simp

lemma yields_intros:
  "answer = Some (Inr ()) \<Longrightarrow> yields (f ()) calls y \<Longrightarrow> yields (and_then (attempt c answer) f) (c # calls) y"
  "yields (f ()) calls y \<Longrightarrow> yields (and_then (note_in h) f) calls y"
  "yields (f u) calls y \<Longrightarrow> yields (and_then (returns u) f) calls y"
  by (simp_all add: yields_one yields_basic)
     (rule yields_zero, rule yields_basic, assumption)+

text \<open>The statistics of a summary never panic, as long as a map has fewer than \<open>2^53\<close> entries.\<close>

lemma summary_total:
  assumes "length (tp_secret_durations p) \<le> 2 ^ 53" "length (tp_account_durations p) \<le> 2 ^ 53"
  shows "\<exists>r. summary_of p now = Some r"
proof -
  have stats: "\<exists>s. calculate_stats m = Some s" if "length m \<le> 2 ^ 53" for m :: "(string, duration) gomap"
  proof (cases "m = []")
    case False
    from calculate_stats_Some [OF this that] show ?thesis by metis
  qed (simp add: calculate_stats_Nil)
  from stats [OF assms(1)] stats [OF assms(2)] show ?thesis by (auto simp: summary_of_def Let_def)
qed

lemma yields_watch:
  assumes "t' = tracker_run (bg_codec g) events t" "tp_done (tk_phases t' ! i)"
    and "length (tp_secret_durations (tk_phases t' ! i)) \<le> 2 ^ 53"
      "length (tp_account_durations (tk_phases t' ! i)) \<le> 2 ^ 53"
  shows "yields (watch_phase g kind i timeout (closing_turn events now) store t) [Watch_Phase kind] (t', None)"
proof -
  from summary_total [OF assms(3,4)] obtain r where "summary_of (tk_phases t' ! i) now = Some r" by blast
  with assms(1,2) show ?thesis
    by (simp add: yields_def watch_phase_def wait_for_phase_def closing_turn_def write_progress_def
      take_sample_def Let_def)
qed

text \<open>The example: every call succeeds.\<close>

lemma sample_calls:
  "yields (scale_call sample_setting 0 (bw_stop sample_world)) [Scale_To 0] ()"
  "yields (scale_call sample_setting 1 (bw_start sample_world)) [Scale_To 1] ()"
  "yields (scale_call sample_setting 0 (bw_close sample_world)) [Scale_To 0] ()"
  "yields (pods_call False (bw_stopped sample_world)) [Wait_For_Pods False] ()"
  "yields (pods_call True (bw_ready sample_world)) [Wait_For_Pods True] ()"
  "yields (pods_call False (bw_closed sample_world)) [Wait_For_Pods False] ()"
  "yields (cleanup_call ''a'' nothing_left) [Clean_Up ''a''] ()"
  unfolding scale_call_def pods_call_def cleanup_call_def
  by (intro yields_basic; code_simp)+

lemma sample_profile:
  obtains profile where
    "yields (profile_call (bw_profile sample_world)) [Read_Profile] profile"
    "yields (profile_call (bw_profile_after sample_world)) [Read_Profile] (profile\<lparr>cp_observed_at := 40\<rparr>)"
proof -
  have "\<not> isl (profile_from_deployment sample_containers 1 2)" by code_simp
  then obtain profile where first: "profile_from_deployment sample_containers 1 2 = Inr profile"
    by (cases "profile_from_deployment sample_containers 1 2") auto
  then have "profile_from_deployment sample_containers 1 40 = Inr (profile\<lparr>cp_observed_at := 40\<rparr>)"
    by (auto simp: profile_from_deployment_def Let_def split: prod.splits if_splits sum.splits)
  with first that show thesis
    by (simp add: yields_def profile_call_def attempt_def read_controller_profile_def sample_world_def)
qed

lemma sample_selected [simp]:
  "\<not> do_reuse_dataset sample_driver_options" "\<not> do_retain_dataset sample_driver_options"
  "\<not> do_keep_resources sample_driver_options" "\<not> do_inject_during_expiry sample_driver_options"
  "do_dataset_id sample_driver_options = ''a''" "do_namespace_count sample_driver_options = 1"
  "do_setup_concurrency sample_driver_options = 25"
  by (simp_all add: sample_driver_options_def default_driver_options_def)

lemma sample_setting_simps [simp]:
  "bg_codec sample_setting = plain_codec" "bg_retries sample_setting = 4"
  by (simp_all add: sample_setting_def)

lemma sample_world_simps [simp]:
  "bw_stale sample_world = nothing_left" "bw_final_cleanup sample_world = nothing_left"
  "bw_prepared sample_world = single_pool sample_namespace" "bw_reset sample_world = single_pool []"
  "bw_secrets sample_world = Inr []" "bw_observers sample_world = None"
  "bw_resource_file sample_world = None" "bw_settled sample_world = None" "bw_advance sample_world = None"
  "bw_config_map sample_world = (\<lambda>_. None, \<lambda>_. None)" "bw_before_initial sample_world = []"
  "bw_before_expiry sample_world = []" "bw_initial_started sample_world = 10"
  "bw_expiry_started sample_world = 30" "bw_namespaces sample_world = (\<lambda>_. willing_answers)"
  by (simp_all add: sample_world_def)

lemma sample_setup:
  "yields (benchmark_setup sample_setting sample_driver_options sample_world)
     [Prepare_Workload ''a'' [sample_namespace], Reset_Secrets [sample_namespace],
      Configure [sample_namespace] target_service_accounts, Start_Observers ''a'', Create_Resource_File] ()"
proof -
  have fits: "length sample_namespace \<le> maximum_config_map_data_size"
    by (simp add: sample_namespace_def maximum_config_map_data_size_def)
  have names: "configured_namespaces sample_driver_options = [sample_namespace]"
    "configured_accounts sample_driver_options = target_service_accounts"
    by (simp_all add: configured_namespaces_def configured_accounts_def sample_dataset)
  have "snd (configure_targets 4 [sample_namespace] target_service_accounts (\<lambda>_. None) (\<lambda>_. None)) = None"
    using fits by (simp add: configure_targets_def Let_def eval_nat_numeral)
  then show ?thesis unfolding benchmark_setup_def
    by (simp only: sample_selected names sample_dataset sample_world_simps sample_setting_simps)
       (intro yields_intros yields_basic;
        simp add: pool_error_def reset_managed_secrets_def or_error_def)
qed

definition sample_first :: tracker where
  "sample_first = tracker_run plain_codec
     [See_Secret (Some (shown_secret sample_namespace ''old'')) 20,
      See_Account (Some (sample_account ''default'')) 21,
      See_Account (Some (sample_account ''workload'')) 22]
     (snd (start_phase Initial_Phase 10 (new_tracker [sample_namespace] target_service_accounts)))"

lemma sample_initial:
  "yields (benchmark_initial sample_setting sample_driver_options sample_world)
     [Scale_To 1, Watch_Phase Initial_Phase, Wait_For_Pods True, Settle] sample_first"
proof -
  let ?n = "new_tracker [sample_namespace] target_service_accounts"
  obtain t1 where start: "start_phase Initial_Phase 10 ?n = (0, t1)"
    by (simp add: start_phase_def new_tracker_def)
  have initial: "bw_initial sample_world = closing_turn
      [See_Secret (Some (shown_secret sample_namespace ''old'')) 20,
       See_Account (Some (sample_account ''default'')) 21,
       See_Account (Some (sample_account ''workload'')) 22] 23"
    by (simp add: sample_world_def)
  have closed: "tp_done (tk_phases sample_first ! 0)"
    "length (tp_secret_durations (tk_phases sample_first ! 0)) = 1"
    "length (tp_account_durations (tk_phases sample_first ! 0)) = 2"
    by code_simp+
  have first: "sample_first = tracker_run (bg_codec sample_setting)
      [See_Secret (Some (shown_secret sample_namespace ''old'')) 20,
       See_Account (Some (sample_account ''default'')) 21,
       See_Account (Some (sample_account ''workload'')) 22] t1"
    by (simp add: sample_first_def start)
  note watch = yields_watch [where kind = Initial_Phase, OF first closed(1)]
  show ?thesis unfolding benchmark_initial_def initial
    by (simp add: sample_dataset start Let_def)
       (intro yields_one [OF sample_calls(2)] yields_one [OF watch], simp_all add: closed,
        intro yields_intros yields_one [OF sample_calls(5)] yields_basic, simp_all add: or_error_def)
qed

lemma sample_expiry:
  "yields (benchmark_expiry sample_setting sample_driver_options sample_world sample_first)
     [Advance_Clock (do_clock_advance sample_driver_options), Watch_Phase Expiry_Phase] ()"
proof -
  have phases: "length (tk_phases sample_first) = 1" by code_simp
  then obtain t1 where start: "start_phase Expiry_Phase 30 sample_first = (1, t1)"
    by (simp add: start_phase_def)
  have expiry: "bw_expiry sample_world
      = closing_turn [See_Secret (Some (shown_secret sample_namespace ''new'')) 35] 36"
    by (simp add: sample_world_def)
  define t2 where "t2 = tracker_run plain_codec
    [See_Secret (Some (shown_secret sample_namespace ''new'')) 35] (snd (start_phase Expiry_Phase 30 sample_first))"
  have closed: "tp_done (tk_phases t2 ! 1)" "length (tp_secret_durations (tk_phases t2 ! 1)) = 1"
    "length (tp_account_durations (tk_phases t2 ! 1)) = 0"
    unfolding t2_def by code_simp+
  have second: "t2 = tracker_run (bg_codec sample_setting)
      [See_Secret (Some (shown_secret sample_namespace ''new'')) 35] t1"
    by (simp add: t2_def start)
  note watch = yields_watch [where kind = Expiry_Phase, OF second closed(1)]
  have no_injection: "yields (take_injection sample_setting sample_driver_options sample_world) [] []"
    by (simp add: yields_def take_injection_def)
  have few: "length (tp_secret_durations (tk_phases t2 ! 1)) \<le> 2 ^ 53"
    "length (tp_account_durations (tk_phases t2 ! 1)) \<le> 2 ^ 53"
    by (simp_all only: closed) simp_all
  have watch: "yields (watch_phase sample_setting Expiry_Phase 1 (do_expiry_timeout sample_driver_options)
      (closing_turn [See_Secret (Some (shown_secret sample_namespace ''new'')) 35] 36)
      (\<lambda>report s. s\<lparr>bs_expiry := Some report\<rparr>) t1) [Watch_Phase Expiry_Phase] (t2, None)"
    by (rule yields_watch [OF second closed(1) few])
  show ?thesis unfolding benchmark_expiry_def expiry
    by (simp add: start del: One_nat_def)
       (intro yields_intros yields_one [OF watch], simp_all,
        intro yields_zero [OF no_injection], simp add: yields_intros yields_basic)
qed

lemma sample_run:
  "\<exists>s. run_benchmark sample_setting sample_driver_options sample_world =
     Some ([Read_Profile, Scale_To 0, Wait_For_Pods False, Clean_Up ''a'',
       Prepare_Workload ''a'' [sample_namespace], Reset_Secrets [sample_namespace],
       Configure [sample_namespace] target_service_accounts, Start_Observers ''a'', Create_Resource_File,
       Scale_To 1, Watch_Phase Initial_Phase, Wait_For_Pods True, Settle,
       Advance_Clock (do_clock_advance sample_driver_options), Watch_Phase Expiry_Phase,
       Read_Profile, Verify_Final,
       Collect_Logs, Scale_To 0, Wait_For_Pods False, Clean_Up ''a''], s, [])"
proof -
  obtain profile where first: "yields (profile_call (bw_profile sample_world)) [Read_Profile] profile"
    and again: "yields (profile_call (bw_profile_after sample_world)) [Read_Profile]
      (profile\<lparr>cp_observed_at := 40\<rparr>)"
    by (rule sample_profile)
  define used where "used = profile\<lparr>cp_expiry_trigger := ''fake clock advanced ''
    @ bg_show_duration sample_setting (do_clock_advance sample_driver_options)
    @ ''; real scheduler and Kubernetes writes''\<rparr>"
  have opened: "yields (benchmark_opening sample_setting sample_driver_options sample_world)
      [Read_Profile, Scale_To 0, Wait_For_Pods False, Clean_Up ''a''] used"
    unfolding benchmark_opening_def Let_def
    by (intro yields_one [OF first] yields_intros yields_one [OF sample_calls(1)] yields_one [OF sample_calls(4)])
       (fold used_def, simp, intro yields_one [OF sample_calls(7)] yields_basic)
  have "verify_final_state (dataset_namespaces sample_driver_options) (bw_final_secrets sample_world)
      (bw_final_accounts sample_world) = None"
    by code_simp
  then have verified: "yields (benchmark_verification sample_setting sample_driver_options sample_world used)
      [Read_Profile, Verify_Final] ()"
    unfolding benchmark_verification_def
    by (intro yields_one [OF again])
       (simp add: used_def, intro yields_intros,
        simp_all add: or_error_def yields_def and_then_def returns_def note_in_def)
  have body: "yields (benchmark_body sample_setting sample_driver_options sample_world used)
      ([Prepare_Workload ''a'' [sample_namespace], Reset_Secrets [sample_namespace],
       Configure [sample_namespace] target_service_accounts, Start_Observers ''a'', Create_Resource_File]
       @ [Scale_To 1, Watch_Phase Initial_Phase, Wait_For_Pods True, Settle]
       @ [Advance_Clock (do_clock_advance sample_driver_options), Watch_Phase Expiry_Phase]
       @ [Read_Profile, Verify_Final]) ()"
    unfolding benchmark_body_def
    by (rule yields_and_then, rule sample_setup, rule yields_and_then, rule sample_initial,
        rule yields_and_then, rule sample_expiry, rule verified)
  have closing: "yields (closing_calls sample_setting sample_driver_options sample_world)
      [Collect_Logs, Scale_To 0, Wait_For_Pods False, Clean_Up ''a''] ()"
    unfolding closing_calls_def
    by (intro yields_intros yields_one [OF sample_calls(3)] yields_one [OF sample_calls(6)])
       (simp_all add: sample_calls)
  obtain s1 where "benchmark_opening sample_setting sample_driver_options sample_world
      (start_summary sample_driver_options (bw_started_at sample_world))
    = Some ([Read_Profile, Scale_To 0, Wait_For_Pods False, Clean_Up ''a''], s1, Inr used)"
    using opened unfolding yields_def by blast
  moreover from body obtain s2 where "benchmark_body sample_setting sample_driver_options sample_world used s1
    = Some ([Prepare_Workload ''a'' [sample_namespace], Reset_Secrets [sample_namespace],
       Configure [sample_namespace] target_service_accounts, Start_Observers ''a'', Create_Resource_File,
       Scale_To 1, Watch_Phase Initial_Phase, Wait_For_Pods True, Settle,
       Advance_Clock (do_clock_advance sample_driver_options), Watch_Phase Expiry_Phase,
       Read_Profile, Verify_Final], s2, Inr ())"
    unfolding yields_def by auto
  moreover from closing obtain s3 where "closing_calls sample_setting sample_driver_options sample_world s2
    = Some ([Collect_Logs, Scale_To 0, Wait_For_Pods False, Clean_Up ''a''], s3, Inr ())"
    unfolding yields_def by blast
  ultimately show ?thesis by (simp add: run_benchmark_def close_benchmark_def Let_def)
qed

theorem benchmark_verdict_witness:
  "\<exists>calls s. run_benchmark sample_setting sample_driver_options sample_world = Some (calls, s, [])
     \<and> bs_success s
     \<and> (\<exists>initial. bs_initial s = Some initial \<and> cs_count (ps_account_completion initial) = 2)"
proof -
  obtain calls s where run: "run_benchmark sample_setting sample_driver_options sample_world = Some (calls, s, [])"
    using sample_run by blast
  have "snd (prepare_namespace 4 (\<lambda>_. willing_answers) ''a'' sample_namespace) = None" by code_simp
  then have prepared: "pool_run (\<lambda>ns. snd (prepare_namespace (bg_retries sample_setting)
        (bw_namespaces sample_world) (do_dataset_id sample_driver_options) ns))
      (dataset_namespaces sample_driver_options) (do_setup_concurrency sample_driver_options)
      (bw_prepared sample_world)"
    by (simp add: pool_run_def sample_dataset single_pool_reach)
  note verdict = benchmark_verdict [OF sample_driver_parse prepared run]
  then have "bs_success s" by blast
  with verdict run show ?thesis by fastforce
qed

theorem run_cleans_up_witness:
  "\<exists>calls s before after. run_benchmark sample_setting sample_driver_options sample_world = Some (calls, s, [])
     \<and> Clean_Up ''b'' \<notin> set calls \<and> calls = before @ [Collect_Logs, Scale_To 0] @ after
     \<and> after = [Wait_For_Pods False, Clean_Up ''a'']"
proof -
  obtain calls s where run: "run_benchmark sample_setting sample_driver_options sample_world = Some (calls, s, [])"
    and begun: "Prepare_Workload ''a'' [sample_namespace] \<in> set calls"
    using sample_run by fastforce
  from run_cleans_up [OF run, of "''b''" "''a''" "[sample_namespace]"] begun run show ?thesis by auto
qed

end
